(* ===== verification/Sim_Prelude.thy ===== *)
theory Sim_Prelude
  imports Main "HOL-Library.Word"
begin

text \<open>
  Shared ground of the development: the machine types of the simulator, the outcome of a Rust
  computation (a value, an error returned with \<^verbatim>\<open>?\<close>, or a panic), state-passing
  actions with a small Hoare logic for them, fixed-size arrays, checked arithmetic and
  little-endian bytes. Everything here models the Rust language and its standard library as
  \<^verbatim>\<open>core_sim\<close> uses them.
\<close>

unbundle bit_operations_syntax

named_theorems act_simps "unfolding rules of the action combinators"
named_theorems hoare_intro "compositional rules of the Hoare logic"

section \<open>Machine types and build profile\<close>

type_synonym u8 = "8 word"
type_synonym u32 = "32 word"
type_synonym usize = nat

text \<open>
  The conditional compilation flags the code looks at. The default features (typed memory,
  statistics, FPU simulation, time prediction) are always on. \<open>debug_assertions\<close> also turns on
  the overflow checks of the language, as it does in Cargo's profiles.
\<close>

record build =
  debug_assertions :: bool
  isa_2nd :: bool

section \<open>Outcomes\<close>

datatype panic =
    IndexOutOfBounds
  | ArithmeticOverflow
  | Unreachable
  | AssertFailed
  | UnwrapFailed
  | NotImplemented

datatype ('e, 'a) outcome = Ok 'a | Err 'e | Panic panic

fun bind_out :: "('e, 'a) outcome \<Rightarrow> ('a \<Rightarrow> ('e, 'b) outcome) \<Rightarrow> ('e, 'b) outcome" where
  "bind_out (Ok a) f = f a"
| "bind_out (Err e) f = Err e"
| "bind_out (Panic p) f = Panic p"

fun map_err :: "('e \<Rightarrow> 'f) \<Rightarrow> ('e, 'a) outcome \<Rightarrow> ('f, 'a) outcome" where
  "map_err g (Ok a) = Ok a"
| "map_err g (Err e) = Err (g e)"
| "map_err g (Panic p) = Panic p"

fun is_panic :: "('e, 'a) outcome \<Rightarrow> bool" where
  "is_panic (Panic p) = True"
| "is_panic _ = False"

lemma bind_out_Ok_iff:
  "bind_out m f = Ok b \<longleftrightarrow> (\<exists>a. m = Ok a \<and> f a = Ok b)"
  by (cases m) auto

lemma bind_out_Panic_iff:
  "bind_out m f = Panic p \<longleftrightarrow> m = Panic p \<or> (\<exists>a. m = Ok a \<and> f a = Panic p)"
  by (cases m) auto

lemma bind_out_assoc: "bind_out (bind_out m f) g = bind_out m (\<lambda>x. bind_out (f x) g)"
  by (cases m) auto

lemma is_panic_iff: "is_panic r \<longleftrightarrow> (\<exists>p. r = Panic p)"
  by (cases r) auto

section \<open>State-passing actions\<close>

text \<open>
  A method with \<^verbatim>\<open>&mut self\<close> is an action: it takes the object and returns the outcome and
  the object as it is left, also when the method returns an error.
\<close>

type_synonym ('s, 'e, 'a) action = "'s \<Rightarrow> ('e, 'a) outcome \<times> 's"

definition act_ret :: "'a \<Rightarrow> ('s, 'e, 'a) action" where
  "act_ret a s = (Ok a, s)"

definition act_err :: "'e \<Rightarrow> ('s, 'e, 'a) action" where
  "act_err e s = (Err e, s)"

definition act_panic :: "panic \<Rightarrow> ('s, 'e, 'a) action" where
  "act_panic p s = (Panic p, s)"

definition act_bind ::
  "('s, 'e, 'a) action \<Rightarrow> ('a \<Rightarrow> ('s, 'e, 'b) action) \<Rightarrow> ('s, 'e, 'b) action" where
  "act_bind m f s =
     (case m s of
        (Ok a, s') \<Rightarrow> f a s'
      | (Err e, s') \<Rightarrow> (Err e, s')
      | (Panic p, s') \<Rightarrow> (Panic p, s'))"

definition act_lift :: "('e, 'a) outcome \<Rightarrow> ('s, 'e, 'a) action" where
  "act_lift r s = (r, s)"

definition act_gets :: "('s \<Rightarrow> 'a) \<Rightarrow> ('s, 'e, 'a) action" where
  "act_gets f s = (Ok (f s), s)"

definition act_modify :: "('s \<Rightarrow> 's) \<Rightarrow> ('s, 'e, unit) action" where
  "act_modify f s = (Ok (), f s)"

text \<open>Reading through a fallible operation, and replacing the state by the result of one.\<close>

definition act_read :: "('s \<Rightarrow> ('e, 'a) outcome) \<Rightarrow> ('s, 'e, 'a) action" where
  "act_read f s = (f s, s)"

definition act_try :: "('s \<Rightarrow> ('e, 's) outcome) \<Rightarrow> ('s, 'e, unit) action" where
  "act_try f s =
     (case f s of Ok s' \<Rightarrow> (Ok (), s') | Err e \<Rightarrow> (Err e, s) | Panic p \<Rightarrow> (Panic p, s))"

text \<open>Calling a method of a field: \<open>zoom get put m\<close> runs \<open>m\<close> on the field and stores it back.\<close>

definition zoom :: "('s \<Rightarrow> 't) \<Rightarrow> ('t \<Rightarrow> 's \<Rightarrow> 's) \<Rightarrow> ('t, 'e, 'a) action \<Rightarrow> ('s, 'e, 'a) action" where
  "zoom gt pt m s = (case m (gt s) of (r, t) \<Rightarrow> (r, pt t s))"

definition act_map_err :: "('e \<Rightarrow> 'f) \<Rightarrow> ('s, 'e, 'a) action \<Rightarrow> ('s, 'f, 'a) action" where
  "act_map_err g m s = (case m s of (r, s') \<Rightarrow> (map_err g r, s'))"

text \<open>Matching on the result of a fallible call instead of propagating its error.\<close>

definition act_attempt :: "('s, 'e, 'a) action \<Rightarrow> ('s, 'f, 'e + 'a) action" where
  "act_attempt m s =
     (case m s of
        (Ok a, s') \<Rightarrow> (Ok (Inr a), s')
      | (Err e, s') \<Rightarrow> (Ok (Inl e), s')
      | (Panic p, s') \<Rightarrow> (Panic p, s'))"

text \<open>A local variable handed to a callee by mutable reference; its final value is returned.\<close>

definition with_local :: "'t \<Rightarrow> ('s \<times> 't, 'e, 'a) action \<Rightarrow> ('s, 'e, 'a \<times> 't) action" where
  "with_local t m s =
     (case m (s, t) of
        (Ok a, (s', t')) \<Rightarrow> (Ok (a, t'), s')
      | (Err e, (s', t')) \<Rightarrow> (Err e, s')
      | (Panic p, (s', t')) \<Rightarrow> (Panic p, s'))"

text \<open>A \<^verbatim>\<open>for\<close> loop over a list that stops at the first error or panic.\<close>

fun act_iter :: "('a \<Rightarrow> ('s, 'e, unit) action) \<Rightarrow> 'a list \<Rightarrow> ('s, 'e, unit) action" where
  "act_iter f [] = act_ret ()"
| "act_iter f (x # xs) = act_bind (f x) (\<lambda>_. act_iter f xs)"

lemmas act_defs [act_simps] =
  act_ret_def act_err_def act_panic_def act_bind_def act_lift_def act_gets_def act_modify_def
  zoom_def act_map_err_def act_read_def act_try_def with_local_def
  act_attempt_def

lemma act_bind_ret [simp]: "act_bind (act_ret a) f = f a"
  by (simp add: act_bind_def act_ret_def fun_eq_iff)

lemma act_bind_assoc:
  "act_bind (act_bind m f) g = act_bind m (\<lambda>x. act_bind (f x) g)"
  by (auto simp: act_bind_def fun_eq_iff split: prod.split outcome.split)

section \<open>A Hoare logic for actions\<close>

text \<open>
  \<open>hoare P m Q E\<close>: from a state in \<open>P\<close> the action does not panic; if it returns a value, \<open>Q\<close>
  holds of it and the new state; if it returns an error, \<open>E\<close> does.
\<close>

definition hoare ::
  "('s \<Rightarrow> bool) \<Rightarrow> ('s, 'e, 'a) action \<Rightarrow> ('a \<Rightarrow> 's \<Rightarrow> bool) \<Rightarrow> ('e \<Rightarrow> 's \<Rightarrow> bool) \<Rightarrow> bool" where
  "hoare P m Q E \<longleftrightarrow>
     (\<forall>s. P s \<longrightarrow> (case m s of (Ok a, s') \<Rightarrow> Q a s' | (Err e, s') \<Rightarrow> E e s' | (Panic p, s') \<Rightarrow> False))"

lemma hoareI:
  assumes "\<And>s. P s \<Longrightarrow> case m s of (Ok a, s') \<Rightarrow> Q a s' | (Err e, s') \<Rightarrow> E e s' | (Panic p, s') \<Rightarrow> False"
  shows "hoare P m Q E"
  using assms by (simp add: hoare_def)

lemma hoareD:
  assumes "hoare P m Q E" and "P s"
  shows "case m s of (Ok a, s') \<Rightarrow> Q a s' | (Err e, s') \<Rightarrow> E e s' | (Panic p, s') \<Rightarrow> False"
  using assms by (simp add: hoare_def)

lemma hoare_Ok:
  assumes "hoare P m Q E" and "P s" and "m s = (Ok a, s')"
  shows "Q a s'"
  using hoareD [OF assms(1,2)] assms(3) by simp

lemma hoare_Err:
  assumes "hoare P m Q E" and "P s" and "m s = (Err e, s')"
  shows "E e s'"
  using hoareD [OF assms(1,2)] assms(3) by simp

lemma hoare_no_panic:
  assumes "hoare P m Q E" and "P s"
  shows "\<not> is_panic (fst (m s))"
  using hoareD [OF assms] by (auto split: prod.splits outcome.splits)

lemma hoare_bind [hoare_intro]:
  assumes "hoare P m R E" and "\<And>a. hoare (R a) (f a) Q E"
  shows "hoare P (act_bind m f) Q E"
  using assms unfolding hoare_def act_bind_def
  by (fastforce split: prod.splits outcome.splits)

lemma hoare_ret [hoare_intro]: "(\<And>s. P s \<Longrightarrow> Q a s) \<Longrightarrow> hoare P (act_ret a) Q E"
  by (simp add: hoare_def act_ret_def)

lemma hoare_err [hoare_intro]: "(\<And>s. P s \<Longrightarrow> E e s) \<Longrightarrow> hoare P (act_err e) Q E"
  by (simp add: hoare_def act_err_def)

lemma hoare_gets [hoare_intro]: "(\<And>s. P s \<Longrightarrow> Q (f s) s) \<Longrightarrow> hoare P (act_gets f) Q E"
  by (simp add: hoare_def act_gets_def)

lemma hoare_modify [hoare_intro]: "(\<And>s. P s \<Longrightarrow> Q () (f s)) \<Longrightarrow> hoare P (act_modify f) Q E"
  by (simp add: hoare_def act_modify_def)

lemma hoare_read [hoare_intro]:
  assumes "\<And>s. P s \<Longrightarrow> case f s of Ok a \<Rightarrow> Q a s | Err e \<Rightarrow> E e s | Panic p \<Rightarrow> False"
  shows "hoare P (act_read f) Q E"
  using assms by (fastforce simp: hoare_def act_read_def split: outcome.splits)

lemma hoare_lift [hoare_intro]:
  assumes "\<And>s. P s \<Longrightarrow> case r of Ok a \<Rightarrow> Q a s | Err e \<Rightarrow> E e s | Panic p \<Rightarrow> False"
  shows "hoare P (act_lift r) Q E"
  using assms by (fastforce simp: hoare_def act_lift_def split: outcome.splits)

lemma hoare_with_local:
  assumes "hoare (\<lambda>(s, t'). P s \<and> t' = t) m (\<lambda>a (s, t). Q (a, t) s) (\<lambda>e (s, t). E e s)"
  shows "hoare P (with_local t m) Q E"
  using assms unfolding hoare_def with_local_def
  by (fastforce split: prod.splits outcome.splits)

text \<open>Sequencing when the first action also promises something of its result alone.\<close>

lemma hoare_bind_pure:
  assumes "hoare P m (\<lambda>a s. R s \<and> A a) E" and "\<And>a. A a \<Longrightarrow> hoare R (f a) Q E"
  shows "hoare P (act_bind m f) Q E"
  using assms unfolding hoare_def act_bind_def
  by (fastforce split: prod.splits outcome.splits)

lemma hoare_no_err: "hoare P m Q (\<lambda>_ _. False) \<Longrightarrow> hoare P m Q E"
  unfolding hoare_def by (fastforce split: prod.splits outcome.splits)

lemma hoare_try [hoare_intro]:
  assumes "\<And>s. P s \<Longrightarrow> case f s of Ok s' \<Rightarrow> Q () s' | Err e \<Rightarrow> E e s | Panic p \<Rightarrow> False"
  shows "hoare P (act_try f) Q E"
  using assms by (fastforce simp: hoare_def act_try_def split: outcome.splits)

lemma hoare_if [hoare_intro]:
  assumes "b \<Longrightarrow> hoare P m Q E" and "\<not> b \<Longrightarrow> hoare P n Q E"
  shows "hoare P (if b then m else n) Q E"
  using assms by simp

lemma hoare_conseq:
  assumes "hoare P' m Q' E'" and "\<And>s. P s \<Longrightarrow> P' s"
    and "\<And>a s. Q' a s \<Longrightarrow> Q a s" and "\<And>e s. E' e s \<Longrightarrow> E e s"
  shows "hoare P m Q E"
  using assms unfolding hoare_def by (fastforce split: prod.splits outcome.splits)

lemma hoare_zoom:
  assumes "hoare P' m Q' E'"
    and "\<And>s. P s \<Longrightarrow> P' (gt s)"
    and "\<And>s a t. P s \<Longrightarrow> Q' a t \<Longrightarrow> Q a (pt t s)"
    and "\<And>s e t. P s \<Longrightarrow> E' e t \<Longrightarrow> E e (pt t s)"
  shows "hoare P (zoom gt pt m) Q E"
  using assms unfolding hoare_def zoom_def by (fastforce split: prod.splits outcome.splits)

lemma hoare_map_err:
  assumes "hoare P m Q (\<lambda>e. E (g e))"
  shows "hoare P (act_map_err g m) Q E"
  using assms unfolding hoare_def act_map_err_def
  by (fastforce split: prod.splits outcome.splits)

end
