(* ===== verification/Rust_Std.thy ===== *)
theory Rust_Std
  imports Sim_Prelude
begin

text \<open>
  The parts of the Rust standard library the simulator leans on: fixed-length arrays and
  vectors with panicking index operations and slices, arithmetic and shifts with the overflow
  checks of a debug build, and the little-endian byte order of \<^verbatim>\<open>u32\<close>.
\<close>

section \<open>Fixed-length vectors\<close>

text \<open>
  A \<^verbatim>\<open>Vec\<close> or array whose length never changes after construction. Only indices below
  the length are ever read; an access out of range panics.
\<close>

datatype 'a vec = Vec (vec_len: nat) (vec_elt: "nat \<Rightarrow> 'a")

definition vec_replicate :: "nat \<Rightarrow> 'a \<Rightarrow> 'a vec" where
  "vec_replicate n x = Vec n (\<lambda>_. x)"

definition vec_get :: "'a vec \<Rightarrow> nat \<Rightarrow> ('e, 'a) outcome" where
  "vec_get v i = (if i < vec_len v then Ok (vec_elt v i) else Panic IndexOutOfBounds)"

definition vec_set :: "'a vec \<Rightarrow> nat \<Rightarrow> 'a \<Rightarrow> ('e, 'a vec) outcome" where
  "vec_set v i x =
     (if i < vec_len v then Ok (Vec (vec_len v) ((vec_elt v)(i := x))) else Panic IndexOutOfBounds)"

text \<open>\<open>v[a .. a + n]\<close> as a slice, and \<^verbatim>\<open>copy_from_slice\<close> into such a slice.\<close>

definition vec_slice :: "'a vec \<Rightarrow> nat \<Rightarrow> nat \<Rightarrow> ('e, 'a list) outcome" where
  "vec_slice v a n =
     (if a + n \<le> vec_len v then Ok (map (vec_elt v) [a..<a + n]) else Panic IndexOutOfBounds)"

definition vec_write :: "'a vec \<Rightarrow> nat \<Rightarrow> 'a list \<Rightarrow> ('e, 'a vec) outcome" where
  "vec_write v a xs =
     (if a + length xs \<le> vec_len v
      then Ok (Vec (vec_len v) (\<lambda>i. if a \<le> i \<and> i < a + length xs then xs ! (i - a) else vec_elt v i))
      else Panic IndexOutOfBounds)"

definition vec_incr :: "nat vec \<Rightarrow> nat \<Rightarrow> ('e, nat vec) outcome" where
  "vec_incr v i = bind_out (vec_get v i) (\<lambda>n. vec_set v i (n + 1))"

definition vec_to_list :: "'a vec \<Rightarrow> 'a list" where
  "vec_to_list v = map (vec_elt v) [0..<vec_len v]"

definition vec_total :: "nat vec \<Rightarrow> nat" where
  "vec_total v = (\<Sum>i<vec_len v. vec_elt v i)"

lemma vec_replicate_simps [simp]:
  "vec_len (vec_replicate n x) = n" "vec_elt (vec_replicate n x) i = x"
  by (simp_all add: vec_replicate_def)

lemma vec_get_Ok [simp]: "i < vec_len v \<Longrightarrow> vec_get v i = Ok (vec_elt v i)"
  by (simp add: vec_get_def)

lemma vec_set_Ok [simp]:
  "i < vec_len v \<Longrightarrow> vec_set v i x = Ok (Vec (vec_len v) ((vec_elt v)(i := x)))"
  by (simp add: vec_set_def)

lemma vec_get_OkD: "vec_get v i = Ok x \<Longrightarrow> i < vec_len v \<and> x = vec_elt v i"
  by (simp add: vec_get_def split: if_splits)

lemma vec_set_OkD:
  "vec_set v i x = Ok v' \<Longrightarrow> i < vec_len v \<and> v' = Vec (vec_len v) ((vec_elt v)(i := x))"
  by (simp add: vec_set_def split: if_splits)

lemma vec_slice_Ok [simp]:
  "a + n \<le> vec_len v \<Longrightarrow> vec_slice v a n = Ok (map (vec_elt v) [a..<a + n])"
  by (simp add: vec_slice_def)

lemma vec_incr_Ok [simp]:
  "i < vec_len v \<Longrightarrow> vec_incr v i = Ok (Vec (vec_len v) ((vec_elt v)(i := vec_elt v i + 1)))"
  by (simp add: vec_incr_def)

lemma vec_get_no_Err [simp]: "vec_get v i \<noteq> Err e"
  by (simp add: vec_get_def)

lemma vec_set_no_Err [simp]: "vec_set v i x \<noteq> Err e"
  by (simp add: vec_set_def)

lemma vec_incr_no_Err [simp]: "vec_incr v i \<noteq> Err e"
  by (simp add: vec_incr_def vec_get_def)

lemma vec_total_incr:
  assumes "vec_incr v i = Ok v'"
  shows "vec_total v' = vec_total v + 1"
proof -
  from assms have i: "i < vec_len v"
    and v': "v' = Vec (vec_len v) ((vec_elt v)(i := vec_elt v i + 1))"
    by (auto simp: vec_incr_def bind_out_Ok_iff dest: vec_get_OkD vec_set_OkD)
  have "(\<Sum>j<vec_len v. ((vec_elt v)(i := vec_elt v i + 1)) j)
      = (\<Sum>j<vec_len v. vec_elt v j + (if j = i then 1 else 0))"
    by (rule sum.cong) auto
  also have "\<dots> = vec_total v + 1"
    using i by (simp add: sum.distrib vec_total_def)
  finally show ?thesis by (simp add: vec_total_def v')
qed

section \<open>The contract of an indexed store\<close>

text \<open>
  What the components rely on when they keep words in an array: reads see the last write to
  the index, other indices and the length are untouched, an index out of range never succeeds.
  The block lemmas below it are the ones the byte-addressed memory uses.
\<close>

locale indexed_store =
  fixes len :: "'v \<Rightarrow> nat"
    and elt :: "'v \<Rightarrow> nat \<Rightarrow> 'a"
    and put :: "'v \<Rightarrow> nat \<Rightarrow> 'a list \<Rightarrow> (unit, 'v) outcome"
    and get_block :: "'v \<Rightarrow> nat \<Rightarrow> nat \<Rightarrow> (unit, 'a list) outcome"
  assumes put_ok: "a + length xs \<le> len v \<Longrightarrow> \<exists>v'. put v a xs = Ok v'"
    and put_panic: "len v < a + length xs \<Longrightarrow> is_panic (put v a xs)"
    and put_len: "put v a xs = Ok v' \<Longrightarrow> len v' = len v"
    and put_elt: "put v a xs = Ok v' \<Longrightarrow>
      elt v' i = (if a \<le> i \<and> i < a + length xs then xs ! (i - a) else elt v i)"
    and block: "a + n \<le> len v \<Longrightarrow> get_block v a n = Ok (map (elt v) [a..<a + n])"
begin

lemma block_after_put:
  assumes "put v a xs = Ok v'"
  shows "get_block v' a (length xs) = Ok xs"
proof -
  have le: "a + length xs \<le> len v"
    using put_panic [of v a xs] assms by (cases "a + length xs \<le> len v") auto
  then have "a + length xs \<le> len v'" by (simp add: put_len [OF assms])
  moreover have "map (elt v') [a..<a + length xs] = xs"
    by (rule nth_equalityI) (auto simp: put_elt [OF assms])
  ultimately show ?thesis by (simp add: block)
qed

lemma block_after_put_other:
  assumes "put v a xs = Ok v'" and "b + n \<le> len v"
    and "b + n \<le> a \<or> a + length xs \<le> b"
  shows "get_block v' b n = get_block v b n"
proof -
  have "map (elt v') [b..<b + n] = map (elt v) [b..<b + n]"
    using assms(3) by (auto simp: put_elt [OF assms(1)])
  then show ?thesis
    using assms(2) by (simp add: block put_len [OF assms(1)])
qed

end

interpretation vec_store: indexed_store vec_len vec_elt vec_write vec_slice
  by unfold_locales (auto simp: vec_write_def vec_slice_def split: if_splits)

section \<open>Checked arithmetic\<close>

text \<open>
  \<open>+\<close> and \<open>-\<close> on \<^verbatim>\<open>u32\<close> panic on overflow in a debug build and wrap otherwise; a shift
  panics when the amount is not below the width in a debug build and uses the amount modulo the
  width otherwise.
\<close>

definition add_u32 :: "build \<Rightarrow> u32 \<Rightarrow> u32 \<Rightarrow> ('e, u32) outcome" where
  "add_u32 b x y =
     (if debug_assertions b \<and> unat x + unat y \<ge> 2 ^ 32 then Panic ArithmeticOverflow else Ok (x + y))"

definition sub_u32 :: "build \<Rightarrow> u32 \<Rightarrow> u32 \<Rightarrow> ('e, u32) outcome" where
  "sub_u32 b x y = (if debug_assertions b \<and> x < y then Panic ArithmeticOverflow else Ok (x - y))"

definition shl_u32 :: "build \<Rightarrow> u32 \<Rightarrow> u32 \<Rightarrow> ('e, u32) outcome" where
  "shl_u32 b x k =
     (if debug_assertions b \<and> k \<ge> 32 then Panic ArithmeticOverflow
      else Ok (push_bit (unat k mod 32) x))"

definition shr_u32 :: "build \<Rightarrow> u32 \<Rightarrow> u32 \<Rightarrow> ('e, u32) outcome" where
  "shr_u32 b x k =
     (if debug_assertions b \<and> k \<ge> 32 then Panic ArithmeticOverflow
      else Ok (drop_bit (unat k mod 32) x))"

definition shl_usize :: "usize \<Rightarrow> nat \<Rightarrow> usize" where
  "shl_usize a k = (a * 2 ^ k) mod 2 ^ 64"

lemma shl_usize_u32 [simp]: "shl_usize (unat (w :: u32)) 2 = 4 * unat w"
proof -
  have "unat w < 2 ^ 32" using unsigned_less [of w] by simp
  then show ?thesis by (simp add: shl_usize_def)
qed

section \<open>Little-endian bytes\<close>

definition u32_from_le_bytes :: "u8 list \<Rightarrow> u32" where
  "u32_from_le_bytes bs =
     ucast (bs ! 0) OR push_bit 8 (ucast (bs ! 1)) OR push_bit 16 (ucast (bs ! 2))
       OR push_bit 24 (ucast (bs ! 3))"

definition u32_to_le_bytes :: "u32 \<Rightarrow> u8 list" where
  "u32_to_le_bytes w =
     [ucast w, ucast (drop_bit 8 w), ucast (drop_bit 16 w), ucast (drop_bit 24 w)]"

lemma length_u32_to_le_bytes [simp]: "length (u32_to_le_bytes w) = 4"
  by (simp add: u32_to_le_bytes_def)

lemma u32_le_bytes_roundtrip [simp]: "u32_from_le_bytes (u32_to_le_bytes w) = w"
proof (rule bit_word_eqI)
  fix n assume "n < LENGTH(32)"
  then show "bit (u32_from_le_bytes (u32_to_le_bytes w)) n = bit w n"
    by (cases "n < 8"; cases "n < 16"; cases "n < 24")
      (auto simp: u32_from_le_bytes_def u32_to_le_bytes_def bit_simps)
qed

lemma list_of_4:
  assumes "length bs = 4"
  shows "bs = [bs ! 0, bs ! 1, bs ! 2, bs ! 3]"
  using assms by (auto simp: eval_nat_numeral length_Suc_conv)

lemma u32_le_bytes_roundtrip2:
  assumes "length bs = 4"
  shows "u32_to_le_bytes (u32_from_le_bytes bs) = bs"
proof -
  have "ucast (u32_from_le_bytes bs) = bs ! 0"
    by (rule bit_word_eqI) (auto simp: u32_from_le_bytes_def bit_simps)
  moreover have "ucast (drop_bit 8 (u32_from_le_bytes bs)) = bs ! 1"
    by (rule bit_word_eqI) (auto simp: u32_from_le_bytes_def bit_simps dest: bit_imp_le_length)
  moreover have "ucast (drop_bit 16 (u32_from_le_bytes bs)) = bs ! 2"
    by (rule bit_word_eqI) (auto simp: u32_from_le_bytes_def bit_simps dest: bit_imp_le_length)
  moreover have "ucast (drop_bit 24 (u32_from_le_bytes bs)) = bs ! 3"
    by (rule bit_word_eqI) (auto simp: u32_from_le_bytes_def bit_simps dest: bit_imp_le_length)
  ultimately show ?thesis
    using list_of_4 [OF assms] by (simp add: u32_to_le_bytes_def)
qed

section \<open>Decimal and hexadecimal display\<close>

fun show_nat :: "nat \<Rightarrow> string" where
  "show_nat n = (if n < 10 then [char_of (48 + n)] else show_nat (n div 10) @ [char_of (48 + n mod 10)])"

declare show_nat.simps [simp del]

definition show_int :: "int \<Rightarrow> string" where
  "show_int k = (if k < 0 then CHR ''-'' # show_nat (nat (- k)) else show_nat (nat k))"

definition show_u32 :: "u32 \<Rightarrow> string" where
  "show_u32 w = show_nat (unat w)"

text \<open>\<^verbatim>\<open>{}\<close> of \<^verbatim>\<open>w as i32\<close>.\<close>

definition show_i32 :: "u32 \<Rightarrow> string" where
  "show_i32 w = show_int (sint w)"

definition hex_digit :: "nat \<Rightarrow> char" where
  "hex_digit d = (if d < 10 then char_of (48 + d) else char_of (87 + d))"

fun show_hex :: "nat \<Rightarrow> string" where
  "show_hex n = (if n < 16 then [hex_digit n] else show_hex (n div 16) @ [hex_digit (n mod 16)])"

declare show_hex.simps [simp del]

text \<open>\<^verbatim>\<open>{:#010x}\<close>: at least ten characters, zeros between the prefix and the digits.\<close>

definition show_hex_010 :: "nat \<Rightarrow> string" where
  "show_hex_010 n = ''0x'' @ replicate (8 - length (show_hex n)) (CHR ''0'') @ show_hex n"

text \<open>Alignment to the right in a field, \<^verbatim>\<open>{:>n}\<close>, and to the left, \<^verbatim>\<open>{:n}\<close>.\<close>

definition pad_left :: "nat \<Rightarrow> string \<Rightarrow> string" where
  "pad_left n s = replicate (n - length s) (CHR '' '') @ s"

definition nl :: string where "nl = [CHR 0x0A]"

definition join :: "string \<Rightarrow> string list \<Rightarrow> string" where
  "join sep xs = concat (if xs = [] then [] else hd xs # map (\<lambda>x. sep @ x) (tl xs))"

text \<open>Reading decimal digits back, as \<^verbatim>\<open>str::parse\<close> does.\<close>

definition is_digit :: "char \<Rightarrow> bool" where
  "is_digit c \<longleftrightarrow> 48 \<le> (of_char c :: nat) \<and> (of_char c :: nat) \<le> 57"

definition digits_value :: "string \<Rightarrow> nat" where
  "digits_value ds = foldl (\<lambda>n c. 10 * n + (of_char c - 48)) 0 ds"

lemma digits_value_snoc: "digits_value (ds @ [c]) = 10 * digits_value ds + (of_char c - 48)"
  by (simp add: digits_value_def)

lemma digits_value_show_nat [simp]: "digits_value (show_nat n) = n"
proof (induction n rule: show_nat.induct)
  case (1 n)
  show ?case
  proof (cases "n < 10")
    case True
    then show ?thesis
      by (simp add: show_nat.simps [of n] digits_value_def of_char_of take_bit_eq_mod)
  next
    case False
    then show ?thesis
      by (simp add: show_nat.simps [of n] digits_value_snoc "1.IH" of_char_of take_bit_eq_mod)
  qed
qed

lemma is_digit_show_nat: "c \<in> set (show_nat n) \<Longrightarrow> is_digit c"
proof (induction n rule: show_nat.induct)
  case (1 n)
  then show ?case
    by (cases "n < 10")
      (auto simp: show_nat.simps [of n] is_digit_def of_char_of take_bit_eq_mod)
qed

lemma show_nat_not_Nil [simp]: "show_nat n \<noteq> []"
  by (subst show_nat.simps) simp

lemma show_nat_inj: "show_nat m = show_nat n \<longleftrightarrow> m = n"
  by (metis digits_value_show_nat)

lemma show_int_inj: "show_int j = show_int k \<longleftrightarrow> j = k"
proof
  have minus: "CHR ''-'' \<notin> set (show_nat n)" for n
    using is_digit_show_nat [of "CHR ''-''" n] by (auto simp: is_digit_def)
  assume eq: "show_int j = show_int k"
  show "j = k"
    using eq minus [of "nat j"] minus [of "nat k"]
    by (auto simp: show_int_def show_nat_inj split: if_splits) (metis list.set_intros(1))+
qed simp

end
