(* ===== verification/Peg.thy ===== *)
theory Peg
  imports Rust_Std
begin

text \<open>
  Parsing expression grammars as the \<^verbatim>\<open>peg\<close> macro of \<^verbatim>\<open>cli/src/interactive.rs\<close> writes
  them: ordered choice without backtracking into a choice already made, greedy repetition of a
  character class, optional parts, negative lookahead, and actions that may refuse (\<^verbatim>\<open>{? }\<close>)
  or panic.
\<close>

datatype 'a peg = Matched 'a string | NoMatch | PegPanic panic

type_synonym 'a rule = "string \<Rightarrow> 'a peg"

definition peg_ret :: "'a \<Rightarrow> 'a rule" where
  "peg_ret a s = Matched a s"

definition peg_bind :: "'a rule \<Rightarrow> ('a \<Rightarrow> 'b rule) \<Rightarrow> 'b rule" where
  "peg_bind p f s =
     (case p s of Matched a rest \<Rightarrow> f a rest | NoMatch \<Rightarrow> NoMatch | PegPanic x \<Rightarrow> PegPanic x)"

definition peg_seq :: "'a rule \<Rightarrow> 'b rule \<Rightarrow> 'b rule" where
  "peg_seq p q = peg_bind p (\<lambda>_. q)"

definition peg_or :: "'a rule \<Rightarrow> 'a rule \<Rightarrow> 'a rule" where
  "peg_or p q s = (case p s of Matched a rest \<Rightarrow> Matched a rest | NoMatch \<Rightarrow> q s | PegPanic x \<Rightarrow> PegPanic x)"

definition peg_opt :: "'a rule \<Rightarrow> 'a option rule" where
  "peg_opt p s =
     (case p s of Matched a rest \<Rightarrow> Matched (Some a) rest | NoMatch \<Rightarrow> Matched None s | PegPanic x \<Rightarrow> PegPanic x)"

definition peg_not :: "'a rule \<Rightarrow> unit rule" where
  "peg_not p s = (case p s of Matched a rest \<Rightarrow> NoMatch | NoMatch \<Rightarrow> Matched () s | PegPanic x \<Rightarrow> PegPanic x)"

definition lit :: "string \<Rightarrow> unit rule" where
  "lit w s = (if take (length w) s = w then Matched () (drop (length w) s) else NoMatch)"

definition char_class :: "(char \<Rightarrow> bool) \<Rightarrow> char rule" where
  "char_class P s = (case s of [] \<Rightarrow> NoMatch | c # rest \<Rightarrow> if P c then Matched c rest else NoMatch)"

definition many :: "(char \<Rightarrow> bool) \<Rightarrow> string rule" where
  "many P s = Matched (takeWhile P s) (dropWhile P s)"

definition many1 :: "(char \<Rightarrow> bool) \<Rightarrow> string rule" where
  "many1 P s = (if takeWhile P s = [] then NoMatch else Matched (takeWhile P s) (dropWhile P s))"

text \<open>\<^verbatim>\<open>{? }\<close> with the result of a conversion.\<close>

definition peg_check :: "('e, 'a) outcome \<Rightarrow> 'a rule" where
  "peg_check r s = (case r of Ok a \<Rightarrow> Matched a s | Err e \<Rightarrow> NoMatch | Panic x \<Rightarrow> PegPanic x)"

text \<open>\<^verbatim>\<open>str::parse\<close> and \<^verbatim>\<open>from_str_radix\<close> of digits, unwrapped: too large a number panics.\<close>

definition digit_value :: "char \<Rightarrow> nat" where
  "digit_value c =
     (let n = of_char c :: nat in
      if n \<le> 57 then n - 48 else if n \<le> 70 then n - 55 else n - 87)"

definition radix_value :: "nat \<Rightarrow> string \<Rightarrow> nat" where
  "radix_value r ds = foldl (\<lambda>n c. r * n + digit_value c) 0 ds"

definition number :: "nat \<Rightarrow> nat \<Rightarrow> string \<Rightarrow> nat rule" where
  "number r bound ds s = (if radix_value r ds < bound then Matched (radix_value r ds) s else PegPanic UnwrapFailed)"

definition is_hex_digit :: "char \<Rightarrow> bool" where
  "is_hex_digit c \<longleftrightarrow>
     (let n = of_char c :: nat in 48 \<le> n \<and> n \<le> 57 \<or> 97 \<le> n \<and> n \<le> 102 \<or> 65 \<le> n \<and> n \<le> 70)"

definition is_octal_digit :: "char \<Rightarrow> bool" where
  "is_octal_digit c \<longleftrightarrow> (let n = of_char c :: nat in 48 \<le> n \<and> n \<le> 55)"

definition is_ascii_alphabetic :: "char \<Rightarrow> bool" where
  "is_ascii_alphabetic c \<longleftrightarrow>
     (let n = of_char c :: nat in 65 \<le> n \<and> n \<le> 90 \<or> 97 \<le> n \<and> n \<le> 122)"

lemmas peg_defs =
  peg_ret_def peg_bind_def peg_seq_def peg_or_def peg_opt_def peg_not_def lit_def char_class_def
  many_def many1_def peg_check_def number_def

end
