(* ===== verification/Float32.thy ===== *)
theory Float32
  imports Rust_Std
begin

text \<open>
  Rust's \<^verbatim>\<open>f32\<close>: IEEE 754 binary32, kept as its bit pattern. Every finite value is an
  integer multiple of \<open>2\<close> to the power \<open>-149\<close>, so the arithmetic is exact integer arithmetic
  followed by one rounding to nearest, ties to even. Rust leaves the payload of a computed NaN
  open; the model returns the quiet NaN.
\<close>

section \<open>Representation\<close>

datatype f32 = Bits (to_bits: u32)

definition f32_sign :: "f32 \<Rightarrow> bool" where
  "f32_sign x = bit (to_bits x) 31"

definition f32_exponent :: "f32 \<Rightarrow> nat" where
  "f32_exponent x = unat (take_bit 8 (drop_bit 23 (to_bits x)))"

definition f32_mantissa :: "f32 \<Rightarrow> nat" where
  "f32_mantissa x = unat (take_bit 23 (to_bits x))"

definition f32_is_nan :: "f32 \<Rightarrow> bool" where
  "f32_is_nan x \<longleftrightarrow> f32_exponent x = 255 \<and> f32_mantissa x \<noteq> 0"

definition f32_is_inf :: "f32 \<Rightarrow> bool" where
  "f32_is_inf x \<longleftrightarrow> f32_exponent x = 255 \<and> f32_mantissa x = 0"

definition f32_nan :: f32 where "f32_nan = Bits 0x7FC00000"

definition f32_zero :: f32 where "f32_zero = Bits 0"
definition f32_half :: f32 where "f32_half = Bits 0x3F000000"
definition f32_one :: f32 where "f32_one = Bits 0x3F800000"

text \<open>
  The magnitude in units of \<open>2\<close> to the power \<open>-149\<close>. For an infinity it is the first value
  above every finite one, which is what the comparisons need.
\<close>

definition f32_mag :: "f32 \<Rightarrow> nat" where
  "f32_mag x =
     (if f32_exponent x = 0 then f32_mantissa x
      else (f32_mantissa x + 2 ^ 23) * 2 ^ (f32_exponent x - 1))"

definition f32_int :: "f32 \<Rightarrow> int" where
  "f32_int x = (if f32_sign x then - int (f32_mag x) else int (f32_mag x))"

section \<open>Rounding\<close>

text \<open>
  \<open>round_bits d n\<close> is the bit pattern (without sign) nearest to \<open>n\<close> units of \<open>2\<close> to the power
  \<open>-149 - d\<close>. The pattern of \<open>q\<close> units of \<open>2\<close> to the power \<open>k - 149\<close> is \<open>k * 2 ^ 23 + q\<close> both for
  subnormal values (\<open>k = 0\<close>) and for normal ones, and a carry out of the mantissa moves on to the
  next exponent by itself.
\<close>

fun bit_length :: "nat \<Rightarrow> nat" where
  "bit_length n = (if n = 0 then 0 else 1 + bit_length (n div 2))"

declare bit_length.simps [simp del]

definition round_half_even :: "nat \<Rightarrow> nat \<Rightarrow> nat" where
  "round_half_even n k =
     (let q = n div 2 ^ k; r = n mod 2 ^ k
      in if 2 * r > 2 ^ k \<or> (2 * r = 2 ^ k \<and> odd q) then q + 1 else q)"

definition round_bits :: "nat \<Rightarrow> nat \<Rightarrow> nat" where
  "round_bits d n =
     (let k = max d (bit_length n - 24)
      in min ((k - d) * 2 ^ 23 + round_half_even n k) (255 * 2 ^ 23))"

definition f32_make :: "bool \<Rightarrow> nat \<Rightarrow> f32" where
  "f32_make s m = Bits (word_of_nat (m + (if s then 2 ^ 31 else 0)))"

section \<open>Operations\<close>

definition f32_neg :: "f32 \<Rightarrow> f32" where
  "f32_neg x = Bits (to_bits x XOR push_bit 31 1)"

definition f32_add :: "f32 \<Rightarrow> f32 \<Rightarrow> f32" where
  "f32_add x y =
     (if f32_is_nan x \<or> f32_is_nan y then f32_nan
      else if f32_is_inf x then (if f32_is_inf y \<and> f32_sign x \<noteq> f32_sign y then f32_nan else x)
      else if f32_is_inf y then y
      else let s = f32_int x + f32_int y
           in if s = 0 then f32_make (f32_sign x \<and> f32_sign y) 0
              else f32_make (s < 0) (round_bits 0 (nat \<bar>s\<bar>)))"

definition f32_sub :: "f32 \<Rightarrow> f32 \<Rightarrow> f32" where
  "f32_sub x y = f32_add x (f32_neg y)"

definition f32_mul :: "f32 \<Rightarrow> f32 \<Rightarrow> f32" where
  "f32_mul x y =
     (let s = (f32_sign x \<noteq> f32_sign y)
      in if f32_is_nan x \<or> f32_is_nan y then f32_nan
         else if f32_is_inf x \<or> f32_is_inf y
           then (if f32_mag x = 0 \<or> f32_mag y = 0 then f32_nan else f32_make s (255 * 2 ^ 23))
         else f32_make s (round_bits 149 (f32_mag x * f32_mag y)))"

definition f32_eq :: "f32 \<Rightarrow> f32 \<Rightarrow> bool" where
  "f32_eq x y \<longleftrightarrow> \<not> f32_is_nan x \<and> \<not> f32_is_nan y \<and> f32_int x = f32_int y"

definition f32_lt :: "f32 \<Rightarrow> f32 \<Rightarrow> bool" where
  "f32_lt x y \<longleftrightarrow> \<not> f32_is_nan x \<and> \<not> f32_is_nan y \<and> f32_int x < f32_int y"

definition f32_ge :: "f32 \<Rightarrow> f32 \<Rightarrow> bool" where
  "f32_ge x y \<longleftrightarrow> \<not> f32_is_nan x \<and> \<not> f32_is_nan y \<and> f32_int x \<ge> f32_int y"

definition f32_copysign :: "f32 \<Rightarrow> f32 \<Rightarrow> f32" where
  "f32_copysign x y = Bits (take_bit 31 (to_bits x) OR push_bit 31 (of_bool (f32_sign y)))"

definition f32_signum :: "f32 \<Rightarrow> f32" where
  "f32_signum x = (if f32_is_nan x then f32_nan else f32_copysign f32_one x)"

section \<open>Laws\<close>

lemma f32_sign_copysign [simp]: "f32_sign (f32_copysign x y) = f32_sign y"
  by (simp add: f32_sign_def f32_copysign_def bit_simps)

lemma f32_copysign_self [simp]: "f32_copysign x x = x"
proof -
  have "take_bit 31 (to_bits x) OR push_bit 31 (of_bool (bit (to_bits x) 31)) = to_bits x"
  proof (rule bit_word_eqI)
    fix n assume "n < LENGTH(32)"
    then have "n < 31 \<or> n = 31" by auto
    then show "bit (take_bit 31 (to_bits x) OR push_bit 31 (of_bool (bit (to_bits x) 31))) n
        = bit (to_bits x) n"
      by (auto simp: bit_simps)
  qed
  then show ?thesis by (simp add: f32_copysign_def f32_sign_def)
qed

lemma f32_neg_neg [simp]: "f32_neg (f32_neg x) = x"
  by (simp add: f32_neg_def xor.assoc)

lemma f32_sign_neg [simp]: "f32_sign (f32_neg x) = (\<not> f32_sign x)"
  by (simp add: f32_sign_def f32_neg_def bit_simps)

lemma f32_fields_neg [simp]:
  "f32_exponent (f32_neg x) = f32_exponent x"
  "f32_mantissa (f32_neg x) = f32_mantissa x"
proof -
  have "take_bit 8 (drop_bit 23 (to_bits x XOR push_bit 31 1)) = take_bit 8 (drop_bit 23 (to_bits x))"
    by (rule bit_word_eqI) (auto simp: bit_simps)
  then show "f32_exponent (f32_neg x) = f32_exponent x"
    by (simp add: f32_exponent_def f32_neg_def)
  have "take_bit 23 (to_bits x XOR push_bit 31 1) = take_bit 23 (to_bits x)"
    by (rule bit_word_eqI) (auto simp: bit_simps)
  then show "f32_mantissa (f32_neg x) = f32_mantissa x"
    by (simp add: f32_mantissa_def f32_neg_def)
qed

lemma f32_class_neg [simp]:
  "f32_is_nan (f32_neg x) = f32_is_nan x" "f32_is_inf (f32_neg x) = f32_is_inf x"
  "f32_mag (f32_neg x) = f32_mag x"
  by (simp_all add: f32_is_nan_def f32_is_inf_def f32_mag_def)

lemma f32_int_neg [simp]: "f32_int (f32_neg x) = - f32_int x"
  by (simp add: f32_int_def)

lemma f32_fields_copysign [simp]:
  "f32_exponent (f32_copysign x y) = f32_exponent x"
  "f32_mantissa (f32_copysign x y) = f32_mantissa x"
proof -
  have "take_bit 8 (drop_bit 23 (take_bit 31 (to_bits x) OR push_bit 31 (of_bool (f32_sign y))))
      = take_bit 8 (drop_bit 23 (to_bits x))"
    by (rule bit_word_eqI) (auto simp: bit_simps)
  then show "f32_exponent (f32_copysign x y) = f32_exponent x"
    by (simp add: f32_exponent_def f32_copysign_def)
  have "take_bit 23 (take_bit 31 (to_bits x) OR push_bit 31 (of_bool (f32_sign y)))
      = take_bit 23 (to_bits x)"
    by (rule bit_word_eqI) (auto simp: bit_simps)
  then show "f32_mantissa (f32_copysign x y) = f32_mantissa x"
    by (simp add: f32_mantissa_def f32_copysign_def)
qed

lemma f32_add_comm: "f32_add x y = f32_add y x"
  if "\<not> (f32_is_inf x \<and> f32_is_inf y)"
  using that by (auto simp: f32_add_def Let_def add.commute conj_commute)

lemma round_choice_bound:
  fixes n P q r :: nat
  assumes "n = q * P + r" "r < P" "x = (if 2 * r > P \<or> (2 * r = P \<and> b) then q + 1 else q)"
  shows "2 * \<bar>int x * int P - int n\<bar> \<le> int P"
  using assms by (auto simp: algebra_simps split: if_splits)

lemma round_half_even_bound:
  "2 * \<bar>int (round_half_even n k) * 2 ^ k - int n\<bar> \<le> 2 ^ k"
proof -
  have "n = n div 2 ^ k * 2 ^ k + n mod 2 ^ k" by (simp only: div_mult_mod_eq)
  moreover have "n mod 2 ^ k < 2 ^ k" by simp
  ultimately have "2 * \<bar>int (round_half_even n k) * int (2 ^ k) - int n\<bar> \<le> int (2 ^ k)"
    by (rule round_choice_bound) (simp add: round_half_even_def Let_def)
  then show ?thesis by simp
qed

end
