(* ===== verification/Ty.thy ===== *)
theory Ty
  imports Float32
begin

text \<open>
  \<^verbatim>\<open>core_sim/src/ty.rs\<close>: the runtime types of memory words and their precision order. The
  order of the source is a \<^verbatim>\<open>PartialOrd\<close> instance; here it becomes an instance of the
  library's class of partial orders, which discharges the laws Rust only asks for in prose.
\<close>

section \<open>Runtime types\<close>

datatype ty = I32 | Usize | I32OrUsize | F32 | Unknown

fun show_ty :: "ty \<Rightarrow> string" where
  "show_ty I32 = ''i32''"
| "show_ty Usize = ''usize''"
| "show_ty I32OrUsize = ''i32 | usize''"
| "show_ty F32 = ''f32''"
| "show_ty Unknown = ''?''"

datatype ordering = Less | Equal | Greater

definition partial_cmp :: "ty \<Rightarrow> ty \<Rightarrow> ordering option" where
  "partial_cmp self other =
     (if self = other then Some Equal
      else case (self, other) of
        (I32, I32OrUsize) \<Rightarrow> Some Greater
      | (Usize, I32OrUsize) \<Rightarrow> Some Greater
      | (I32OrUsize, I32) \<Rightarrow> Some Less
      | (I32OrUsize, Usize) \<Rightarrow> Some Less
      | (_, Unknown) \<Rightarrow> Some Greater
      | (Unknown, _) \<Rightarrow> Some Less
      | _ \<Rightarrow> None)"

instantiation ty :: order
begin

definition less_eq_ty :: "ty \<Rightarrow> ty \<Rightarrow> bool" where
  "a \<le> b \<longleftrightarrow> partial_cmp a b = Some Less \<or> partial_cmp a b = Some Equal"

definition less_ty :: "ty \<Rightarrow> ty \<Rightarrow> bool" where
  "a < b \<longleftrightarrow> partial_cmp a b = Some Less"

instance
proof
  fix x y z :: ty
  show "(x < y) = (x \<le> y \<and> \<not> y \<le> x)"
    by (cases x; cases y; simp add: less_eq_ty_def less_ty_def partial_cmp_def)
  show "x \<le> x"
    by (simp add: less_eq_ty_def partial_cmp_def)
  show "x \<le> y \<Longrightarrow> y \<le> z \<Longrightarrow> x \<le> z"
    by (cases x; cases y; cases z; simp add: less_eq_ty_def partial_cmp_def)
  show "x \<le> y \<Longrightarrow> y \<le> x \<Longrightarrow> x = y"
    by (cases x; cases y; simp add: less_eq_ty_def partial_cmp_def)
qed

end

section \<open>Typed words\<close>

record typed_u32 =
  ty_of :: ty
  raw_value :: u32

definition typed :: "u32 \<Rightarrow> ty \<Rightarrow> typed_u32" where
  "typed v t = \<lparr>ty_of = t, raw_value = v\<rparr>"

definition as_i :: "typed_u32 \<Rightarrow> int option" where
  "as_i t = (if ty_of t \<ge> I32OrUsize then Some (sint (raw_value t)) else None)"

definition as_i32 :: "typed_u32 \<Rightarrow> int option" where
  "as_i32 t = (if ty_of t = I32 then Some (sint (raw_value t)) else None)"

definition as_f32 :: "typed_u32 \<Rightarrow> f32 option" where
  "as_f32 t = (if ty_of t = F32 then Some (Bits (raw_value t)) else None)"

definition get_unchecked :: "typed_u32 \<Rightarrow> u32" where
  "get_unchecked t = raw_value t"

lemma typed_simps [simp]: "ty_of (typed v t) = t" "raw_value (typed v t) = v"
  by (simp_all add: typed_def)

lemma get_unchecked_typed [simp]: "get_unchecked (typed v t) = v"
  by (simp add: get_unchecked_def)

section \<open>Facts about the order\<close>

lemma Unknown_least [simp]: "Unknown \<le> (t :: ty)"
  by (cases t) (simp_all add: less_eq_ty_def partial_cmp_def)

lemma le_Unknown_iff [simp]: "t \<le> Unknown \<longleftrightarrow> t = (Unknown :: ty)"
  by (cases t) (simp_all add: less_eq_ty_def partial_cmp_def)

lemma I32OrUsize_le_iff: "I32OrUsize \<le> t \<longleftrightarrow> t \<in> {I32, Usize, I32OrUsize}"
  by (cases t) (simp_all add: less_eq_ty_def partial_cmp_def)

lemma F32_le_iff [simp]: "F32 \<le> t \<longleftrightarrow> t = F32"
  by (cases t) (simp_all add: less_eq_ty_def partial_cmp_def)

lemma less_I32OrUsize_iff [simp]: "t < I32OrUsize \<longleftrightarrow> t = Unknown"
  by (cases t) (simp_all add: less_ty_def partial_cmp_def)

lemma less_F32_iff [simp]: "t < F32 \<longleftrightarrow> t = Unknown"
  by (cases t) (simp_all add: less_ty_def partial_cmp_def)

lemma as_i_None_iff: "as_i t = None \<longleftrightarrow> ty_of t = F32 \<or> ty_of t = Unknown"
  by (cases "ty_of t") (simp_all add: as_i_def I32OrUsize_le_iff)

text \<open>
  The order the source documents as ``\<open>a < b\<close> if and only if \<open>b\<close> is more precise'' is a
  partial order with \<open>Unknown\<close> at the bottom, \<open>I32\<close> and \<open>Usize\<close> above their union, and \<open>F32\<close>
  unrelated to the integer types: \<^verbatim>\<open>partial_cmp\<close> is reflexive, antisymmetric (it
  answers \<open>Less\<close> one way exactly when it answers \<open>Greater\<close> the other way) and transitive, and it
  is undefined exactly on distinct types with no common refinement chain.
\<close>

theorem partial_cmp_lawful:
  "(partial_cmp a b = Some Equal \<longleftrightarrow> a = b)
   \<and> (partial_cmp a b = Some Less \<longleftrightarrow> partial_cmp b a = Some Greater)
   \<and> transp (\<lambda>s t. partial_cmp s t = Some Less)
   \<and> (partial_cmp a b = None \<longleftrightarrow>
        {a, b} \<in> {{I32, Usize}, {I32, F32}, {Usize, F32}, {I32OrUsize, F32}})"
proof (intro conjI)
  show "partial_cmp a b = Some Equal \<longleftrightarrow> a = b"
    by (cases a; cases b; simp add: partial_cmp_def)
  show "partial_cmp a b = Some Less \<longleftrightarrow> partial_cmp b a = Some Greater"
    by (cases a; cases b; simp add: partial_cmp_def)
  show "transp (\<lambda>s t. partial_cmp s t = Some Less)"
    by (rule transpI) (fold less_ty_def, simp)
  show "partial_cmp a b = None \<longleftrightarrow>
     {a, b} \<in> {{I32, Usize}, {I32, F32}, {Usize, F32}, {I32OrUsize, F32}}"
    by (cases a; cases b; simp add: partial_cmp_def doubleton_eq_iff)
qed

end
