(* ===== verification/Errors.thy ===== *)
theory Errors
  imports Ty
begin

text \<open>
  The error values of the simulator: \<^verbatim>\<open>MemoryAccessError\<close> of \<^verbatim>\<open>memory.rs\<close>, the errors
  that travel as \<^verbatim>\<open>anyhow::Error\<close> (one constructor per place that raises one, with the
  data its message prints), and \<^verbatim>\<open>RuntimeError\<close> of \<^verbatim>\<open>cpu.rs\<close>, which joins them.
\<close>

datatype memory_access_error =
    OutOfBounds nat
  | PcOutOfBounds nat
  | ViolateTransmutation ty ty

datatype anyhow_error =
    InvalidOpcode u32
  | RegisterRange nat u32
  | FRegisterRange nat u32
  | TypedRead ty ty nat
  | NoDebugSymbol
  | NoDebugInformation u32
  | SymbolNotAvailable
  | MemoryFailure memory_access_error
  | Message string

datatype runtime_error =
    MemoryAccessError memory_access_error
  | Anyhow anyhow_error

datatype runtime_error_level = Fatal

definition level :: "runtime_error \<Rightarrow> runtime_error_level" where
  "level e = Fatal"

definition is_fatal :: "runtime_error_level \<Rightarrow> bool" where
  "is_fatal l = (case l of Fatal \<Rightarrow> True)"

lemma is_fatal_level [simp]: "is_fatal (level e)"
  by (simp add: is_fatal_def level_def)

section \<open>Messages\<close>

fun show_memory_access_error :: "memory_access_error \<Rightarrow> string" where
  "show_memory_access_error (OutOfBounds a) = ''address '' @ show_nat a @ '' out of range for memory''"
| "show_memory_access_error (PcOutOfBounds a) = ''pc '' @ show_nat a @ '' out of range for instr memory''"
| "show_memory_access_error (ViolateTransmutation t u) =
     ''attempted to transmute '' @ show_ty t @ '' into '' @ show_ty u
       @ '', which is not allowed in the semantics of OCaml''"

text \<open>\<^verbatim>\<open>{:010}\<close> of a number.\<close>

definition show_dec_010 :: "nat \<Rightarrow> string" where
  "show_dec_010 n = replicate (10 - length (show_nat n)) (CHR ''0'') @ show_nat n"

fun show_anyhow_error :: "anyhow_error \<Rightarrow> string" where
  "show_anyhow_error (InvalidOpcode w) = ''invalid opcode found: `'' @ show_hex_010 (unat w) @ ''`''"
| "show_anyhow_error (RegisterRange n w) =
     ''register should be '' @ show_nat n @ ''-bit integer, found '' @ show_u32 w"
| "show_anyhow_error (FRegisterRange n w) =
     ''f register should be '' @ show_nat n @ ''-bit integer, found '' @ show_u32 w"
| "show_anyhow_error (TypedRead t u i) =
     ''attempted to read '' @ show_ty t @ '' data as '' @ show_ty u @ '': at index '' @ show_nat i"
| "show_anyhow_error NoDebugSymbol = ''debug symbol not provided.''"
| "show_anyhow_error (NoDebugInformation a) =
     ''address '' @ show_dec_010 (unat a) @ '' do not have any debug information''"
| "show_anyhow_error SymbolNotAvailable = ''not available''"
| "show_anyhow_error (MemoryFailure e) = show_memory_access_error e"
| "show_anyhow_error (Message m) = m"

fun show_runtime_error :: "runtime_error \<Rightarrow> string" where
  "show_runtime_error (MemoryAccessError e) = show_memory_access_error e"
| "show_runtime_error (Anyhow e) = show_anyhow_error e"

end
