(* ===== verification/Register.thy ===== *)
theory Register
  imports Errors
begin

text \<open>
  \<^verbatim>\<open>core_sim/src/register.rs\<close>: register identifiers, their ABI names and the conversions
  from numbers and names. An identifier wraps a \<^verbatim>\<open>u8\<close>, so it can be larger than the number
  of registers; the display and the register file index their tables with it and panic then.
\<close>

section \<open>Identifiers\<close>

datatype regid = RegId u8

datatype fregid = FRegId u8

fun reg_inner :: "regid \<Rightarrow> usize" where
  "reg_inner (RegId n) = unat n"

fun reg_ty :: "regid \<Rightarrow> ty" where
  "reg_ty (RegId n) = (if n = 1 then Usize else I32)"

fun reg_is_zero :: "regid \<Rightarrow> bool" where
  "reg_is_zero (RegId n) = (n = 0)"

fun freg_inner :: "fregid \<Rightarrow> usize" where
  "freg_inner (FRegId n) = unat n"

fun freg_is_zero :: "fregid \<Rightarrow> bool" where
  "freg_is_zero (FRegId n) = (n = 0)"

section \<open>Names\<close>

definition reg_bit_width :: "build \<Rightarrow> nat" where
  "reg_bit_width b = (if isa_2nd b then 6 else 5)"

definition max_reg_id :: "build \<Rightarrow> nat" where
  "max_reg_id b = 2 ^ reg_bit_width b"

definition abiname_table :: "build \<Rightarrow> string list" where
  "abiname_table b =
     (if \<not> isa_2nd b then
        [''zero'', ''ra'', ''sp'', ''gp'', ''hp'', ''t0'', ''t1'', ''t2'', ''s0'', ''s1'', ''a0'',
         ''a1'', ''a2'', ''a3'', ''a4'', ''a5'', ''a6'', ''a7'', ''s2'', ''s3'', ''s4'', ''s5'',
         ''s6'', ''s7'', ''s8'', ''s9'', ''s10'', ''s11'', ''t3'', ''t4'', ''t5'', ''t6'']
      else
        [''zero'', ''ra'', ''sp'', ''gp'', ''hp'', ''t0'', ''t1'', ''t2'', ''s0'', ''s1'', ''a0'',
         ''a1'', ''a2'', ''a3'', ''a4'', ''a5'', ''a6'', ''a7'', ''s2'', ''s3'', ''s4'', ''s5'',
         ''s6'', ''s7'', ''s8'', ''s9'', ''s10'', ''s11'', ''t3'', ''t4'', ''t5'', ''t6'', ''x32'',
         ''x33'', ''x34'', ''x35'', ''x36'', ''x37'', ''x38'', ''x39'', ''x40'', ''x41'', ''x42'',
         ''x43'', ''x44'', ''x45'', ''x46'', ''x47'', ''x48'', ''x49'', ''x50'', ''x51'', ''x52'',
         ''x53'', ''x54'', ''x55'', ''x56'', ''x57'', ''x58'', ''x59'', ''x60'', ''x61'', ''x62'',
         ''x63''])"

definition f_abiname_table :: "build \<Rightarrow> string list" where
  "f_abiname_table b =
     (if \<not> isa_2nd b then
        [''fzero'', ''fone'', ''ft2'', ''ft3'', ''ft4'', ''ft5'', ''ft6'', ''ft7'', ''fs0'',
         ''fs1'', ''fa0'', ''fa1'', ''fa2'', ''fa3'', ''fa4'', ''fa5'', ''fa6'', ''fa7'', ''fs2'',
         ''fs3'', ''fs4'', ''fs5'', ''fs6'', ''fs7'', ''fs8'', ''fs9'', ''fs10'', ''fs11'',
         ''ft8'', ''ft9'', ''ft10'', ''ft11'']
      else
        [''fzero'', ''fone'', ''ft2'', ''ft3'', ''ft4'', ''ft5'', ''ft6'', ''ft7'', ''fs0'',
         ''fs1'', ''fa0'', ''fa1'', ''fa2'', ''fa3'', ''fa4'', ''fa5'', ''fa6'', ''fa7'', ''fs2'',
         ''fs3'', ''fs4'', ''fs5'', ''fs6'', ''fs7'', ''fs8'', ''fs9'', ''fs10'', ''fs11'',
         ''ft8'', ''ft9'', ''ft10'', ''ft11'', ''f32'', ''f33'', ''f34'', ''f35'', ''f36'',
         ''f37'', ''f38'', ''f39'', ''f40'', ''f41'', ''f42'', ''f43'', ''f44'', ''f45'', ''f46'',
         ''f47'', ''f48'', ''f49'', ''f50'', ''f51'', ''f52'', ''f53'', ''f54'', ''f55'', ''f56'',
         ''f57'', ''f58'', ''f59'', ''f60'', ''f61'', ''f62'', ''f63''])"

text \<open>
  The lookup tables are hash maps collected from the enumerated name table: a later entry with
  the same name would replace an earlier one.
\<close>

definition collect_names :: "(u8 \<Rightarrow> 'r) \<Rightarrow> string list \<Rightarrow> string \<Rightarrow> 'r option" where
  "collect_names mk names =
     foldl (\<lambda>m p. m(snd p \<mapsto> mk (word_of_nat (fst p)))) Map.empty (enumerate 0 names)"

definition abiname_lookup :: "build \<Rightarrow> string \<Rightarrow> regid option" where
  "abiname_lookup b = collect_names RegId (abiname_table b)"

definition f_abiname_lookup :: "build \<Rightarrow> string \<Rightarrow> fregid option" where
  "f_abiname_lookup b = collect_names FRegId (f_abiname_table b)"

definition show_regid :: "build \<Rightarrow> regid \<Rightarrow> ('e, string) outcome" where
  "show_regid b r =
     (if reg_inner r < length (abiname_table b) then Ok (abiname_table b ! reg_inner r)
      else Panic IndexOutOfBounds)"

definition show_fregid :: "build \<Rightarrow> fregid \<Rightarrow> ('e, string) outcome" where
  "show_fregid b r =
     (if freg_inner r < length (f_abiname_table b) then Ok (f_abiname_table b ! freg_inner r)
      else Panic IndexOutOfBounds)"

section \<open>Conversions\<close>

definition regid_try_from :: "build \<Rightarrow> u32 \<Rightarrow> (anyhow_error, regid) outcome" where
  "regid_try_from b rs =
     (if debug_assertions b \<and> rs \<ge> push_bit (reg_bit_width b + 1) 1
      then Err (RegisterRange (reg_bit_width b) rs)
      else Ok (RegId (ucast rs)))"

definition fregid_try_from :: "build \<Rightarrow> u32 \<Rightarrow> (anyhow_error, fregid) outcome" where
  "fregid_try_from b rs =
     (if debug_assertions b \<and> rs \<ge> push_bit (reg_bit_width b + 1) 1
      then Err (FRegisterRange (reg_bit_width b) rs)
      else Ok (FRegId (ucast rs)))"

definition regid_try_from_str :: "build \<Rightarrow> string \<Rightarrow> (unit, regid) outcome" where
  "regid_try_from_str b rs = (case abiname_lookup b rs of Some r \<Rightarrow> Ok r | None \<Rightarrow> Err ())"

definition fregid_try_from_str :: "build \<Rightarrow> string \<Rightarrow> (unit, fregid) outcome" where
  "fregid_try_from_str b rs = (case f_abiname_lookup b rs of Some r \<Rightarrow> Ok r | None \<Rightarrow> Err ())"

section \<open>Lemmas\<close>

lemma max_reg_id_cases: "max_reg_id b = 32 \<or> max_reg_id b = 64"
  by (simp add: max_reg_id_def reg_bit_width_def)

lemma max_reg_id_ge: "32 \<le> max_reg_id b" and max_reg_id_le: "max_reg_id b \<le> 64"
  using max_reg_id_cases [of b] by auto

lemma length_abiname_table [simp]: "length (abiname_table b) = max_reg_id b"
  by (simp add: abiname_table_def max_reg_id_def reg_bit_width_def)

lemma length_f_abiname_table [simp]: "length (f_abiname_table b) = max_reg_id b"
  by (simp add: f_abiname_table_def max_reg_id_def reg_bit_width_def)

lemma distinct_abiname_table: "distinct (abiname_table b)"
  by (simp add: abiname_table_def)

lemma distinct_f_abiname_table: "distinct (f_abiname_table b)"
  by (simp add: f_abiname_table_def)

lemma unat_ucast_u8: "unat w < 256 \<Longrightarrow> unat (ucast (w :: u32) :: u8) = unat w"
  by (simp add: unsigned_ucast_eq take_bit_eq_mod)

lemma unat_word_of_nat_u8: "n < 256 \<Longrightarrow> unat (word_of_nat n :: u8) = n"
  by (simp add: unat_of_nat)

lemma foldl_upd_notin:
  assumes "\<forall>p \<in> set ps. snd p \<noteq> k"
  shows "foldl (\<lambda>m p. m(snd p \<mapsto> f p)) m0 ps k = m0 k"
  using assms by (induction ps arbitrary: m0) auto

lemma foldl_upd_nth:
  assumes "distinct (map snd ps)" "i < length ps"
  shows "foldl (\<lambda>m p. m(snd p \<mapsto> f p)) m0 ps (snd (ps ! i)) = Some (f (ps ! i))"
  using assms
proof (induction ps arbitrary: m0 i)
  case Nil
  then show ?case by simp
next
  case (Cons p ps)
  show ?case
  proof (cases i)
    case 0
    have "\<forall>q \<in> set ps. snd q \<noteq> snd p" using Cons.prems(1) by (metis distinct.simps(2) image_eqI list.set_map list.simps(9))
    then show ?thesis using 0 by (simp add: foldl_upd_notin del: fun_upd_apply) simp
  next
    case (Suc j)
    then show ?thesis using Cons by simp
  qed
qed

lemma collect_names_nth:
  assumes "distinct names" "i < length names"
  shows "collect_names mk names (names ! i) = Some (mk (word_of_nat i))"
proof -
  have "distinct (map snd (enumerate 0 names))" using assms(1) by simp
  from foldl_upd_nth [OF this, of i "\<lambda>p. mk (word_of_nat (fst p))"] assms(2)
  show ?thesis by (simp add: collect_names_def nth_enumerate_eq)
qed

text \<open>
  C24. Round trip of the debugger's register names: every register of the machine has an ABI
  name, and reading that name back gives the same register; this holds for both register
  classes and both instruction sets.
\<close>

theorem abiname_roundtrip:
  assumes "n < max_reg_id b"
  shows "bind_out (show_regid b (RegId (word_of_nat n))) (regid_try_from_str b)
           = Ok (RegId (word_of_nat n))
       \<and> bind_out (show_fregid b (FRegId (word_of_nat n))) (fregid_try_from_str b)
           = Ok (FRegId (word_of_nat n))"
proof -
  have n: "n < 256" using assms max_reg_id_le [of b] by simp
  have "abiname_lookup b (abiname_table b ! n) = Some (RegId (word_of_nat n))"
    unfolding abiname_lookup_def by (rule collect_names_nth) (simp_all add: distinct_abiname_table assms)
  moreover have "f_abiname_lookup b (f_abiname_table b ! n) = Some (FRegId (word_of_nat n))"
    unfolding f_abiname_lookup_def by (rule collect_names_nth) (simp_all add: distinct_f_abiname_table assms)
  ultimately show ?thesis
    using n assms
    by (simp add: show_regid_def show_fregid_def regid_try_from_str_def fregid_try_from_str_def
        unat_word_of_nat_u8)
qed

theorem abiname_roundtrip_witness:
  "(4 :: nat) < max_reg_id \<lparr>debug_assertions = True, isa_2nd = False\<rparr>
   \<and> show_regid \<lparr>debug_assertions = True, isa_2nd = False\<rparr> (RegId 4) = (Ok ''hp'' :: (unit, string) outcome)
   \<and> regid_try_from_str \<lparr>debug_assertions = True, isa_2nd = False\<rparr> ''hp'' = Ok (RegId 4)"
proof -
  let ?b = "\<lparr>debug_assertions = True, isa_2nd = False\<rparr>"
  have h: "(4 :: nat) < max_reg_id ?b" by (simp add: max_reg_id_def reg_bit_width_def)
  have s: "show_regid ?b (RegId 4) = (Ok ''hp'' :: (unit, string) outcome)"
    by (simp add: show_regid_def abiname_table_def)
  from abiname_roundtrip [OF h] s h show ?thesis by simp
qed

text \<open>
  The range check of \<^verbatim>\<open>TryFrom<u32>\<close> is one bit too wide: in a debug build of the first
  instruction set the numbers 32 to 63 pass as registers although the machine has 32 of them,
  and displaying such an identifier panics on the name table; a release build checks nothing.
\<close>

lemma regid_try_from_too_wide:
  assumes "\<not> isa_2nd b" "32 \<le> n" "n < 64"
  shows "regid_try_from b n = Ok (RegId (ucast n))
       \<and> show_regid b (RegId (ucast n)) = (Panic IndexOutOfBounds :: (unit, string) outcome)"
proof -
  have u: "32 \<le> unat n" "unat n < 64"
    using assms(2,3) by (simp_all add: word_le_nat_alt word_less_nat_alt)
  then have "unat (ucast n :: u8) = unat n" by (simp add: unat_ucast_u8)
  then show ?thesis
    using assms u
    by (simp add: regid_try_from_def show_regid_def reg_bit_width_def max_reg_id_def push_bit_eq_mult
        linorder_not_le)
qed

end
