(* ===== verification/Common.thy ===== *)
theory Common
  imports Register
begin

text \<open>
  \<^verbatim>\<open>core_sim/src/common.rs\<close> and the plain data of \<^verbatim>\<open>memory.rs\<close> and
  \<^verbatim>\<open>breakpoint.rs\<close> it refers to: program counters, addresses, run modes, watch points and
  what they report. Addresses are ordered as their numbers are.
\<close>

section \<open>Program counter and addresses\<close>

datatype pc = Pc (pc_inner: u32)

definition pc_incr :: "build \<Rightarrow> pc \<Rightarrow> ('e, pc) outcome" where
  "pc_incr b p = bind_out (add_u32 b (pc_inner p) 4) (\<lambda>v. Ok (Pc v))"

definition pc_into_usize :: "pc \<Rightarrow> usize" where
  "pc_into_usize p = unat (pc_inner p)"

datatype addr = Addr (addr_inner: usize)

definition pc_into_addr :: "pc \<Rightarrow> addr" where
  "pc_into_addr p = Addr (pc_into_usize p)"

definition addr_disp :: "addr \<Rightarrow> usize \<Rightarrow> addr" where
  "addr_disp a amount = Addr (addr_inner a + amount)"

definition show_pc :: "pc \<Rightarrow> string" where
  "show_pc p = show_hex_010 (unat (pc_inner p))"

definition show_addr :: "addr \<Rightarrow> string" where
  "show_addr a = show_hex_010 (addr_inner a)"

instantiation addr :: linorder
begin

definition less_eq_addr :: "addr \<Rightarrow> addr \<Rightarrow> bool" where
  "less_eq_addr a b \<longleftrightarrow> addr_inner a \<le> addr_inner b"

definition less_addr :: "addr \<Rightarrow> addr \<Rightarrow> bool" where
  "less_addr a b \<longleftrightarrow> addr_inner a < addr_inner b"

instance
  by standard (auto simp: less_eq_addr_def less_addr_def addr.expand)

end

lemma pc_into_addr_inj: "pc_into_addr p = pc_into_addr q \<longleftrightarrow> p = q"
  by (auto simp: pc_into_addr_def pc_into_usize_def pc.expand word_unat_eq_iff)

section \<open>Run modes\<close>

record run_step = step :: "usize option"

definition get_step :: "run_step \<Rightarrow> usize" where
  "get_step r = (case step r of Some n \<Rightarrow> n | None \<Rightarrow> 1)"

datatype execute_mode = Run | SkipUntil addr | RunStep run_step

definition show_execute_mode :: "execute_mode \<Rightarrow> string" where
  "show_execute_mode m =
     (case m of
        Run \<Rightarrow> ''running simply''
      | SkipUntil p \<Rightarrow> ''running until '' @ show_addr p
      | RunStep r \<Rightarrow> ''step execution by '' @ show_nat (get_step r))"

section \<open>Break points\<close>

datatype ord_chain_kind = ChainLess | ChainGreater
datatype ord_op_kind = OpEq | Weak | Strong

datatype break_point_expr =
    BInt u32 | BFloat f32 | BReg regid | BFReg fregid | BMem addr

record ord_chain =
  chain_kind :: ord_chain_kind
  chain_head :: break_point_expr
  chain_tail :: "(ord_op_kind \<times> break_point_expr) list"

datatype break_point_cond =
    OrdChain ord_chain
  | NotEq break_point_expr break_point_expr
  | Neg break_point_cond
  | Conj "break_point_cond list"
  | Disj "break_point_cond list"

record break_point =
  bp_addr :: addr
  bp_cond :: "break_point_cond option"

definition break_point_new :: "addr \<Rightarrow> break_point" where
  "break_point_new a = \<lparr>bp_addr = a, bp_cond = None\<rparr>"

definition ord_op_str :: "ord_chain_kind \<Rightarrow> ord_op_kind \<Rightarrow> string" where
  "ord_op_str k op =
     (case (k, op) of
        (ChainLess, OpEq) \<Rightarrow> ''=='' | (ChainLess, Weak) \<Rightarrow> ''<='' | (ChainLess, Strong) \<Rightarrow> ''<''
      | (ChainGreater, OpEq) \<Rightarrow> ''=='' | (ChainGreater, Weak) \<Rightarrow> ''>='' | (ChainGreater, Strong) \<Rightarrow> ''>'')"

datatype break_point_expr_ty = TyInt | TyFloat | TyNone

definition expr_ty :: "break_point_expr \<Rightarrow> break_point_expr_ty" where
  "expr_ty e =
     (case e of BInt _ \<Rightarrow> TyInt | BFloat _ \<Rightarrow> TyFloat | BReg _ \<Rightarrow> TyInt | BFReg _ \<Rightarrow> TyFloat
      | BMem _ \<Rightarrow> TyNone)"

section \<open>Watchings and spies\<close>

record watchings =
  w_reg :: "regid list"
  w_freg :: "fregid list"
  w_memory :: "addr list"

record simulation_option =
  do_trace :: bool
  opt_mode :: execute_mode
  breakpoints :: "addr \<Rightarrow> break_point option"
  opt_watchings :: watchings

text \<open>The bit mask \<^verbatim>\<open>SpyWatchKind\<close>: \<open>Read = 1\<close>, \<open>Write = 2\<close>.\<close>

type_synonym spy_watch_kind = u8

definition spy_read :: spy_watch_kind where "spy_read = 1"
definition spy_write :: spy_watch_kind where "spy_write = 2"

definition kind_contains :: "spy_watch_kind \<Rightarrow> spy_watch_kind \<Rightarrow> bool" where
  "kind_contains k m \<longleftrightarrow> k AND m = m"

definition show_spy_watch_kind :: "spy_watch_kind \<Rightarrow> string" where
  "show_spy_watch_kind k =
     (if kind_contains k spy_read then ''read'' @ (if kind_contains k spy_write then ''/write'' else [])
      else if kind_contains k spy_write then ''write'' else [])"

record spy_unit =
  spy_addr :: usize
  expire_at :: "usize option"

datatype spy_kind = SpyMemory spy_unit | SpyRegisterI regid | SpyRegisterF fregid

definition spy_kind_ty :: "spy_kind \<Rightarrow> ty" where
  "spy_kind_ty k =
     (case k of SpyMemory _ \<Rightarrow> Unknown | SpyRegisterI i \<Rightarrow> reg_ty i | SpyRegisterF _ \<Rightarrow> F32)"

definition show_spy_kind :: "build \<Rightarrow> spy_kind \<Rightarrow> ('e, string) outcome" where
  "show_spy_kind b k =
     (case k of
        SpyMemory u \<Rightarrow> Ok (''M['' @ show_addr (Addr (spy_addr u)) @ '']'')
      | SpyRegisterI r \<Rightarrow> show_regid b r
      | SpyRegisterF r \<Rightarrow> show_fregid b r)"

record spy =
  spy_watch :: spy_watch_kind
  spy_target :: spy_kind

definition show_spy :: "build \<Rightarrow> spy \<Rightarrow> ('e, string) outcome" where
  "show_spy b s =
     bind_out (show_spy_kind b (spy_target s)) (\<lambda>t.
       Ok (show_spy_watch_kind (spy_watch s) @ '' of '' @ t))"

datatype spy_watch_result_kind = ReadResult | WriteResult typed_u32 typed_u32

record spy_result =
  sr_kind :: spy_watch_result_kind
  sr_target :: spy_kind

datatype memory_region = DataSection | Heap | Stack

end
