(* ===== verification/Reg_File.thy ===== *)
theory Reg_File
  imports Common
begin

text \<open>
  \<^verbatim>\<open>core_sim/src/reg_file.rs\<close>: the integer and float registers with their access counters
  and the tracker of the heap and stack regions. The source shares the tracker with the memory
  through an \<^verbatim>\<open>Rc<RefCell<_>>\<close>; only the register file writes it, so it lives here and the
  memory operations read it as an argument.
\<close>

section \<open>Access counters and memory regions\<close>

record reg_file_stat =
  rs_write :: "nat vec"
  rs_read :: "nat vec"
  rs_abiname_table :: "string list"

definition reg_file_stat_new :: "build \<Rightarrow> string list \<Rightarrow> reg_file_stat" where
  "reg_file_stat_new b table =
     \<lparr>rs_write = vec_replicate (max_reg_id b) 0, rs_read = vec_replicate (max_reg_id b) 0,
      rs_abiname_table = table\<rparr>"

definition encounter_write :: "usize \<Rightarrow> (reg_file_stat, 'e, unit) action" where
  "encounter_write i = zoom rs_write (\<lambda>v s. s\<lparr>rs_write := v\<rparr>) (act_try (\<lambda>v. vec_incr v i))"

definition encounter_read :: "usize \<Rightarrow> (reg_file_stat, 'e, unit) action" where
  "encounter_read i = zoom rs_read (\<lambda>v s. s\<lparr>rs_read := v\<rparr>) (act_try (\<lambda>v. vec_incr v i))"

record memory_region_stat_builder =
  hp_min :: u32
  sp_min :: u32
  sp_max :: u32

definition region_init :: "u32 \<Rightarrow> u32 \<Rightarrow> memory_region_stat_builder \<Rightarrow> memory_region_stat_builder" where
  "region_init hp sp r = r\<lparr>hp_min := hp, sp_max := sp, sp_min := sp\<rparr>"

definition update_sp :: "u32 \<Rightarrow> memory_region_stat_builder \<Rightarrow> memory_region_stat_builder" where
  "update_sp val r = (if sp_min r > val then r\<lparr>sp_min := val\<rparr> else r)"

definition get_region ::
  "build \<Rightarrow> memory_region_stat_builder \<Rightarrow> u32 \<Rightarrow> ('e, memory_region) outcome" where
  "get_region b r a =
     (if a < hp_min r then Ok DataSection
      else bind_out (sub_u32 b (sp_min r) 1000) (\<lambda>bound.
             if a \<ge> bound then Ok Stack else Ok Heap))"

record memory_region_stat =
  rg_hp_min :: u32
  rg_hp_max :: u32
  rg_sp_min :: u32
  rg_sp_max :: u32

definition region_finish :: "u32 \<Rightarrow> memory_region_stat_builder \<Rightarrow> memory_region_stat" where
  "region_finish hp_max r =
     \<lparr>rg_hp_min = hp_min r, rg_hp_max = hp_max, rg_sp_min = sp_min r, rg_sp_max = sp_max r\<rparr>"

text \<open>The display of the region statistics: differences in words, printed in bytes.\<close>

definition show_memory_region_stat :: "build \<Rightarrow> memory_region_stat \<Rightarrow> ('e, string) outcome" where
  "show_memory_region_stat b st =
     bind_out (sub_u32 b (rg_hp_max st) (rg_hp_min st)) (\<lambda>heap.
     bind_out (sub_u32 b (rg_sp_max st) (rg_sp_min st)) (\<lambda>stack.
     Ok (''  heap: '' @ pad_left 10 (show_u32 (push_bit 2 heap)) @ '' bytes'' @ nl
         @ ''  stack: '' @ pad_left 9 (show_u32 (push_bit 2 stack)) @ '' bytes'' @ nl)))"

section \<open>The register file\<close>

record reg_file =
  rf_inner :: "u32 vec"
  rf_inner_f :: "f32 vec"
  stat_memregion :: memory_region_stat_builder
  rf_stat_i :: reg_file_stat
  rf_stat_f :: reg_file_stat

definition reg_file_new :: "build \<Rightarrow> reg_file" where
  "reg_file_new b =
     \<lparr>rf_inner = vec_replicate (max_reg_id b) 0, rf_inner_f = vec_replicate (max_reg_id b) f32_zero,
      stat_memregion = \<lparr>hp_min = 0, sp_min = 0, sp_max = 0\<rparr>,
      rf_stat_i = reg_file_stat_new b (abiname_table b),
      rf_stat_f = reg_file_stat_new b (f_abiname_table b)\<rparr>"

definition reg_get :: "regid \<Rightarrow> (reg_file, 'e, u32) action" where
  "reg_get r =
     act_bind (zoom rf_stat_i (\<lambda>v s. s\<lparr>rf_stat_i := v\<rparr>) (encounter_read (reg_inner r))) (\<lambda>_.
       act_read (\<lambda>s. vec_get (rf_inner s) (reg_inner r)))"

definition reg_get_f :: "fregid \<Rightarrow> (reg_file, 'e, f32) action" where
  "reg_get_f r =
     act_bind (zoom rf_stat_f (\<lambda>v s. s\<lparr>rf_stat_f := v\<rparr>) (encounter_read (freg_inner r))) (\<lambda>_.
       act_read (\<lambda>s. vec_get (rf_inner_f s) (freg_inner r)))"

definition set_inner :: "usize \<Rightarrow> u32 \<Rightarrow> (reg_file, 'e, unit) action" where
  "set_inner i val = zoom rf_inner (\<lambda>v s. s\<lparr>rf_inner := v\<rparr>) (act_try (\<lambda>v. vec_set v i val))"

definition set_sp :: "u32 \<Rightarrow> (reg_file, 'e, unit) action" where
  "set_sp val = set_inner 2 val"

definition set_hp :: "u32 \<Rightarrow> (reg_file, 'e, unit) action" where
  "set_hp val = set_inner 4 val"

definition reg_set :: "regid \<Rightarrow> u32 \<Rightarrow> (reg_file, 'e, unit) action" where
  "reg_set r val =
     act_bind (zoom rf_stat_i (\<lambda>v s. s\<lparr>rf_stat_i := v\<rparr>) (encounter_write (reg_inner r))) (\<lambda>_.
     act_bind (if reg_inner r = 2
               then act_modify (\<lambda>s. s\<lparr>stat_memregion := update_sp val (stat_memregion s)\<rparr>)
               else act_ret ()) (\<lambda>_.
     if reg_inner r \<noteq> 0 then set_inner (reg_inner r) val else act_ret ()))"

definition reg_set_f :: "fregid \<Rightarrow> f32 \<Rightarrow> (reg_file, 'e, unit) action" where
  "reg_set_f r val =
     act_bind (zoom rf_stat_f (\<lambda>v s. s\<lparr>rf_stat_f := v\<rparr>) (encounter_write (freg_inner r))) (\<lambda>_.
     if freg_inner r \<noteq> 0
     then zoom rf_inner_f (\<lambda>v s. s\<lparr>rf_inner_f := v\<rparr>) (act_try (\<lambda>v. vec_set v (freg_inner r) val))
     else act_ret ())"

definition end_init :: "(reg_file, 'e, unit) action" where
  "end_init =
     act_bind (act_read (\<lambda>s. vec_get (rf_inner s) 4)) (\<lambda>hp.
     act_bind (act_read (\<lambda>s. vec_get (rf_inner s) 2)) (\<lambda>sp.
     act_modify (\<lambda>s. s\<lparr>stat_memregion := region_init hp sp (stat_memregion s)\<rparr>)))"

section \<open>Invariant\<close>

definition stat_wf :: "build \<Rightarrow> reg_file_stat \<Rightarrow> bool" where
  "stat_wf b st \<longleftrightarrow> vec_len (rs_write st) = max_reg_id b \<and> vec_len (rs_read st) = max_reg_id b"

text \<open>Arrays of the right length, and registers \<open>x0\<close> and \<open>f0\<close> holding zero.\<close>

definition reg_file_wf :: "build \<Rightarrow> reg_file \<Rightarrow> bool" where
  "reg_file_wf b rf \<longleftrightarrow>
     vec_len (rf_inner rf) = max_reg_id b \<and> vec_len (rf_inner_f rf) = max_reg_id b \<and>
     stat_wf b (rf_stat_i rf) \<and> stat_wf b (rf_stat_f rf) \<and>
     vec_elt (rf_inner rf) 0 = 0 \<and> vec_elt (rf_inner_f rf) 0 = f32_zero"

lemma encounter_simps [simp]:
  "stat_wf b st \<Longrightarrow> i < max_reg_id b \<Longrightarrow> encounter_write i st =
     (Ok (), st\<lparr>rs_write := Vec (max_reg_id b) ((vec_elt (rs_write st))(i := vec_elt (rs_write st) i + 1))\<rparr>)"
  "stat_wf b st \<Longrightarrow> i < max_reg_id b \<Longrightarrow> encounter_read i st =
     (Ok (), st\<lparr>rs_read := Vec (max_reg_id b) ((vec_elt (rs_read st))(i := vec_elt (rs_read st) i + 1))\<rparr>)"
  by (simp_all add: encounter_write_def encounter_read_def act_simps stat_wf_def)

lemma stat_wf_updates [simp]:
  "stat_wf b st \<Longrightarrow> vec_len v = max_reg_id b \<Longrightarrow> stat_wf b (st\<lparr>rs_write := v\<rparr>)"
  "stat_wf b st \<Longrightarrow> vec_len v = max_reg_id b \<Longrightarrow> stat_wf b (st\<lparr>rs_read := v\<rparr>)"
  by (simp_all add: stat_wf_def)

lemma reg_file_new_wf: "reg_file_wf b (reg_file_new b)"
  by (simp add: reg_file_wf_def reg_file_new_def stat_wf_def reg_file_stat_new_def)

text \<open>
  The classification without the overflow check, and when the check passes: always in a release
  build and for the data section, else when the stack bound is at least 1000.
\<close>

definition region_of :: "memory_region_stat_builder \<Rightarrow> u32 \<Rightarrow> memory_region" where
  "region_of r a =
     (if a < hp_min r then DataSection else if sp_min r - 1000 \<le> a then Stack else Heap)"

definition region_known :: "build \<Rightarrow> memory_region_stat_builder \<Rightarrow> u32 \<Rightarrow> bool" where
  "region_known b r a \<longleftrightarrow> debug_assertions b \<longrightarrow> a < hp_min r \<or> 1000 \<le> sp_min r"

lemma get_region_eq:
  "get_region b r a = (if region_known b r a then Ok (region_of r a) else Panic ArithmeticOverflow)"
  by (auto simp: get_region_def region_of_def region_known_def sub_u32_def)

section \<open>The contract of a register bank\<close>

text \<open>
  The two banks keep the same promise: from a well-formed file a read of an existing register
  returns its content and changes no content, a write changes exactly the register written and
  nothing when that is register zero, and register zero holds zero.
\<close>

locale register_bank =
  fixes bank_wf :: "'s \<Rightarrow> bool"
    and bank_size :: nat
    and index :: "'r \<Rightarrow> nat"
    and content :: "'s \<Rightarrow> nat \<Rightarrow> 'v"
    and bank_zero :: 'v
    and rd :: "'r \<Rightarrow> ('s, 'e, 'v) action"
    and wr :: "'r \<Rightarrow> 'v \<Rightarrow> ('s, 'e, unit) action"
  assumes rd_ok: "bank_wf s \<Longrightarrow> index r < bank_size \<Longrightarrow>
      \<exists>s'. rd r s = (Ok (content s (index r)), s') \<and> bank_wf s' \<and> content s' = content s"
    and wr_ok: "bank_wf s \<Longrightarrow> index r < bank_size \<Longrightarrow>
      \<exists>s'. wr r x s = (Ok (), s') \<and> bank_wf s'
        \<and> content s' = (if index r = 0 then content s else (content s)(index r := x))"
    and zero_reg: "bank_wf s \<Longrightarrow> content s 0 = bank_zero"
begin

lemma rd_after_wr:
  assumes "bank_wf s" "index r < bank_size" "index q < bank_size"
  shows "\<exists>s'. act_bind (wr r x) (\<lambda>_. rd q) s =
      (Ok (if index q = 0 then bank_zero else if index q = index r then x else content s (index q)), s')"
proof -
  obtain s1 where s1: "wr r x s = (Ok (), s1)" "bank_wf s1"
    "content s1 = (if index r = 0 then content s else (content s)(index r := x))"
    using wr_ok [OF assms(1,2)] by blast
  obtain s2 where "rd q s1 = (Ok (content s1 (index q)), s2)" using rd_ok [OF s1(2) assms(3)] by blast
  then show ?thesis
    using s1 zero_reg [OF s1(2)] zero_reg [OF assms(1)] by (auto simp: act_bind_def)
qed

end

lemma bank_read_ok:
  assumes "reg_file_wf b rf"
  shows "reg_inner r < max_reg_id b \<Longrightarrow>
      \<exists>rf'. reg_get r rf = (Ok (vec_elt (rf_inner rf) (reg_inner r)), rf') \<and> reg_file_wf b rf'
        \<and> rf_inner rf' = rf_inner rf \<and> rf_inner_f rf' = rf_inner_f rf
        \<and> stat_memregion rf' = stat_memregion rf"
    and "freg_inner f < max_reg_id b \<Longrightarrow>
      \<exists>rf'. reg_get_f f rf = (Ok (vec_elt (rf_inner_f rf) (freg_inner f)), rf') \<and> reg_file_wf b rf'
        \<and> rf_inner rf' = rf_inner rf \<and> rf_inner_f rf' = rf_inner_f rf
        \<and> stat_memregion rf' = stat_memregion rf"
  using assms by (auto simp: reg_get_def reg_get_f_def reg_file_wf_def act_simps)

lemma bank_write_ok:
  assumes "reg_file_wf b rf"
  shows "reg_inner r < max_reg_id b \<Longrightarrow>
      \<exists>rf'. reg_set r x rf = (Ok (), rf') \<and> reg_file_wf b rf' \<and> rf_inner_f rf' = rf_inner_f rf
        \<and> vec_elt (rf_inner rf') = (if reg_inner r = 0 then vec_elt (rf_inner rf)
             else (vec_elt (rf_inner rf))(reg_inner r := x))"
    and "freg_inner f < max_reg_id b \<Longrightarrow>
      \<exists>rf'. reg_set_f f y rf = (Ok (), rf') \<and> reg_file_wf b rf' \<and> rf_inner rf' = rf_inner rf
        \<and> stat_memregion rf' = stat_memregion rf
        \<and> vec_elt (rf_inner_f rf') = (if freg_inner f = 0 then vec_elt (rf_inner_f rf)
             else (vec_elt (rf_inner_f rf))(freg_inner f := y))"
  using assms by (auto simp: reg_set_def reg_set_f_def reg_file_wf_def act_simps set_inner_def)

interpretation int_bank: register_bank "reg_file_wf b" "max_reg_id b" reg_inner
  "\<lambda>rf. vec_elt (rf_inner rf)" 0 reg_get reg_set
proof
  show "\<exists>s'. reg_get r s = (Ok (vec_elt (rf_inner s) (reg_inner r)), s') \<and> reg_file_wf b s'
    \<and> vec_elt (rf_inner s') = vec_elt (rf_inner s)"
    if "reg_file_wf b s" "reg_inner r < max_reg_id b" for s r
    using bank_read_ok(1) [OF that] by auto
  show "\<exists>s'. reg_set r x s = (Ok (), s') \<and> reg_file_wf b s' \<and> vec_elt (rf_inner s') =
      (if reg_inner r = 0 then vec_elt (rf_inner s) else (vec_elt (rf_inner s))(reg_inner r := x))"
    if "reg_file_wf b s" "reg_inner r < max_reg_id b" for s r x
    using bank_write_ok(1) [OF that] by blast
qed (simp add: reg_file_wf_def)

interpretation float_bank: register_bank "reg_file_wf b" "max_reg_id b" freg_inner
  "\<lambda>rf. vec_elt (rf_inner_f rf)" f32_zero reg_get_f reg_set_f
proof
  show "\<exists>s'. reg_get_f r s = (Ok (vec_elt (rf_inner_f s) (freg_inner r)), s') \<and> reg_file_wf b s'
    \<and> vec_elt (rf_inner_f s') = vec_elt (rf_inner_f s)"
    if "reg_file_wf b s" "freg_inner r < max_reg_id b" for s r
    using bank_read_ok(2) [OF that] by auto
  show "\<exists>s'. reg_set_f r x s = (Ok (), s') \<and> reg_file_wf b s' \<and> vec_elt (rf_inner_f s') =
      (if freg_inner r = 0 then vec_elt (rf_inner_f s) else (vec_elt (rf_inner_f s))(freg_inner r := x))"
    if "reg_file_wf b s" "freg_inner r < max_reg_id b" for s r x
    using bank_write_ok(2) [OF that] by blast
qed (simp add: reg_file_wf_def)

text \<open>Writes to either bank in one sequence, and the last value each register was given.\<close>

datatype reg_write = WriteI regid u32 | WriteF fregid f32

fun write_reg :: "reg_write \<Rightarrow> (reg_file, 'e, unit) action" where
  "write_reg (WriteI r x) = reg_set r x"
| "write_reg (WriteF r x) = reg_set_f r x"

fun write_in_range :: "build \<Rightarrow> reg_write \<Rightarrow> bool" where
  "write_in_range b (WriteI r x) = (reg_inner r < max_reg_id b)"
| "write_in_range b (WriteF r x) = (freg_inner r < max_reg_id b)"

fun last_i :: "nat \<Rightarrow> reg_write list \<Rightarrow> u32 \<Rightarrow> u32" where
  "last_i k [] c = c"
| "last_i k (WriteI r x # ws) c = last_i k ws (if reg_inner r = k \<and> k \<noteq> 0 then x else c)"
| "last_i k (WriteF r x # ws) c = last_i k ws c"

fun last_f :: "nat \<Rightarrow> reg_write list \<Rightarrow> f32 \<Rightarrow> f32" where
  "last_f k [] c = c"
| "last_f k (WriteI r x # ws) c = last_f k ws c"
| "last_f k (WriteF r x # ws) c = last_f k ws (if freg_inner r = k \<and> k \<noteq> 0 then x else c)"

lemma write_all:
  assumes "reg_file_wf b rf" "\<forall>w \<in> set ws. write_in_range b w"
  shows "\<exists>rf'. (act_iter write_reg ws :: (reg_file, 'e, unit) action) rf = (Ok (), rf') \<and> reg_file_wf b rf'
    \<and> (\<forall>k. vec_elt (rf_inner rf') k = last_i k ws (vec_elt (rf_inner rf) k))
    \<and> (\<forall>k. vec_elt (rf_inner_f rf') k = last_f k ws (vec_elt (rf_inner_f rf) k))"
  using assms
proof (induction ws arbitrary: rf)
  case Nil
  then show ?case by (simp add: act_simps)
next
  case (Cons w ws)
  have "\<exists>rf1. (write_reg w :: (reg_file, 'e, unit) action) rf = (Ok (), rf1) \<and> reg_file_wf b rf1
      \<and> (\<forall>k. vec_elt (rf_inner rf1) k = last_i k [w] (vec_elt (rf_inner rf) k))
      \<and> (\<forall>k. vec_elt (rf_inner_f rf1) k = last_f k [w] (vec_elt (rf_inner_f rf) k))"
  proof (cases w)
    case (WriteI r x)
    then have "reg_inner r < max_reg_id b" using Cons.prems(2) by simp
    from bank_write_ok(1) [OF Cons.prems(1) this, of x, where ?'a = 'e] show ?thesis
      unfolding WriteI write_reg.simps by (auto split: if_splits)
  next
    case (WriteF r x)
    then have "freg_inner r < max_reg_id b" using Cons.prems(2) by simp
    from bank_write_ok(2) [OF Cons.prems(1) this, of x, where ?'b = 'e] show ?thesis
      unfolding WriteF write_reg.simps by (auto split: if_splits)
  qed
  then obtain rf1 where rf1: "(write_reg w :: (reg_file, 'e, unit) action) rf = (Ok (), rf1)" "reg_file_wf b rf1"
    "\<forall>k. vec_elt (rf_inner rf1) k = last_i k [w] (vec_elt (rf_inner rf) k)"
    "\<forall>k. vec_elt (rf_inner_f rf1) k = last_f k [w] (vec_elt (rf_inner_f rf) k)" by blast
  obtain rf2 where "(act_iter write_reg ws :: (reg_file, 'e, unit) action) rf1 = (Ok (), rf2)" "reg_file_wf b rf2"
    "\<forall>k. vec_elt (rf_inner rf2) k = last_i k ws (vec_elt (rf_inner rf1) k)"
    "\<forall>k. vec_elt (rf_inner_f rf2) k = last_f k ws (vec_elt (rf_inner_f rf1) k)"
    using Cons.IH [OF rf1(2)] Cons.prems(2) by auto
  then show ?case using rf1 by (cases w) (auto simp: act_bind_def)
qed

text \<open>
  C19. The register file behaves as two arrays, each with a hard-wired zero: after any sequence of
  writes to integer and float registers from any well-formed file, reading a register of either
  bank succeeds and returns the last value written to it in its bank (its former content if there
  was none); \<open>x0\<close> reads 0 and \<open>f0\<close> reads \<open>0.0\<close> whatever was written to them.
\<close>
theorem reg_file_read_back:
  assumes "reg_file_wf b rf" "\<forall>w \<in> set ws. write_in_range b w" "reg_inner q < max_reg_id b" "freg_inner f < max_reg_id b"
  shows "\<exists>rf' rf1 rf2. (act_iter write_reg ws :: (reg_file, 'e, unit) action) rf = (Ok (), rf') \<and> reg_file_wf b rf'
    \<and> (reg_get q :: (reg_file, 'e, u32) action) rf' =
        (Ok (if reg_inner q = 0 then 0 else last_i (reg_inner q) ws (vec_elt (rf_inner rf) (reg_inner q))), rf1)
    \<and> (reg_get_f f :: (reg_file, 'e, f32) action) rf' =
        (Ok (if freg_inner f = 0 then f32_zero else last_f (freg_inner f) ws (vec_elt (rf_inner_f rf) (freg_inner f))), rf2)"
proof -
  obtain rf' where rf': "(act_iter write_reg ws :: (reg_file, 'e, unit) action) rf = (Ok (), rf')" "reg_file_wf b rf'"
    "\<forall>k. vec_elt (rf_inner rf') k = last_i k ws (vec_elt (rf_inner rf) k)"
    "\<forall>k. vec_elt (rf_inner_f rf') k = last_f k ws (vec_elt (rf_inner_f rf) k)"
    using write_all [OF assms(1,2)] by blast
  obtain rf1 where "(reg_get q :: (reg_file, 'e, u32) action) rf' = (Ok (vec_elt (rf_inner rf') (reg_inner q)), rf1)"
    using int_bank.rd_ok [OF rf'(2) assms(3)] by blast
  moreover obtain rf2 where "(reg_get_f f :: (reg_file, 'e, f32) action) rf' = (Ok (vec_elt (rf_inner_f rf') (freg_inner f)), rf2)"
    using float_bank.rd_ok [OF rf'(2) assms(4)] by blast
  ultimately show ?thesis
    using rf' int_bank.zero_reg [OF rf'(2)] float_bank.zero_reg [OF rf'(2)] by auto
qed

theorem reg_file_read_back_witness:
  "\<exists>rf'. (act_iter write_reg [WriteI (RegId 5) 7, WriteF (FRegId 5) f32_one, WriteI (RegId 0) 9, WriteI (RegId 5) 8] :: (reg_file, unit, unit) action)
        (reg_file_new \<lparr>debug_assertions = True, isa_2nd = False\<rparr>) = (Ok (), rf')
    \<and> fst ((reg_get (RegId 5) :: (reg_file, unit, u32) action) rf') = Ok 8
    \<and> fst ((reg_get_f (FRegId 5) :: (reg_file, unit, f32) action) rf') = Ok f32_one"
proof -
  let ?b = "\<lparr>debug_assertions = True, isa_2nd = False\<rparr>"
  let ?ws = "[WriteI (RegId 5) 7, WriteF (FRegId 5) f32_one, WriteI (RegId 0) 9, WriteI (RegId 5) 8]"
  have "\<forall>w \<in> set ?ws. write_in_range ?b w" "reg_inner (RegId 5) < max_reg_id ?b" "freg_inner (FRegId 5) < max_reg_id ?b"
    by (simp_all add: max_reg_id_def reg_bit_width_def)
  from reg_file_read_back [OF reg_file_new_wf this, where ?'e = unit] show ?thesis by auto
qed

section \<open>Stack tracking\<close>

text \<open>
  After initialisation with stack pointer \<open>sp\<close>, the tracked stack bound is the least of
  \<open>sp\<close> and every value later written to the stack pointer register, so the stack statistics cover
  every stack the program ever had; the heap bound and the stack base do not move.
\<close>
lemma stack_bound_is_minimum:
  "fold update_sp vs (region_init hp sp r) =
     r\<lparr>hp_min := hp, sp_max := sp, sp_min := Min (insert sp (set vs))\<rparr>"
proof -
  have *: "fold update_sp vs r = r\<lparr>sp_min := Min (insert (sp_min r) (set vs))\<rparr>" for r
  proof (induction vs arbitrary: r)
    case Nil
    then show ?case by simp
  next
    case (Cons v vs)
    have "update_sp v r = r\<lparr>sp_min := min v (sp_min r)\<rparr>" by (auto simp: update_sp_def)
    then show ?case
      using Cons.IH [of "r\<lparr>sp_min := min v (sp_min r)\<rparr>"]
      by (cases "set vs = {}") (auto simp: min.assoc min.commute min.left_commute)
  qed
  show ?thesis by (simp add: * region_init_def)
qed

end
