(* ===== verification/Float_Text.thy ===== *)
theory Float_Text
  imports Float32
begin

text \<open>
  \<^verbatim>\<open>str::parse::<f32>\<close> of the standard library on numbers: an optional sign, digits with an
  optional point, and an optional exponent, rounded once to the nearest \<^verbatim>\<open>f32\<close>. The words
  \<^verbatim>\<open>inf\<close>, \<^verbatim>\<open>infinity\<close> and \<^verbatim>\<open>nan\<close> are accepted in any case, as documented.
\<close>

section \<open>Characters\<close>

definition ascii_lower :: "char \<Rightarrow> char" where
  "ascii_lower c = (let n = of_char c :: nat in if 65 \<le> n \<and> n \<le> 90 then char_of (n + 32) else c)"

section \<open>Rounding a decimal\<close>

text \<open>
  The bit pattern nearest to \<open>p / q\<close>. One unit below \<open>2\<close> to the power \<open>-150\<close> is kept as a sticky
  bit, which the rounding at \<open>2\<close> to the power \<open>-149\<close> or above cannot confuse with a tie.
\<close>

definition round_ratio :: "nat \<Rightarrow> nat \<Rightarrow> nat" where
  "round_ratio p q =
     (let n = p * 2 ^ 150 in round_bits 2 (2 * (n div q) + (if n mod q = 0 then 0 else 1)))"

definition decimal_bits :: "nat \<Rightarrow> int \<Rightarrow> nat" where
  "decimal_bits m e =
     (if e \<ge> 0 then round_ratio (m * 10 ^ nat e) 1 else round_ratio m (10 ^ nat (- e)))"

section \<open>Parsing\<close>

definition split_sign :: "string \<Rightarrow> bool \<times> string" where
  "split_sign s =
     (case s of
        [] \<Rightarrow> (False, [])
      | c # cs \<Rightarrow> if c = CHR ''-'' then (True, cs) else if c = CHR ''+'' then (False, cs) else (False, s))"

text \<open>The exponent part: absent, or \<^verbatim>\<open>e\<close> followed by a signed number.\<close>

definition parse_exponent :: "string \<Rightarrow> int option" where
  "parse_exponent s =
     (case s of
        [] \<Rightarrow> Some 0
      | c # cs \<Rightarrow>
          if ascii_lower c = CHR ''e''
          then let (neg, ds) = split_sign cs
               in if ds \<noteq> [] \<and> list_all is_digit ds
                  then Some (if neg then - int (digits_value ds) else int (digits_value ds))
                  else None
          else None)"

definition parse_number :: "string \<Rightarrow> nat option" where
  "parse_number s =
     (let whole = takeWhile is_digit s; rest = dropWhile is_digit s;
          (frac, rest2) = (case rest of
             CHR ''.'' # t \<Rightarrow> (takeWhile is_digit t, dropWhile is_digit t) | _ \<Rightarrow> ([], rest))
      in if whole = [] \<and> frac = [] then None
         else map_option (\<lambda>e. decimal_bits (digits_value (whole @ frac)) (e - int (length frac)))
                (parse_exponent rest2))"

definition f32_from_str :: "string \<Rightarrow> f32 option" where
  "f32_from_str s =
     (let (neg, t) = split_sign s; w = map ascii_lower t
      in if w = ''inf'' \<or> w = ''infinity'' then Some (f32_make neg (255 * 2 ^ 23))
         else if w = ''nan'' then Some (Bits (to_bits f32_nan OR push_bit 31 (of_bool neg)))
         else map_option (f32_make neg) (parse_number t))"

section \<open>Printing\<close>

text \<open>
  \<^verbatim>\<open>Display\<close> of \<^verbatim>\<open>f32\<close>: the shortest decimal that reads back as the same number, closest
  to it among these, without an exponent. \<open>digits_at x e\<close> is the multiple of \<open>10\<close> to the power \<open>e\<close>
  that reads back, if there is one; the search takes the largest \<open>e\<close>, and at \<open>-149\<close> the number
  itself is such a multiple.
\<close>

definition below_at :: "nat \<Rightarrow> int \<Rightarrow> nat" where
  "below_at mag e =
     (if e \<ge> 0 then mag div (2 ^ 149 * 10 ^ nat e) else (mag * 10 ^ nat (- e)) div 2 ^ 149)"

definition nearer_above :: "nat \<Rightarrow> nat \<Rightarrow> int \<Rightarrow> bool" where
  "nearer_above mag d e \<longleftrightarrow>
     (if e \<ge> 0 then 2 * mag \<ge> (2 * d + 1) * 10 ^ nat e * 2 ^ 149
      else 2 * mag * 10 ^ nat (- e) \<ge> (2 * d + 1) * 2 ^ 149)"

definition digits_at :: "f32 \<Rightarrow> int \<Rightarrow> nat option" where
  "digits_at x e =
     (let m = unat (take_bit 31 (to_bits x)); d = below_at (f32_mag x) e;
          low = (decimal_bits d e = m); high = (decimal_bits (d + 1) e = m)
      in if high \<and> (\<not> low \<or> nearer_above (f32_mag x) d e) then Some (d + 1)
         else if low then Some d else None)"

fun shortest_from :: "nat \<Rightarrow> f32 \<Rightarrow> int \<Rightarrow> nat \<times> int" where
  "shortest_from 0 x e = (below_at (f32_mag x) e, e)"
| "shortest_from (Suc n) x e =
     (case digits_at x e of Some d \<Rightarrow> (d, e) | None \<Rightarrow> shortest_from n x (e - 1))"

definition plain_decimal :: "nat \<Rightarrow> int \<Rightarrow> string" where
  "plain_decimal d e =
     (let ds = show_nat d; k = nat (- e) in
      if e \<ge> 0 then ds @ replicate (nat e) (CHR ''0'')
      else if length ds > k then take (length ds - k) ds @ ''.'' @ drop (length ds - k) ds
      else ''0.'' @ replicate (k - length ds) (CHR ''0'') @ ds)"

definition show_f32 :: "f32 \<Rightarrow> string" where
  "show_f32 x =
     (if f32_is_nan x then ''NaN''
      else (if f32_sign x then ''-'' else []) @
        (if f32_is_inf x then ''inf''
         else if f32_mag x = 0 then ''0''
         else let (d, e) = shortest_from 187 x 38 in plain_decimal d e))"

end
