(* ===== verification/Display.thy ===== *)
theory Display
  imports Common Reg_File Float_Text
begin

text \<open>
  What the debugger prints of values: typed words (\<^verbatim>\<open>ty.rs\<close>), break points
  (\<^verbatim>\<open>breakpoint.rs\<close>) and the register file (\<^verbatim>\<open>reg_file.rs\<close>). A register without a name
  makes printing panic, so printers that name registers return an outcome.
\<close>

section \<open>Typed words\<close>

definition show_typed_u32 :: "typed_u32 \<Rightarrow> string" where
  "show_typed_u32 v =
     (let i = show_i32 (raw_value v); a = show_addr (Addr (unat (raw_value v)));
          x = show_f32 (Bits (raw_value v))
      in case ty_of v of
        I32 \<Rightarrow> i
      | Usize \<Rightarrow> a
      | I32OrUsize \<Rightarrow> i @ '' ('' @ a @ '' as addr)''
      | F32 \<Rightarrow> x
      | Unknown \<Rightarrow> i @ '' ('' @ a @ '' as addr) ('' @ x @ '' as f32)'')"

section \<open>Break points\<close>

definition show_break_point :: "break_point \<Rightarrow> string" where
  "show_break_point bp = show_addr (bp_addr bp)"

definition show_break_point_expr :: "build \<Rightarrow> break_point_expr \<Rightarrow> ('e, string) outcome" where
  "show_break_point_expr b e =
     (case e of
        BInt x \<Rightarrow> Ok (show_u32 x)
      | BFloat x \<Rightarrow> Ok (show_f32 x)
      | BReg r \<Rightarrow> show_regid b r
      | BFReg r \<Rightarrow> show_fregid b r
      | BMem a \<Rightarrow> Ok (''M['' @ show_addr a @ '']''))"

fun show_chain_tail ::
  "build \<Rightarrow> ord_chain_kind \<Rightarrow> (ord_op_kind \<times> break_point_expr) list \<Rightarrow> ('e, string) outcome" where
  "show_chain_tail b k [] = Ok []"
| "show_chain_tail b k ((op, e) # t) =
     bind_out (show_break_point_expr b e) (\<lambda>x.
     bind_out (show_chain_tail b k t) (\<lambda>y. Ok ('' '' @ ord_op_str k op @ '' '' @ x @ y)))"

fun all_out :: "('e, 'a) outcome list \<Rightarrow> ('e, 'a list) outcome" where
  "all_out [] = Ok []"
| "all_out (r # rs) = bind_out r (\<lambda>a. bind_out (all_out rs) (\<lambda>as. Ok (a # as)))"

fun show_break_point_cond :: "build \<Rightarrow> break_point_cond \<Rightarrow> ('e, string) outcome" where
  "show_break_point_cond b (OrdChain c) =
     bind_out (show_break_point_expr b (chain_head c)) (\<lambda>h.
     bind_out (show_chain_tail b (chain_kind c) (chain_tail c)) (\<lambda>t. Ok (h @ t)))"
| "show_break_point_cond b (NotEq e1 e2) =
     bind_out (show_break_point_expr b e1) (\<lambda>x.
     bind_out (show_break_point_expr b e2) (\<lambda>y. Ok (x @ '' != '' @ y)))"
| "show_break_point_cond b (Neg c) = bind_out (show_break_point_cond b c) (\<lambda>x. Ok (''!('' @ x @ '')''))"
| "show_break_point_cond b (Conj cs) =
     bind_out (all_out (map (show_break_point_cond b) cs)) (\<lambda>xs. Ok (join '' && '' xs))"
| "show_break_point_cond b (Disj cs) =
     bind_out (all_out (map (show_break_point_cond b) cs)) (\<lambda>xs. Ok (join '' || '' xs))"

section \<open>The register file\<close>

datatype show_reg_file_kind = RegFileAll | RegFileI | RegFileF

record reg_file_view =
  rv_r :: reg_file
  rv_k :: show_reg_file_kind
  rv_chunk_size :: usize

definition get_view :: "show_reg_file_kind \<Rightarrow> usize \<Rightarrow> reg_file \<Rightarrow> reg_file_view" where
  "get_view k chunk_size r = \<lparr>rv_r = r, rv_k = k, rv_chunk_size = chunk_size\<rparr>"

text \<open>\<^verbatim>\<open>slice::chunks\<close>, which panics on a chunk size of zero.\<close>

function chunks_of :: "nat \<Rightarrow> 'a list \<Rightarrow> 'a list list" where
  "chunks_of n xs = (if xs = [] \<or> n = 0 then [] else take n xs # chunks_of n (drop n xs))"
  by pat_completeness auto
termination
  by (relation "measure (\<lambda>(n, xs). length xs)") auto

declare chunks_of.simps [simp del]

definition chunks :: "nat \<Rightarrow> 'a list \<Rightarrow> ('e, 'a list list) outcome" where
  "chunks n xs = (if n = 0 then Panic AssertFailed else Ok (chunks_of n xs))"

definition view_fmt_inner :: "usize \<Rightarrow> string list \<Rightarrow> ('e, string) outcome" where
  "view_fmt_inner chunk_size cells =
     bind_out (chunks chunk_size cells) (\<lambda>rows.
     Ok (concat (map (\<lambda>row. ''  '' @ join '', '' row @ '','' @ nl) rows)))"

definition view_cells_i :: "build \<Rightarrow> reg_file \<Rightarrow> string list" where
  "view_cells_i b r =
     map (\<lambda>(n, v). pad_left 6 n @ '': '' @ pad_left 16 (show_u32 v)) (zip (abiname_table b) (vec_to_list (rf_inner r)))"

definition view_cells_f :: "build \<Rightarrow> reg_file \<Rightarrow> string list" where
  "view_cells_f b r =
     map (\<lambda>(n, v). pad_left 6 n @ '': '' @ pad_left 16 (show_f32 v)) (zip (f_abiname_table b) (vec_to_list (rf_inner_f r)))"

definition show_reg_file_view :: "build \<Rightarrow> reg_file_view \<Rightarrow> ('e, string) outcome" where
  "show_reg_file_view b v =
     (let i = view_fmt_inner (rv_chunk_size v) (view_cells_i b (rv_r v));
          f = view_fmt_inner (rv_chunk_size v) (view_cells_f b (rv_r v))
      in case rv_k v of
        RegFileAll \<Rightarrow> bind_out i (\<lambda>x. bind_out f (\<lambda>y. Ok (''RegFile (All) {'' @ nl @ x @ y @ ''}'')))
      | RegFileI \<Rightarrow> bind_out i (\<lambda>x. Ok (''RegFile (Integer) {'' @ nl @ x @ ''}''))
      | RegFileF \<Rightarrow> bind_out f (\<lambda>y. Ok (''RegFile (Float) {'' @ nl @ y @ ''}'')))"

lemma concat_chunks: "0 < n \<Longrightarrow> concat (chunks_of n xs) = xs"
proof (induction n xs rule: chunks_of.induct)
  case (1 n xs)
  show ?case
  proof (cases "xs = []")
    case False
    then have "concat (chunks_of n xs) = take n xs @ concat (chunks_of n (drop n xs))"
      using "1.prems" by (subst chunks_of.simps) simp
    then show ?thesis using "1.IH" False "1.prems" by simp
  qed (simp add: chunks_of.simps)
qed

lemma chunks_of_length: "0 < n \<Longrightarrow> row \<in> set (chunks_of n xs) \<Longrightarrow> 0 < length row \<and> length row \<le> n"
proof (induction n xs rule: chunks_of.induct)
  case (1 n xs)
  show ?case
  proof (cases "xs = []")
    case False
    then have "set (chunks_of n xs) = insert (take n xs) (set (chunks_of n (drop n xs)))"
      using "1.prems" by (subst chunks_of.simps) simp
    then show ?thesis using "1.IH" False "1.prems" by auto
  qed (use "1.prems" in \<open>simp add: chunks_of.simps\<close>)
qed

end
