(* ===== verification/Debug_Symbol.thy ===== *)
theory Debug_Symbol
  imports Errors Rust_Std
begin

text \<open>
  \<^verbatim>\<open>core_sim/src/debug_symbol.rs\<close>: the symbol table and its lookups. The standard library's
  \<^verbatim>\<open>binary_search_by_key\<close> is modelled by its algorithm and specified below; the JSON
  deserialiser is third-party code, so the raw table is an argument.
\<close>

section \<open>Symbols\<close>

record symbol_def_raw =
  sym_addr :: u32
  sym_label :: string

record debug_symbol =
  ds_globals :: "string \<Rightarrow> symbol_def_raw option"
  ds_sorted :: "symbol_def_raw list"

definition debug_symbol_default :: debug_symbol where
  "debug_symbol_default = \<lparr>ds_globals = Map.empty, ds_sorted = []\<rparr>"

definition ds_is_empty :: "debug_symbol \<Rightarrow> bool" where
  "ds_is_empty d \<longleftrightarrow> ds_globals d = Map.empty \<and> ds_sorted d = []"

text \<open>The stable sort by address.\<close>

definition ds_sort :: "debug_symbol \<Rightarrow> debug_symbol" where
  "ds_sort d = d\<lparr>ds_sorted := sort_key sym_addr (ds_sorted d)\<rparr>"

definition ds_merge :: "debug_symbol \<Rightarrow> debug_symbol \<Rightarrow> debug_symbol" where
  "ds_merge self other =
     ds_sort (self\<lparr>ds_globals := ds_globals self ++ ds_globals other,
                   ds_sorted := ds_sorted self @ ds_sorted other\<rparr>)"

record debug_symbol_raw =
  raw_globals :: "symbol_def_raw list"
  raw_labels :: "symbol_def_raw list"

definition ds_of_raw :: "debug_symbol_raw \<Rightarrow> debug_symbol" where
  "ds_of_raw raw =
     \<lparr>ds_globals = map_of (rev (map (\<lambda>v. (sym_label v, v)) (raw_globals raw))),
      ds_sorted = raw_labels raw\<rparr>"

definition ds_get_global :: "debug_symbol \<Rightarrow> string \<Rightarrow> symbol_def_raw option" where
  "ds_get_global d k = ds_globals d k"

section \<open>Binary search\<close>

datatype search_result = Found nat | NotFound nat

text \<open>The loop of \<^verbatim>\<open>slice::binary_search_by\<close> on the interval from \<open>left\<close> to \<open>right\<close>.\<close>

function bsearch :: "(nat \<Rightarrow> u32) \<Rightarrow> u32 \<Rightarrow> nat \<Rightarrow> nat \<Rightarrow> search_result" where
  "bsearch key x left right =
     (if left < right then
        let mid = left + (right - left) div 2 in
        if key mid < x then bsearch key x (mid + 1) right
        else if key mid > x then bsearch key x left mid
        else Found mid
      else NotFound left)"
  by pat_completeness auto
termination
  by (relation "measure (\<lambda>(key, x, left, right). right - left)") auto

declare bsearch.simps [simp del]

definition binary_search :: "symbol_def_raw list \<Rightarrow> u32 \<Rightarrow> search_result" where
  "binary_search xs a = bsearch (\<lambda>i. sym_addr (xs ! i)) a 0 (length xs)"

lemma bsearch_spec:
  assumes "\<And>i j. i \<le> j \<Longrightarrow> j < n \<Longrightarrow> key i \<le> key j" and "left \<le> right" "right \<le> n"
    and "\<And>i. i < left \<Longrightarrow> key i < x" and "\<And>i. right \<le> i \<Longrightarrow> i < n \<Longrightarrow> x < key i"
  shows "case bsearch key x left right of
      Found i \<Rightarrow> i < n \<and> key i = x
    | NotFound i \<Rightarrow> i \<le> n \<and> (\<forall>j < i. key j < x) \<and> (\<forall>j. i \<le> j \<longrightarrow> j < n \<longrightarrow> x < key j)"
  using assms
proof (induction key x left right rule: bsearch.induct)
  case (1 key x left right)
  show ?case
  proof (cases "left < right")
    case False
    then show ?thesis using "1.prems" by (subst bsearch.simps) simp
  next
    case True
    define mid where "mid = left + (right - left) div 2"
    have mid: "left \<le> mid" "mid < right" using True by (auto simp: mid_def)
    consider "key mid < x" | "x < key mid" | "key mid = x" by fastforce
    then show ?thesis
    proof cases
      case 1
      have "case bsearch key x (mid + 1) right of
          Found i \<Rightarrow> i < n \<and> key i = x
        | NotFound i \<Rightarrow> i \<le> n \<and> (\<forall>j < i. key j < x) \<and> (\<forall>j. i \<le> j \<longrightarrow> j < n \<longrightarrow> x < key j)"
      proof (rule "1.IH"(1) [OF True mid_def])
        show "key mid < x" by fact
        show "key i < x" if "i < mid + 1" for i
        proof -
          have "key i \<le> key mid" using "1.prems"(1) [of i mid] that mid "1.prems"(3) by simp
          then show ?thesis using \<open>key mid < x\<close> by (rule le_less_trans)
        qed
      qed (use "1.prems" mid in auto)
      then show ?thesis using 1 True by (subst bsearch.simps) (simp add: Let_def flip: mid_def)
    next
      case 2
      have "case bsearch key x left mid of
          Found i \<Rightarrow> i < n \<and> key i = x
        | NotFound i \<Rightarrow> i \<le> n \<and> (\<forall>j < i. key j < x) \<and> (\<forall>j. i \<le> j \<longrightarrow> j < n \<longrightarrow> x < key j)"
      proof (rule "1.IH"(2) [OF True mid_def])
        show "\<not> key mid < x" "x < key mid" using 2 by auto
        show "x < key i" if "mid \<le> i" "i < n" for i
          using "1.prems"(1) [of mid i] that 2 by (meson order_less_le_trans)
      qed (use "1.prems" mid in auto)
      moreover have "\<not> key mid < x" using 2 by simp
      ultimately show ?thesis using 2 True by (subst bsearch.simps) (simp add: Let_def flip: mid_def)
    next
      case 3
      then show ?thesis
        using True mid "1.prems"(3) by (subst bsearch.simps) (simp add: Let_def flip: mid_def)
    qed
  qed
qed

lemma binary_search_spec:
  assumes "sorted (map sym_addr xs)"
  shows "case binary_search xs a of
      Found i \<Rightarrow> i < length xs \<and> sym_addr (xs ! i) = a
    | NotFound i \<Rightarrow> i \<le> length xs \<and> (\<forall>j < i. sym_addr (xs ! j) < a)
        \<and> (\<forall>j. i \<le> j \<longrightarrow> j < length xs \<longrightarrow> a < sym_addr (xs ! j))"
  unfolding binary_search_def
  by (rule bsearch_spec) (use assms in \<open>auto simp: sorted_iff_nth_mono\<close>)

section \<open>Lookups\<close>

definition get_nearest_symbol_addr :: "debug_symbol \<Rightarrow> u32 \<Rightarrow> (anyhow_error, nat) outcome" where
  "get_nearest_symbol_addr d a =
     (if ds_sorted d = [] then Err NoDebugSymbol
      else case binary_search (ds_sorted d) a of
        Found index \<Rightarrow> Ok index
      | NotFound index \<Rightarrow>
          if index < length (ds_sorted d) then
            if a < sym_addr (ds_sorted d ! index) then
              if index = 0 then Err (NoDebugInformation a) else Ok (index - 1)
            else Ok index
          else Panic IndexOutOfBounds)"

definition get_exact_symbol_addr :: "debug_symbol \<Rightarrow> u32 \<Rightarrow> (anyhow_error, nat) outcome" where
  "get_exact_symbol_addr d a =
     (if ds_sorted d = [] then Err NoDebugSymbol
      else case binary_search (ds_sorted d) a of Found index \<Rightarrow> Ok index | NotFound _ \<Rightarrow> Err SymbolNotAvailable)"

record symbol_def =
  sd_raw :: symbol_def_raw
  sd_size :: "u32 option"

definition get_symbol :: "build \<Rightarrow> debug_symbol \<Rightarrow> nat \<Rightarrow> ('e, symbol_def) outcome" where
  "get_symbol b d i =
     (if i < length (ds_sorted d) then
        let raw = ds_sorted d ! i in
        if i + 1 < length (ds_sorted d) then
          bind_out (sub_u32 b (sym_addr (ds_sorted d ! (i + 1))) (sym_addr raw)) (\<lambda>sz.
            Ok \<lparr>sd_raw = raw, sd_size = Some sz\<rparr>)
        else Ok \<lparr>sd_raw = raw, sd_size = None\<rparr>
      else Panic IndexOutOfBounds)"

text \<open>
  C23. Symbol lookup on a sorted table that is not empty, with its exact outcome in every case. Below
  the first symbol it reports that there is no debug information for the address. From the first to
  the last symbol it answers with a symbol that starts at or below the address and is followed by
  none that does. Above the last symbol it panics: the index past the end of the table is used.
\<close>
theorem nearest_symbol:
  assumes "sorted (map sym_addr (ds_sorted d))" "ds_sorted d \<noteq> []"
  shows "((\<forall>s \<in> set (ds_sorted d). a < sym_addr s) \<longrightarrow> get_nearest_symbol_addr d a = Err (NoDebugInformation a))
    \<and> ((\<exists>s \<in> set (ds_sorted d). sym_addr s \<le> a) \<and> (\<exists>s \<in> set (ds_sorted d). a \<le> sym_addr s) \<longrightarrow>
        (\<exists>i < length (ds_sorted d). get_nearest_symbol_addr d a = Ok i \<and> sym_addr (ds_sorted d ! i) \<le> a
          \<and> (\<forall>j < length (ds_sorted d). sym_addr (ds_sorted d ! i) < sym_addr (ds_sorted d ! j) \<longrightarrow> a < sym_addr (ds_sorted d ! j))))
    \<and> ((\<forall>s \<in> set (ds_sorted d). sym_addr s < a) \<longrightarrow> get_nearest_symbol_addr d a = Panic IndexOutOfBounds)"
proof (cases "binary_search (ds_sorted d) a")
  case (Found i)
  then have i: "i < length (ds_sorted d)" "sym_addr (ds_sorted d ! i) = a"
    using binary_search_spec [OF assms(1), of a] by simp_all
  then have "ds_sorted d ! i \<in> set (ds_sorted d)" by simp
  then show ?thesis using Found i by (auto simp: get_nearest_symbol_addr_def)
next
  case (NotFound i)
  let ?xs = "ds_sorted d"
  have spec: "i \<le> length ?xs" "\<forall>j < i. sym_addr (?xs ! j) < a"
    "\<forall>j. i \<le> j \<longrightarrow> j < length ?xs \<longrightarrow> a < sym_addr (?xs ! j)"
    using binary_search_spec [OF assms(1), of a] NotFound by simp_all
  have ends: "?xs ! 0 \<in> set ?xs" "0 < length ?xs" using assms(2) by simp_all
  consider "i = length ?xs" | "i < length ?xs" "i = 0" | "i < length ?xs" "0 < i" using spec(1) by linarith
  then show ?thesis
  proof cases
    case 1
    then have "\<forall>s \<in> set ?xs. sym_addr s < a" using spec(2) by (auto simp: in_set_conv_nth)
    then show ?thesis using 1 NotFound ends by (fastforce simp: get_nearest_symbol_addr_def)
  next
    case 2
    then have "\<forall>s \<in> set ?xs. a < sym_addr s" using spec(3) by (auto simp: in_set_conv_nth)
    then show ?thesis using 2 NotFound ends by (fastforce simp: get_nearest_symbol_addr_def)
  next
    case 3
    have after: "a < sym_addr (?xs ! j)" if "j < length ?xs" "sym_addr (?xs ! (i - 1)) < sym_addr (?xs ! j)" for j
    proof -
      have "\<not> j \<le> i - 1"
        using assms(1) that 3 by (metis sorted_iff_nth_mono length_map less_imp_diff_less nth_map not_less)
      then show ?thesis using spec(3) that(1) by simp
    qed
    have r: "get_nearest_symbol_addr d a = Ok (i - 1)" using 3 NotFound spec(3) assms(2) by (simp add: get_nearest_symbol_addr_def)
    have lo: "sym_addr (?xs ! (i - 1)) < a" "?xs ! (i - 1) \<in> set ?xs" and hi: "a < sym_addr (?xs ! i)" "?xs ! i \<in> set ?xs"
      using spec 3 by auto
    have "\<not> (\<forall>s \<in> set ?xs. a < sym_addr s)" using lo less_asym by blast
    moreover have "\<not> (\<forall>s \<in> set ?xs. sym_addr s < a)" using hi less_asym by blast
    moreover have "i - 1 < length ?xs" "sym_addr (?xs ! (i - 1)) \<le> a" using 3 lo by simp_all
    ultimately show ?thesis using r after by blast
  qed
qed

theorem nearest_symbol_witness:
  "get_nearest_symbol_addr \<lparr>ds_globals = Map.empty, ds_sorted = [\<lparr>sym_addr = 4, sym_label = ''main''\<rparr>]\<rparr> 8 = Panic IndexOutOfBounds
   \<and> get_nearest_symbol_addr \<lparr>ds_globals = Map.empty, ds_sorted = [\<lparr>sym_addr = 4, sym_label = ''main''\<rparr>]\<rparr> 2 = Err (NoDebugInformation 2)"
  using nearest_symbol [of "\<lparr>ds_globals = Map.empty, ds_sorted = [\<lparr>sym_addr = 4, sym_label = ''main''\<rparr>]\<rparr>" 8]
    nearest_symbol [of "\<lparr>ds_globals = Map.empty, ds_sorted = [\<lparr>sym_addr = 4, sym_label = ''main''\<rparr>]\<rparr>" 2]
  by simp

text \<open>
  Merging keeps the table searchable and loses nothing: the merged table is sorted by
  address, holds exactly the symbols of both, and a global of the new table wins.
\<close>
lemma merge_sorted:
  "sorted (map sym_addr (ds_sorted (ds_merge d e)))
   \<and> set (ds_sorted (ds_merge d e)) = set (ds_sorted d) \<union> set (ds_sorted e)
   \<and> length (ds_sorted (ds_merge d e)) = length (ds_sorted d) + length (ds_sorted e)
   \<and> ds_get_global (ds_merge d e) k
       = (case ds_get_global e k of Some v \<Rightarrow> Some v | None \<Rightarrow> ds_get_global d k)"
  by (auto simp: ds_merge_def ds_sort_def ds_get_global_def map_add_def split: option.split)

end
