(* ===== verification/Command.thy ===== *)
theory Command
  imports Peg Display Debug_Symbol
begin

text \<open>
  The command language of the debugger, \<^verbatim>\<open>cli/src/interactive.rs\<close>: the commands and, rule by
  rule, the grammar. Rules take the build profile (which registers exist) and the debug symbols
  (which global names are addresses).
\<close>

section \<open>Commands\<close>

datatype operation = Add | Remove

datatype watching_kind =
    WatchRegFile show_reg_file_kind
  | WatchReg regid
  | WatchFReg fregid
  | WatchMemAddr addr

datatype stat_kind = StatCpu

datatype show_kind =
    ShowPc
  | LabelDefNearPc bool
  | ShowStat stat_kind
  | AllBp
  | IsTraceEnabled
  | ShowWatchings
  | AddedSpy spy
  | RemovedSpy spy
  | ShowMemory addr
  | ShowRegFile show_reg_file_kind
  | RegisterI regid
  | RegisterF fregid

datatype static_command =
    UpdateWhetherTrace bool
  | Show show_kind
  | AddBp break_point
  | RemoveBp addr
  | Watch operation watching_kind
  | SpyCommand operation spy

datatype command = Dynamic "execute_mode option" | Static static_command | ExitCommand

section \<open>White space, numbers and names\<close>

definition is_ws :: "char \<Rightarrow> bool" where
  "is_ws c \<longleftrightarrow> c \<in> {CHR '' '', CHR 0x09, CHR 0x0D, CHR 0x0A}"

abbreviation ws0 :: "unit rule" where
  "ws0 \<equiv> peg_seq (many is_ws) (peg_ret ())"

abbreviation ws1 :: "unit rule" where
  "ws1 \<equiv> peg_seq (many1 is_ws) (peg_ret ())"

definition rule_unsigned :: "u32 rule" where
  "rule_unsigned = peg_bind (many1 is_digit) (\<lambda>n. peg_bind (number 10 (2 ^ 32) n) (\<lambda>v. peg_ret (word_of_nat v)))"

definition rule_usize :: "usize rule" where
  "rule_usize = peg_bind (many1 is_digit) (number 10 (2 ^ 64))"

definition rule_radix :: "usize rule" where
  "rule_radix =
     peg_or (peg_seq (lit ''0'') (peg_seq (char_class (\<lambda>c. c \<in> set ''xX''))
               (peg_bind (many1 is_hex_digit) (number 16 (2 ^ 64)))))
    (peg_or (peg_seq (lit ''0'') (peg_seq (char_class (\<lambda>c. c \<in> set ''dD''))
               (peg_bind (many1 is_digit) (number 10 (2 ^ 64)))))
            (peg_seq (lit ''0'') (peg_bind (many1 is_octal_digit) (number 8 (2 ^ 64)))))"

definition rule_ident :: "string rule" where
  "rule_ident =
     peg_bind (char_class is_ascii_alphabetic) (\<lambda>c.
     peg_bind (many (\<lambda>c. c = CHR ''_'' \<or> is_ascii_alphabetic c \<or> is_digit c)) (\<lambda>cs. peg_ret (c # cs)))"

definition rule_addr :: "debug_symbol \<Rightarrow> addr rule" where
  "rule_addr ds =
     peg_or (peg_bind rule_radix (\<lambda>r. peg_ret (Addr r)))
            (peg_bind rule_ident (\<lambda>k.
               peg_check (case ds_get_global ds k of
                            Some d \<Rightarrow> Ok (Addr (unat (sym_addr d))) | None \<Rightarrow> Err ())))"

definition rule_reg_name :: "build \<Rightarrow> regid rule" where
  "rule_reg_name b =
     peg_or (peg_bind rule_ident (\<lambda>i. peg_check (regid_try_from_str b i)))
            (peg_seq (lit ''x'') (peg_seq (peg_not ws1)
               (peg_bind rule_unsigned (\<lambda>n. peg_check (regid_try_from b n)))))"

definition rule_freg_name :: "build \<Rightarrow> fregid rule" where
  "rule_freg_name b =
     peg_or (peg_bind rule_ident (\<lambda>i. peg_check (fregid_try_from_str b i)))
            (peg_seq (lit ''f'') (peg_seq (peg_not ws1)
               (peg_bind rule_unsigned (\<lambda>n. peg_check (fregid_try_from b n)))))"

section \<open>Key words\<close>

definition rule_bp :: "unit rule" where
  "rule_bp = peg_or (lit ''bp'') (lit ''breakpoint'')"

definition rule_reg :: "unit rule" where
  "rule_reg = peg_or (lit ''register'') (lit ''reg'')"

definition rule_rm :: "unit rule" where
  "rule_rm = peg_or (lit ''rm'') (peg_or (lit ''remove'') (lit ''-=''))"

definition plural :: "unit rule" where
  "plural = peg_seq rule_reg (peg_seq (peg_opt (lit ''s'')) (peg_ret ()))"

definition rule_allregs :: "unit rule" where
  "rule_allregs = plural"

definition rule_iregs :: "unit rule" where
  "rule_iregs = peg_seq (peg_or (lit ''integer'') (peg_or (lit ''int'') (lit ''i''))) (peg_seq ws1 plural)"

definition rule_fregs :: "unit rule" where
  "rule_fregs =
     peg_seq (peg_or (peg_seq (lit ''floating'') (peg_seq ws1 (lit ''point'')))
                (peg_or (lit ''float'') (lit ''f'')))
       (peg_seq ws1 plural)"

definition rule_regfile_kind :: "show_reg_file_kind rule" where
  "rule_regfile_kind =
     peg_or (peg_seq rule_allregs (peg_ret RegFileAll))
    (peg_or (peg_seq rule_iregs (peg_ret RegFileI))
            (peg_seq rule_fregs (peg_ret RegFileF)))"

definition rule_mem :: "unit rule" where
  "rule_mem = peg_or (lit ''memory'') (lit ''mem'')"

definition rule_read :: "unit rule" where
  "rule_read = peg_or (lit ''read'') (lit ''r'')"

definition rule_write :: "unit rule" where
  "rule_write = peg_or (lit ''write'') (lit ''w'')"

definition rule_folded :: "bool rule" where
  "rule_folded =
     peg_or (peg_seq (lit ''fold'') (peg_seq (peg_opt (lit ''ed'')) (peg_ret True)))
    (peg_or (peg_seq (peg_or (peg_seq (lit ''unfold'') (peg_seq (peg_opt (lit ''ed'')) (peg_ret ()))) (lit ''full''))
               (peg_ret False))
            (peg_ret True))"

section \<open>Commands\<close>

definition rule_dyn_command :: "debug_symbol \<Rightarrow> execute_mode rule" where
  "rule_dyn_command ds =
     peg_or (peg_seq (lit ''skip'') (peg_seq ws1 (peg_seq (lit ''until'') (peg_seq ws1
               (peg_bind (rule_addr ds) (\<lambda>pc. peg_ret (SkipUntil pc)))))))
    (peg_or (peg_seq (lit ''run'') (peg_ret Run))
            (peg_seq (lit ''step'') (peg_seq ws1
               (peg_bind (peg_opt (peg_or rule_radix rule_usize)) (\<lambda>n. peg_ret (RunStep \<lparr>step = n\<rparr>))))))"

definition rule_watch_kind :: "build \<Rightarrow> debug_symbol \<Rightarrow> watching_kind rule" where
  "rule_watch_kind b ds =
     peg_or (peg_bind (rule_reg_name b) (\<lambda>r. peg_ret (WatchReg r)))
    (peg_or (peg_bind (rule_freg_name b) (\<lambda>r. peg_ret (WatchFReg r)))
    (peg_or (peg_bind (rule_addr ds) (\<lambda>a. peg_ret (WatchMemAddr a)))
            (peg_bind rule_regfile_kind (\<lambda>k. peg_ret (WatchRegFile k)))))"

definition rule_spy_kind :: "debug_symbol \<Rightarrow> spy_kind rule" where
  "rule_spy_kind ds =
     peg_seq rule_mem (peg_seq ws1 (peg_bind (rule_addr ds) (\<lambda>a.
       peg_ret (SpyMemory \<lparr>spy_addr = addr_inner a, expire_at = None\<rparr>))))"

definition rule_spy :: "debug_symbol \<Rightarrow> spy rule" where
  "rule_spy ds =
     peg_bind (peg_opt rule_read) (\<lambda>r.
     peg_bind (peg_opt rule_write) (\<lambda>w.
     peg_seq ws1 (peg_bind (rule_spy_kind ds) (\<lambda>target.
       let kind = (if r \<noteq> None then spy_read else 0);
           kind = (if w \<noteq> None then kind OR spy_write else kind)
       in peg_ret \<lparr>spy_watch = kind, spy_target = target\<rparr>))))"

definition rule_show_kind :: "build \<Rightarrow> debug_symbol \<Rightarrow> show_kind rule" where
  "rule_show_kind b ds =
     peg_or (peg_seq (lit ''pc'') (peg_ret ShowPc))
    (peg_or (peg_bind rule_regfile_kind (\<lambda>k. peg_ret (ShowRegFile k)))
    (peg_or (peg_seq rule_bp (peg_ret AllBp))
    (peg_or (peg_seq (peg_or (lit ''definition'') (lit ''def'')) (peg_seq ws1
               (peg_bind rule_folded (\<lambda>f. peg_ret (LabelDefNearPc f)))))
    (peg_or (peg_seq rule_mem (peg_seq ws1 (peg_bind (rule_addr ds) (\<lambda>a. peg_ret (ShowMemory a)))))
    (peg_or (peg_seq (lit ''stat'') (peg_ret (ShowStat StatCpu)))
    (peg_or (peg_bind (rule_reg_name b) (\<lambda>r. peg_ret (RegisterI r)))
            (peg_bind (rule_freg_name b) (\<lambda>r. peg_ret (RegisterF r)))))))))"

text \<open>As written, \<^verbatim>\<open>spy off\<close> yields \<^verbatim>\<open>Operation::Add\<close>.\<close>

definition rule_static_command :: "build \<Rightarrow> debug_symbol \<Rightarrow> static_command rule" where
  "rule_static_command b ds =
     peg_or (peg_seq (lit ''trace'') (peg_seq ws1 (peg_seq (lit ''off'') (peg_ret (UpdateWhetherTrace False)))))
    (peg_or (peg_seq (lit ''trace'') (peg_seq (peg_opt (peg_seq ws1 (lit ''on''))) (peg_ret (UpdateWhetherTrace True))))
    (peg_or (peg_seq rule_bp (peg_seq ws1 (peg_bind (rule_addr ds) (\<lambda>a. peg_ret (AddBp (break_point_new a))))))
    (peg_or (peg_seq rule_bp (peg_seq ws1 (peg_seq rule_rm (peg_seq ws1
               (peg_bind (rule_addr ds) (\<lambda>a. peg_ret (RemoveBp a)))))))
    (peg_or (peg_seq (lit ''watch'') (peg_seq ws1 (peg_bind (rule_watch_kind b ds) (\<lambda>wk. peg_ret (Watch Add wk)))))
    (peg_or (peg_seq (lit ''unwatch'') (peg_seq ws1 (peg_bind (rule_watch_kind b ds) (\<lambda>wk. peg_ret (Watch Remove wk)))))
    (peg_or (peg_seq (lit ''spy'') (peg_seq ws1 (peg_seq (peg_opt (peg_seq (lit ''on'') ws1))
               (peg_bind (rule_spy ds) (\<lambda>s. peg_ret (SpyCommand Add s))))))
    (peg_or (peg_seq (lit ''spy'') (peg_seq ws1 (peg_seq (lit ''off'') (peg_seq ws1
               (peg_bind (rule_spy ds) (\<lambda>s. peg_ret (SpyCommand Add s)))))))
            (peg_seq (lit ''show'') (peg_seq ws1 (peg_bind (rule_show_kind b ds) (\<lambda>k. peg_ret (Show k)))))))))))) "

definition rule_command :: "build \<Rightarrow> debug_symbol \<Rightarrow> command rule" where
  "rule_command b ds =
     peg_or (peg_seq ws0 (peg_bind (rule_static_command b ds) (\<lambda>s. peg_seq ws0 (peg_ret (Static s)))))
    (peg_or (peg_seq ws0 (peg_seq (lit ''exit'') (peg_seq ws0 (peg_ret ExitCommand))))
            (peg_seq ws0 (peg_bind (peg_opt (rule_dyn_command ds)) (\<lambda>d. peg_seq ws0 (peg_ret (Dynamic d))))))"

text \<open>A rule called from outside has to match the whole input.\<close>

definition parse_command :: "build \<Rightarrow> debug_symbol \<Rightarrow> string \<Rightarrow> (unit, command) outcome" where
  "parse_command b ds str =
     (case rule_command b ds str of
        Matched c rest \<Rightarrow> if rest = [] then Ok c else Err ()
      | NoMatch \<Rightarrow> Err ()
      | PegPanic x \<Rightarrow> Panic x)"

end
