(* ===== verification/Loops.thy ===== *)
theory Loops
  imports Sim_Prelude
begin

text \<open>
  Actions that contain a loop which may run forever: they take fuel and return \<open>None\<close> when it
  runs out, so that not returning is a value of its own.
\<close>

type_synonym ('s, 'e, 'a) looping = "'s \<Rightarrow> (('e, 'a) outcome \<times> 's) option"

definition once :: "('s, 'e, 'a) action \<Rightarrow> ('s, 'e, 'a) looping" where
  "once m s = Some (m s)"

definition then_do :: "('s, 'e, 'a) looping \<Rightarrow> ('a \<Rightarrow> ('s, 'e, 'b) looping) \<Rightarrow> ('s, 'e, 'b) looping" where
  "then_do m f s =
     (case m s of
        None \<Rightarrow> None
      | Some (Ok a, s') \<Rightarrow> f a s'
      | Some (Err e, s') \<Rightarrow> Some (Err e, s')
      | Some (Panic p, s') \<Rightarrow> Some (Panic p, s'))"

lemma then_do_Ok:
  "then_do m f s = Some (Ok b, s') \<longleftrightarrow> (\<exists>a t. m s = Some (Ok a, t) \<and> f a t = Some (Ok b, s'))"
  by (auto simp: then_do_def split: option.splits prod.splits outcome.splits)

lemma once_Ok: "once m s = Some (r, s') \<longleftrightarrow> m s = (r, s')"
  by (simp add: once_def)

text \<open>
  \<open>delivers P m Q\<close>: from every state the loop ends without a panic, and a value it returns
  satisfies \<open>Q\<close>.
\<close>

definition delivers :: "('s, 'e, 'a) looping \<Rightarrow> ('a \<Rightarrow> bool) \<Rightarrow> bool" where
  "delivers m Q \<longleftrightarrow>
     (\<forall>s. case m s of
        None \<Rightarrow> False
      | Some (Ok a, _) \<Rightarrow> Q a
      | Some (Err _, _) \<Rightarrow> True
      | Some (Panic _, _) \<Rightarrow> False)"

lemma delivers_then:
  assumes "delivers m Q" "\<And>a. Q a \<Longrightarrow> delivers (f a) R"
  shows "delivers (then_do m f) R"
  using assms unfolding delivers_def then_do_def
  by (fastforce split: option.splits prod.splits outcome.splits)

lemma delivers_weaken: "delivers m Q \<Longrightarrow> (\<And>a. Q a \<Longrightarrow> R a) \<Longrightarrow> delivers m R"
  unfolding delivers_def by (fastforce split: option.splits prod.splits outcome.splits)

lemma once_bind: "once (act_bind m f) = then_do (once m) (\<lambda>a. once (f a))"
  by (auto simp: fun_eq_iff once_def act_bind_def then_do_def split: prod.splits outcome.splits)

lemma delivers_ret: "Q a \<Longrightarrow> delivers (once (act_ret a)) Q"
  by (simp add: delivers_def once_def act_ret_def)

lemma delivers_modify: "Q () \<Longrightarrow> delivers (once (act_modify f)) Q"
  by (simp add: delivers_def once_def act_modify_def)

lemma delivers_lift: "\<not> is_panic r \<Longrightarrow> (\<And>a. r = Ok a \<Longrightarrow> Q a) \<Longrightarrow> delivers (once (act_lift r)) Q"
  by (cases r) (simp_all add: delivers_def once_def act_lift_def)

lemma delivers_bind:
  assumes "delivers (once m) Q" "\<And>a. Q a \<Longrightarrow> delivers (once (f a)) R"
  shows "delivers (once (act_bind m f)) R"
  unfolding once_bind using assms by (rule delivers_then)

end
