(* ===== verification/Bin.thy ===== *)
theory Bin
  imports Rust_Std
begin

text \<open>
  \<^verbatim>\<open>core_sim/src/bin.rs\<close>: the bit-field helpers of the decoders. The ranges are inclusive on
  both ends, as the source uses \<^verbatim>\<open>Range\<close>; the bounds are constants of at most 31 at every
  call, so bit positions are natural numbers here.
\<close>

section \<open>Definitions\<close>

definition bit_range :: "nat \<Rightarrow> nat \<Rightarrow> u32" where
  "bit_range first_bit last_bit =
     (let large = (if last_bit \<noteq> 31 then push_bit (last_bit + 1) 1 else 0) in large - push_bit first_bit 1)"

definition bit_range_lower :: "nat \<Rightarrow> u32" where
  "bit_range_lower index =
     (let large = (if index \<noteq> 31 then push_bit (index + 1) 1 else 0) in large - 1)"

definition sign_extend :: "nat \<Rightarrow> u32 \<Rightarrow> u32 \<Rightarrow> u32" where
  "sign_extend BIT sign imm = (if sign \<noteq> 0 then bit_range BIT 31 OR imm else imm)"

definition mask_bin :: "u32 \<Rightarrow> nat \<Rightarrow> nat \<Rightarrow> u32" where
  "mask_bin bin first_bit last_bit = bin AND bit_range first_bit last_bit"

definition mask_lower :: "u32 \<Rightarrow> nat \<Rightarrow> u32" where
  "mask_lower bin index = bin AND bit_range_lower index"

definition extract_bits :: "u32 \<Rightarrow> nat \<Rightarrow> nat \<Rightarrow> u32" where
  "extract_bits bin first_bit last_bit = drop_bit first_bit (mask_bin bin first_bit last_bit)"

definition at_bit :: "u32 \<Rightarrow> nat \<Rightarrow> u32" where
  "at_bit bin index = drop_bit index bin AND 1"

section \<open>Bit-level reading\<close>

lemma bit_range_eq:
  assumes "first_bit \<le> last_bit + 1" "last_bit \<le> 31"
  shows "bit_range first_bit last_bit = push_bit first_bit (mask (last_bit + 1 - first_bit))"
proof -
  have "bit_range first_bit last_bit = 2 ^ (last_bit + 1) - 2 ^ first_bit"
    by (auto simp: bit_range_def push_bit_eq_mult)
  also have "(2 :: u32) ^ (last_bit + 1) = 2 ^ first_bit * 2 ^ (last_bit + 1 - first_bit)"
    using assms by (subst power_add [symmetric]) simp
  finally show ?thesis
    by (simp add: push_bit_eq_mult mask_eq_exp_minus_1 algebra_simps)
qed

lemma bit_bit_range:
  assumes "first_bit \<le> last_bit + 1" "last_bit \<le> 31"
  shows "bit (bit_range first_bit last_bit) n \<longleftrightarrow> first_bit \<le> n \<and> n \<le> last_bit"
  using assms by (auto simp: bit_range_eq bit_simps)

lemma bit_range_lower_eq:
  assumes "index \<le> 31"
  shows "bit_range_lower index = mask (index + 1)"
proof -
  have "bit_range_lower index = bit_range 0 index"
    by (simp add: bit_range_def bit_range_lower_def)
  then show ?thesis using assms by (simp add: bit_range_eq)
qed

lemma mask_lower_eq:
  "index \<le> 31 \<Longrightarrow> mask_lower bin index = take_bit (index + 1) bin"
  by (simp add: mask_lower_def bit_range_lower_eq take_bit_eq_mask)

lemma bit_mask_bin:
  assumes "first_bit \<le> last_bit + 1" "last_bit \<le> 31"
  shows "bit (mask_bin bin first_bit last_bit) n \<longleftrightarrow> first_bit \<le> n \<and> n \<le> last_bit \<and> bit bin n"
  using assms by (auto simp: mask_bin_def bit_bit_range bit_simps)

lemma extract_bits_eq:
  assumes "first_bit \<le> last_bit" "last_bit \<le> 31"
  shows "extract_bits bin first_bit last_bit = take_bit (last_bit + 1 - first_bit) (drop_bit first_bit bin)"
  by (rule bit_word_eqI) (use assms in \<open>auto simp: extract_bits_def bit_mask_bin bit_simps\<close>)

lemma bit_extract:
  assumes "first_bit \<le> last_bit" "last_bit \<le> 31"
  shows "bit (extract_bits bin first_bit last_bit) n \<longleftrightarrow> n \<le> last_bit - first_bit \<and> bit bin (first_bit + n)"
  using assms by (auto simp: extract_bits_eq bit_simps dest: bit_imp_le_length)

lemma unat_extract_less:
  assumes "first_bit \<le> last_bit" "last_bit \<le> 31"
  shows "unat (extract_bits bin first_bit last_bit) < 2 ^ (last_bit + 1 - first_bit)"
proof -
  have "unat (extract_bits bin first_bit last_bit) = take_bit (last_bit + 1 - first_bit) (unat (drop_bit first_bit bin))"
    using assms by (simp add: extract_bits_eq unsigned_take_bit_eq)
  then show ?thesis by simp
qed

lemma at_bit_eq: "at_bit bin index = of_bool (bit bin index)"
  by (rule bit_word_eqI) (auto simp: at_bit_def bit_simps)

lemma at_bit_zero_iff [simp]: "at_bit bin index = 0 \<longleftrightarrow> \<not> bit bin index"
  by (simp add: at_bit_eq)

section \<open>Sign extension\<close>

lemma bit_sign_extend:
  assumes "BIT \<le> 31"
  shows "bit (sign_extend BIT sign imm) n \<longleftrightarrow> bit imm n \<or> (sign \<noteq> 0 \<and> BIT \<le> n \<and> n \<le> 31)"
  using assms by (auto simp: sign_extend_def bit_bit_range bit_simps)

lemma sign_extend_signed_take_bit:
  assumes "0 < BIT" "BIT \<le> 31" and "imm = take_bit BIT imm" and "sign \<noteq> 0 \<longleftrightarrow> bit imm (BIT - 1)"
  shows "sign_extend BIT sign imm = signed_take_bit (BIT - 1) imm"
proof (rule bit_word_eqI)
  fix n assume n: "n < LENGTH(32)"
  have hi: "bit imm k \<Longrightarrow> k < BIT" for k
    using assms(3) by (metis bit_take_bit_iff)
  show "bit (sign_extend BIT sign imm) n = bit (signed_take_bit (BIT - 1) imm) n"
  proof (cases "n < BIT")
    case True
    then have "min (BIT - 1) n = n" by simp
    with True n assms(2) show ?thesis by (simp add: bit_sign_extend bit_simps)
  next
    case False
    then have "min (BIT - 1) n = BIT - 1" using assms(1) by simp
    with False n assms hi [of n] show ?thesis by (auto simp: bit_sign_extend bit_simps)
  qed
qed

lemma sint_signed_take_bit:
  assumes "n < 31"
  shows "sint (signed_take_bit n (w :: u32)) = signed_take_bit n (sint w)"
  by (rule bit_eqI) (use assms in \<open>auto simp: bit_simps min_def\<close>)

end
