(* ===== verification/Instr.thy ===== *)
theory Instr
  imports Register
begin

text \<open>
  \<^verbatim>\<open>core_sim/src/instr.rs\<close>: instructions, generic in the types of their integer and float
  operands, their identifiers for the statistics, and their display. The enums of the source
  lose or gain variants with the \<^verbatim>\<open>isa_2nd\<close> feature; the datatypes here hold every variant
  and the \<open>..._variants\<close> lists say which ones a build has and in which order, which is what the
  discriminants and \<^verbatim>\<open>variant_count\<close> depend on.
\<close>

section \<open>Operation codes\<close>

datatype rinstr = RAdd | RSub | RXor | ROr | RAnd | RSll | RSra | RSlt | RMin | RMax
datatype iinstr = Addi | Xori | Ori | Andi | Slli | Slti | Lw | Jalr
datatype sinstr = Sw
datatype binstr = Beq | Bne | Blt | Bge | Bxor | Bxnor
datatype pinstr = Beqi | Bnei | Blti | Bgei | Bgti | Blei
datatype jinstr = Jal
datatype einstr = Fadd | Fsub | Fmul | Fdiv | Fsgnj | Fsgnjn | Fsgnjx
datatype ginstr = Fmadd | Fmsub | Fnmadd | Fnmsub
datatype hinstr = Fsqrt | Fhalf | Ffloor | Ffrac | Finv
datatype kinstr = Flt
datatype xinstr = Fitof
datatype yinstr = Fiszero | Fispos | Fisneg | Fftoi
datatype winstr = Fblt | Fbge
datatype vinstr = Fbeqz | Fbnez
datatype miscinstr = End

definition rinstr_variants :: "build \<Rightarrow> rinstr list" where
  "rinstr_variants b =
     (if isa_2nd b then [RAdd, RXor, RMin, RMax]
      else [RAdd, RSub, RXor, ROr, RAnd, RSll, RSra, RSlt])"

definition iinstr_variants :: "build \<Rightarrow> iinstr list" where
  "iinstr_variants b =
     [Addi, Xori] @ (if isa_2nd b then [] else [Ori, Andi]) @ [Slli]
       @ (if isa_2nd b then [] else [Slti]) @ [Lw, Jalr]"

definition sinstr_variants :: "build \<Rightarrow> sinstr list" where
  "sinstr_variants b = [Sw]"

definition binstr_variants :: "build \<Rightarrow> binstr list" where
  "binstr_variants b = [Beq, Bne, Blt, Bge] @ (if isa_2nd b then [Bxor, Bxnor] else [])"

definition pinstr_variants :: "build \<Rightarrow> pinstr list" where
  "pinstr_variants b = (if isa_2nd b then [Beqi, Bnei, Blti, Bgei, Bgti, Blei] else [])"

definition jinstr_variants :: "build \<Rightarrow> jinstr list" where
  "jinstr_variants b = [Jal]"

definition einstr_variants :: "build \<Rightarrow> einstr list" where
  "einstr_variants b = [Fadd, Fsub, Fmul, Fdiv, Fsgnj, Fsgnjn, Fsgnjx]"

definition ginstr_variants :: "build \<Rightarrow> ginstr list" where
  "ginstr_variants b = (if isa_2nd b then [Fmadd, Fmsub, Fnmadd, Fnmsub] else [])"

definition hinstr_variants :: "build \<Rightarrow> hinstr list" where
  "hinstr_variants b = [Fsqrt, Fhalf, Ffloor] @ (if isa_2nd b then [Ffrac, Finv] else [])"

definition kinstr_variants :: "build \<Rightarrow> kinstr list" where
  "kinstr_variants b = [Flt]"

definition xinstr_variants :: "build \<Rightarrow> xinstr list" where
  "xinstr_variants b = [Fitof]"

definition yinstr_variants :: "build \<Rightarrow> yinstr list" where
  "yinstr_variants b = [Fiszero, Fispos, Fisneg, Fftoi]"

definition winstr_variants :: "build \<Rightarrow> winstr list" where
  "winstr_variants b = [Fblt, Fbge]"

definition vinstr_variants :: "build \<Rightarrow> vinstr list" where
  "vinstr_variants b = [Fbeqz, Fbnez]"

lemmas variants_defs =
  rinstr_variants_def iinstr_variants_def sinstr_variants_def binstr_variants_def
  pinstr_variants_def jinstr_variants_def einstr_variants_def ginstr_variants_def
  hinstr_variants_def kinstr_variants_def xinstr_variants_def yinstr_variants_def
  winstr_variants_def vinstr_variants_def

text \<open>\<^verbatim>\<open>*instr as u8\<close>: the position of the variant.\<close>

fun discriminant :: "'v list \<Rightarrow> 'v \<Rightarrow> nat" where
  "discriminant [] v = 0"
| "discriminant (w # ws) v = (if w = v then 0 else 1 + discriminant ws v)"

text \<open>
  \<^verbatim>\<open>unchecked_transmute_from\<close>: the variant with a discriminant. An empty enum has no such
  constructor and the source writes \<^verbatim>\<open>unreachable!\<close>; out of range it is undefined behaviour
  in Rust, never reached because the callers hold validated identifiers, and a panic here.
\<close>

definition transmute_from :: "'v list \<Rightarrow> u8 \<Rightarrow> ('e, 'v) outcome" where
  "transmute_from vs d = (if unat d < length vs then Ok (vs ! unat d) else Panic Unreachable)"

section \<open>Instructions\<close>

datatype ('ir, 'iw, 'fw) ioinstr = Outb 'ir | Inw 'iw | Finw 'fw

datatype ('ir, 'iw, 'fr, 'fw) finstr =
    FInstr_E einstr 'fw 'fr 'fr
  | FInstr_G ginstr 'fw 'fr 'fr 'fr
  | FInstr_H hinstr 'fw 'fr
  | FInstr_K kinstr 'iw 'fr 'fr
  | FInstr_X xinstr 'fw 'ir
  | FInstr_Y yinstr 'iw 'fr
  | FInstr_W winstr 'fr 'fr u32
  | FInstr_V vinstr 'fr u32
  | Flw 'fw 'ir u32
  | Fsw 'fr 'ir u32

datatype ('ir, 'iw, 'fr, 'fw) instr =
    Instr_R rinstr 'iw 'ir 'ir
  | Instr_I iinstr 'iw 'ir u32
  | Instr_S sinstr 'ir 'ir u32
  | Instr_B binstr 'ir 'ir u32
  | Instr_P pinstr 'ir u32 u32
  | Instr_J jinstr 'iw u32
  | Instr_IO "('ir, 'iw, 'fw) ioinstr"
  | Instr_F "('ir, 'iw, 'fr, 'fw) finstr"
  | Instr_Misc miscinstr

type_synonym decoded_instr = "(regid, regid, fregid, fregid) instr"

text \<open>The variants a build can express: the well-typed instructions of that build.\<close>

fun finstr_in_build :: "build \<Rightarrow> ('ir, 'iw, 'fr, 'fw) finstr \<Rightarrow> bool" where
  "finstr_in_build b (FInstr_E i _ _ _) = (i \<in> set (einstr_variants b))"
| "finstr_in_build b (FInstr_G i _ _ _ _) = (i \<in> set (ginstr_variants b))"
| "finstr_in_build b (FInstr_H i _ _) = (i \<in> set (hinstr_variants b))"
| "finstr_in_build b (FInstr_K i _ _ _) = (i \<in> set (kinstr_variants b))"
| "finstr_in_build b (FInstr_X i _ _) = (i \<in> set (xinstr_variants b))"
| "finstr_in_build b (FInstr_Y i _ _) = (i \<in> set (yinstr_variants b))"
| "finstr_in_build b (FInstr_W i _ _ _) = (i \<in> set (winstr_variants b))"
| "finstr_in_build b (FInstr_V i _ _) = (i \<in> set (vinstr_variants b))"
| "finstr_in_build b (Flw _ _ _) = True"
| "finstr_in_build b (Fsw _ _ _) = True"

fun instr_in_build :: "build \<Rightarrow> ('ir, 'iw, 'fr, 'fw) instr \<Rightarrow> bool" where
  "instr_in_build b (Instr_R i _ _ _) = (i \<in> set (rinstr_variants b))"
| "instr_in_build b (Instr_I i _ _ _) = (i \<in> set (iinstr_variants b))"
| "instr_in_build b (Instr_S i _ _ _) = (i \<in> set (sinstr_variants b))"
| "instr_in_build b (Instr_B i _ _ _) = (i \<in> set (binstr_variants b))"
| "instr_in_build b (Instr_P i _ _ _) = (i \<in> set (pinstr_variants b))"
| "instr_in_build b (Instr_J i _ _) = (i \<in> set (jinstr_variants b))"
| "instr_in_build b (Instr_IO _) = True"
| "instr_in_build b (Instr_F f) = finstr_in_build b f"
| "instr_in_build b (Instr_Misc _) = True"

section \<open>Identifiers\<close>

datatype instr_id = InstrId (id_inner: u8)

definition instr_id_max :: nat where
  "instr_id_max = 15 * 8 + 3"

definition mk_id :: "u8 \<Rightarrow> nat \<Rightarrow> instr_id" where
  "mk_id upper lower = InstrId (push_bit 3 upper + word_of_nat lower)"

fun id_of_finstr :: "build \<Rightarrow> ('ir, 'iw, 'fr, 'fw) finstr \<Rightarrow> instr_id" where
  "id_of_finstr b (FInstr_E i _ _ _) = mk_id 7 (discriminant (einstr_variants b) i)"
| "id_of_finstr b (FInstr_G i _ _ _ _) = mk_id 8 (discriminant (ginstr_variants b) i)"
| "id_of_finstr b (FInstr_H i _ _) = mk_id 9 (discriminant (hinstr_variants b) i)"
| "id_of_finstr b (FInstr_K i _ _ _) = mk_id 10 (discriminant (kinstr_variants b) i)"
| "id_of_finstr b (FInstr_X i _ _) = mk_id 11 (discriminant (xinstr_variants b) i)"
| "id_of_finstr b (FInstr_Y i _ _) = mk_id 12 (discriminant (yinstr_variants b) i)"
| "id_of_finstr b (FInstr_W i _ _ _) = mk_id 13 (discriminant (winstr_variants b) i)"
| "id_of_finstr b (FInstr_V i _ _) = mk_id 14 (discriminant (vinstr_variants b) i)"
| "id_of_finstr b (Flw _ _ _) = mk_id 15 0"
| "id_of_finstr b (Fsw _ _ _) = mk_id 15 1"

fun id_of_instr :: "build \<Rightarrow> ('ir, 'iw, 'fr, 'fw) instr \<Rightarrow> instr_id" where
  "id_of_instr b (Instr_R i _ _ _) = mk_id 0 (discriminant (rinstr_variants b) i)"
| "id_of_instr b (Instr_I i _ _ _) = mk_id 1 (discriminant (iinstr_variants b) i)"
| "id_of_instr b (Instr_S i _ _ _) = mk_id 2 (discriminant (sinstr_variants b) i)"
| "id_of_instr b (Instr_B i _ _ _) = mk_id 3 (discriminant (binstr_variants b) i)"
| "id_of_instr b (Instr_P i _ _ _) = mk_id 4 (discriminant (pinstr_variants b) i)"
| "id_of_instr b (Instr_J i _ _) = mk_id 5 (discriminant (jinstr_variants b) i)"
| "id_of_instr b (Instr_IO io) = mk_id 6 (case io of Outb _ \<Rightarrow> 0 | Inw _ \<Rightarrow> 1 | Finw _ \<Rightarrow> 2)"
| "id_of_instr b (Instr_F f) = id_of_finstr b f"
| "id_of_instr b (Instr_Misc End) = mk_id 15 2"

definition instr_id_try_from :: "build \<Rightarrow> u8 \<Rightarrow> (unit, instr_id) outcome" where
  "instr_id_try_from b val =
     (let upper = unat (drop_bit 3 val); lower = unat (val AND 7);
          ok = (if upper = 0 then lower < length (rinstr_variants b)
                else if upper = 1 then lower < length (iinstr_variants b)
                else if upper = 2 then lower < length (sinstr_variants b)
                else if upper = 3 then lower < length (binstr_variants b)
                else if upper = 4 then lower < length (pinstr_variants b)
                else if upper = 5 then lower < length (jinstr_variants b)
                else if upper = 6 then lower < 3
                else if upper = 7 then lower < length (einstr_variants b)
                else if upper = 8 then lower < length (ginstr_variants b)
                else if upper = 9 then lower < length (hinstr_variants b)
                else if upper = 10 then lower < length (kinstr_variants b)
                else if upper = 11 then lower < length (xinstr_variants b)
                else if upper = 12 then lower < length (yinstr_variants b)
                else if upper = 13 then lower < length (winstr_variants b)
                else if upper = 14 then lower < length (vinstr_variants b)
                else if upper = 15 then lower < 3
                else False)
      in if ok then Ok (InstrId val) else Err ())"

section \<open>Display\<close>

fun show_rinstr :: "rinstr \<Rightarrow> string" where
  "show_rinstr RAdd = ''add''"
| "show_rinstr RSub = ''sub''"
| "show_rinstr RXor = ''xor''"
| "show_rinstr ROr = ''or''"
| "show_rinstr RAnd = ''and''"
| "show_rinstr RSll = ''sll''"
| "show_rinstr RSra = ''sra''"
| "show_rinstr RSlt = ''slt''"
| "show_rinstr RMin = ''min''"
| "show_rinstr RMax = ''max''"

fun show_iinstr :: "iinstr \<Rightarrow> string" where
  "show_iinstr Addi = ''addi''"
| "show_iinstr Xori = ''xori''"
| "show_iinstr Ori = ''ori''"
| "show_iinstr Andi = ''andi''"
| "show_iinstr Slli = ''slli''"
| "show_iinstr Slti = ''slti''"
| "show_iinstr Lw = ''lw''"
| "show_iinstr Jalr = ''jalr''"

fun show_sinstr :: "sinstr \<Rightarrow> string" where
  "show_sinstr Sw = ''sw''"

fun show_binstr :: "binstr \<Rightarrow> string" where
  "show_binstr Beq = ''beq''"
| "show_binstr Bne = ''bne''"
| "show_binstr Blt = ''blt''"
| "show_binstr Bge = ''bge''"
| "show_binstr Bxor = ''bxor''"
| "show_binstr Bxnor = ''bxnor''"

fun show_pinstr :: "pinstr \<Rightarrow> string" where
  "show_pinstr Beqi = ''beqi''"
| "show_pinstr Bnei = ''bnei''"
| "show_pinstr Blti = ''blti''"
| "show_pinstr Bgei = ''bgei''"
| "show_pinstr Bgti = ''bgti''"
| "show_pinstr Blei = ''blei''"

fun show_jinstr :: "jinstr \<Rightarrow> string" where
  "show_jinstr Jal = ''jal''"

fun show_einstr :: "einstr \<Rightarrow> string" where
  "show_einstr Fadd = ''fadd''"
| "show_einstr Fsub = ''fsub''"
| "show_einstr Fmul = ''fmul''"
| "show_einstr Fdiv = ''fdiv''"
| "show_einstr Fsgnj = ''fsgnj''"
| "show_einstr Fsgnjn = ''fsgnjn''"
| "show_einstr Fsgnjx = ''fsgnjx''"

fun show_ginstr :: "ginstr \<Rightarrow> string" where
  "show_ginstr Fmadd = ''fmadd''"
| "show_ginstr Fmsub = ''fmsub''"
| "show_ginstr Fnmadd = ''fnmadd''"
| "show_ginstr Fnmsub = ''fnmsub''"

fun show_hinstr :: "hinstr \<Rightarrow> string" where
  "show_hinstr Fsqrt = ''fsqrt''"
| "show_hinstr Fhalf = ''fhalf''"
| "show_hinstr Ffloor = ''ffloor''"
| "show_hinstr Ffrac = ''ffrac''"
| "show_hinstr Finv = ''finv''"

fun show_kinstr :: "kinstr \<Rightarrow> string" where
  "show_kinstr Flt = ''flt''"

fun show_xinstr :: "xinstr \<Rightarrow> string" where
  "show_xinstr Fitof = ''fitof''"

fun show_yinstr :: "yinstr \<Rightarrow> string" where
  "show_yinstr Fiszero = ''fiszero''"
| "show_yinstr Fispos = ''fispos''"
| "show_yinstr Fisneg = ''fisneg''"
| "show_yinstr Fftoi = ''fftoi''"

fun show_winstr :: "winstr \<Rightarrow> string" where
  "show_winstr Fblt = ''fblt''"
| "show_winstr Fbge = ''fbge''"

fun show_vinstr :: "vinstr \<Rightarrow> string" where
  "show_vinstr Fbeqz = ''fbeqz''"
| "show_vinstr Fbnez = ''fbnez''"

definition show_instr_id :: "build \<Rightarrow> instr_id \<Rightarrow> ('e, string) outcome" where
  "show_instr_id b i =
     (let upper = unat (drop_bit 3 (id_inner i)); lower = id_inner i AND 7
      in if upper = 0 then bind_out (transmute_from (rinstr_variants b) lower) (\<lambda>v. Ok (show_rinstr v))
         else if upper = 1 then bind_out (transmute_from (iinstr_variants b) lower) (\<lambda>v. Ok (show_iinstr v))
         else if upper = 2 then bind_out (transmute_from (sinstr_variants b) lower) (\<lambda>v. Ok (show_sinstr v))
         else if upper = 3 then bind_out (transmute_from (binstr_variants b) lower) (\<lambda>v. Ok (show_binstr v))
         else if upper = 4 then bind_out (transmute_from (pinstr_variants b) lower) (\<lambda>v. Ok (show_pinstr v))
         else if upper = 5 then bind_out (transmute_from (jinstr_variants b) lower) (\<lambda>v. Ok (show_jinstr v))
         else if upper = 6 then
           (if lower = 0 then Ok ''outb'' else if lower = 1 then Ok ''inw''
            else if lower = 2 then Ok ''finw'' else Panic Unreachable)
         else if upper = 7 then bind_out (transmute_from (einstr_variants b) lower) (\<lambda>v. Ok (show_einstr v))
         else if upper = 8 then bind_out (transmute_from (ginstr_variants b) lower) (\<lambda>v. Ok (show_ginstr v))
         else if upper = 9 then bind_out (transmute_from (hinstr_variants b) lower) (\<lambda>v. Ok (show_hinstr v))
         else if upper = 10 then bind_out (transmute_from (kinstr_variants b) lower) (\<lambda>v. Ok (show_kinstr v))
         else if upper = 11 then bind_out (transmute_from (xinstr_variants b) lower) (\<lambda>v. Ok (show_xinstr v))
         else if upper = 12 then bind_out (transmute_from (yinstr_variants b) lower) (\<lambda>v. Ok (show_yinstr v))
         else if upper = 13 then bind_out (transmute_from (winstr_variants b) lower) (\<lambda>v. Ok (show_winstr v))
         else if upper = 14 then bind_out (transmute_from (vinstr_variants b) lower) (\<lambda>v. Ok (show_vinstr v))
         else if upper = 15 then
           (if lower = 0 then Ok ''flw'' else if lower = 1 then Ok ''fsw''
            else if lower = 2 then Ok ''end'' else Panic Unreachable)
         else Panic Unreachable)"

text \<open>\<^verbatim>\<open>write!\<close> with several arguments: each is displayed in turn, a panic stops the display.\<close>

fun fmt_cat :: "('e, string) outcome list \<Rightarrow> ('e, string) outcome" where
  "fmt_cat [] = Ok []"
| "fmt_cat (x # xs) = bind_out x (\<lambda>s. bind_out (fmt_cat xs) (\<lambda>t. Ok (s @ t)))"

fun show_ioinstr ::
  "('ir \<Rightarrow> ('e, string) outcome) \<Rightarrow> ('iw \<Rightarrow> ('e, string) outcome) \<Rightarrow> ('fw \<Rightarrow> ('e, string) outcome)
    \<Rightarrow> ('ir, 'iw, 'fw) ioinstr \<Rightarrow> ('e, string) outcome" where
  "show_ioinstr ir iw fw (Outb rs) = fmt_cat [Ok ''outb '', ir rs]"
| "show_ioinstr ir iw fw (Inw rd) = fmt_cat [Ok ''inw '', iw rd]"
| "show_ioinstr ir iw fw (Finw rd) = fmt_cat [Ok ''finw '', fw rd]"

fun show_finstr ::
  "('ir \<Rightarrow> ('e, string) outcome) \<Rightarrow> ('iw \<Rightarrow> ('e, string) outcome)
    \<Rightarrow> ('fr \<Rightarrow> ('e, string) outcome) \<Rightarrow> ('fw \<Rightarrow> ('e, string) outcome)
    \<Rightarrow> ('ir, 'iw, 'fr, 'fw) finstr \<Rightarrow> ('e, string) outcome" where
  "show_finstr ir iw fr fw (FInstr_E i rd rs1 rs2) =
     fmt_cat [Ok (show_einstr i), Ok '' '', fw rd, Ok '', '', fr rs1, Ok '', '', fr rs2]"
| "show_finstr ir iw fr fw (FInstr_G i rd rs1 rs2 rs3) =
     fmt_cat [Ok (show_ginstr i), Ok '' '', fw rd, Ok '', '', fr rs1, Ok '', '', fr rs2,
       Ok '', '', fr rs3]"
| "show_finstr ir iw fr fw (FInstr_H i rd rs1) =
     fmt_cat [Ok (show_hinstr i), Ok '' '', fw rd, Ok '', '', fr rs1]"
| "show_finstr ir iw fr fw (FInstr_K i rd rs1 rs2) =
     fmt_cat [Ok (show_kinstr i), Ok '' '', iw rd, Ok '', '', fr rs1, Ok '', '', fr rs2]"
| "show_finstr ir iw fr fw (FInstr_X i rd rs1) =
     fmt_cat [Ok (show_xinstr i), Ok '' '', fw rd, Ok '', '', ir rs1]"
| "show_finstr ir iw fr fw (FInstr_Y i rd rs1) =
     fmt_cat [Ok (show_yinstr i), Ok '' '', iw rd, Ok '', '', fr rs1]"
| "show_finstr ir iw fr fw (FInstr_W i rs1 rs2 imm) =
     fmt_cat [Ok (show_winstr i), Ok '' '', fr rs1, Ok '', '', fr rs2, Ok '', '', Ok (show_u32 imm)]"
| "show_finstr ir iw fr fw (FInstr_V i rs1 imm) =
     fmt_cat [Ok (show_vinstr i), Ok '' '', fr rs1, Ok '', '', Ok (show_u32 imm)]"
| "show_finstr ir iw fr fw (Flw rd rs1 imm) =
     fmt_cat [Ok ''flw '', fw rd, Ok '', '', Ok (show_u32 imm), Ok ''('', ir rs1, Ok '')'']"
| "show_finstr ir iw fr fw (Fsw rs2 rs1 imm) =
     fmt_cat [Ok ''fsw '', fr rs2, Ok '', '', Ok (show_u32 imm), Ok ''('', ir rs1, Ok '')'']"

fun show_instr ::
  "('ir \<Rightarrow> ('e, string) outcome) \<Rightarrow> ('iw \<Rightarrow> ('e, string) outcome)
    \<Rightarrow> ('fr \<Rightarrow> ('e, string) outcome) \<Rightarrow> ('fw \<Rightarrow> ('e, string) outcome)
    \<Rightarrow> ('ir, 'iw, 'fr, 'fw) instr \<Rightarrow> ('e, string) outcome" where
  "show_instr ir iw fr fw (Instr_R i rd rs1 rs2) =
     fmt_cat [Ok (show_rinstr i), Ok '' '', iw rd, Ok '', '', ir rs1, Ok '', '', ir rs2]"
| "show_instr ir iw fr fw (Instr_I Lw rd rs1 imm) =
     fmt_cat [Ok (show_iinstr Lw), Ok '' '', iw rd, Ok '', '', Ok (show_i32 imm), Ok ''('', ir rs1,
       Ok '')'']"
| "show_instr ir iw fr fw (Instr_I i rd rs1 imm) =
     fmt_cat [Ok (show_iinstr i), Ok '' '', iw rd, Ok '', '', ir rs1, Ok '', '', Ok (show_i32 imm)]"
| "show_instr ir iw fr fw (Instr_S i rs1 rs2 imm) =
     fmt_cat [Ok (show_sinstr i), Ok '' '', ir rs2, Ok '', '', Ok (show_i32 imm), Ok ''('', ir rs1,
       Ok '')'']"
| "show_instr ir iw fr fw (Instr_B i rs1 rs2 imm) =
     fmt_cat [Ok (show_binstr i), Ok '' '', ir rs1, Ok '', '', ir rs2, Ok '', '', Ok (show_i32 imm)]"
| "show_instr ir iw fr fw (Instr_P i rs1 imm imm2) =
     fmt_cat [Ok (show_pinstr i), Ok '' '', ir rs1, Ok '', '', Ok (show_i32 imm2), Ok '', '',
       Ok (show_i32 imm)]"
| "show_instr ir iw fr fw (Instr_J i rd imm) =
     fmt_cat [Ok (show_jinstr i), Ok '' '', iw rd, Ok '', '', Ok (show_i32 imm)]"
| "show_instr ir iw fr fw (Instr_IO io) = show_ioinstr ir iw fw io"
| "show_instr ir iw fr fw (Instr_F f) = show_finstr ir iw fr fw f"
| "show_instr ir iw fr fw (Instr_Misc End) = Ok ''end''"

definition show_decoded_instr :: "build \<Rightarrow> decoded_instr \<Rightarrow> ('e, string) outcome" where
  "show_decoded_instr b =
     show_instr (show_regid b) (show_regid b) (show_fregid b) (show_fregid b)"

section \<open>Identifiers and mnemonics agree\<close>

fun finstr_mnemonic :: "('ir, 'iw, 'fr, 'fw) finstr \<Rightarrow> string" where
  "finstr_mnemonic (FInstr_E i _ _ _) = show_einstr i"
| "finstr_mnemonic (FInstr_G i _ _ _ _) = show_ginstr i"
| "finstr_mnemonic (FInstr_H i _ _) = show_hinstr i"
| "finstr_mnemonic (FInstr_K i _ _ _) = show_kinstr i"
| "finstr_mnemonic (FInstr_X i _ _) = show_xinstr i"
| "finstr_mnemonic (FInstr_Y i _ _) = show_yinstr i"
| "finstr_mnemonic (FInstr_W i _ _ _) = show_winstr i"
| "finstr_mnemonic (FInstr_V i _ _) = show_vinstr i"
| "finstr_mnemonic (Flw _ _ _) = ''flw''"
| "finstr_mnemonic (Fsw _ _ _) = ''fsw''"

fun mnemonic :: "('ir, 'iw, 'fr, 'fw) instr \<Rightarrow> string" where
  "mnemonic (Instr_R i _ _ _) = show_rinstr i"
| "mnemonic (Instr_I i _ _ _) = show_iinstr i"
| "mnemonic (Instr_S i _ _ _) = show_sinstr i"
| "mnemonic (Instr_B i _ _ _) = show_binstr i"
| "mnemonic (Instr_P i _ _ _) = show_pinstr i"
| "mnemonic (Instr_J i _ _) = show_jinstr i"
| "mnemonic (Instr_IO io) = (case io of Outb _ \<Rightarrow> ''outb'' | Inw _ \<Rightarrow> ''inw'' | Finw _ \<Rightarrow> ''finw'')"
| "mnemonic (Instr_F f) = finstr_mnemonic f"
| "mnemonic (Instr_Misc End) = ''end''"

lemma discriminant_less: "v \<in> set vs \<Longrightarrow> discriminant vs v < length vs"
  by (induction vs) auto

lemma nth_discriminant: "v \<in> set vs \<Longrightarrow> vs ! discriminant vs v = v"
  by (induction vs) auto

lemmas id_eval =
  show_instr_id_def instr_id_try_from_def instr_id_max_def mk_id_def transmute_from_def variants_defs
  Let_def

text \<open>What the statistics need of an identifier: it is in range, valid, and displays as the mnemonic.\<close>

definition id_ok :: "build \<Rightarrow> instr_id \<Rightarrow> string \<Rightarrow> bool" where
  "id_ok b i name \<longleftrightarrow>
     unat (id_inner i) < instr_id_max \<and> instr_id_try_from b (id_inner i) = Ok i
     \<and> show_instr_id b i = (Ok name :: (unit, string) outcome)"

lemma id_ok_finstr:
  assumes "finstr_in_build b f"
  shows "id_ok b (id_of_finstr b f) (finstr_mnemonic f)"
proof (cases f)
  case (FInstr_E i rd rs1 rs2)
  then show ?thesis by (cases i) (simp_all add: id_ok_def id_eval)
next
  case (FInstr_G i rd rs1 rs2 rs3)
  then show ?thesis using assms by (cases i) (auto simp: id_ok_def id_eval)
next
  case (FInstr_H i rd rs1)
  then show ?thesis using assms by (cases i) (auto simp: id_ok_def id_eval)
next
  case (FInstr_K i rd rs1 rs2)
  then show ?thesis by (cases i) (simp add: id_ok_def id_eval)
next
  case (FInstr_X i rd rs1)
  then show ?thesis by (cases i) (simp add: id_ok_def id_eval)
next
  case (FInstr_Y i rd rs1)
  then show ?thesis by (cases i) (simp_all add: id_ok_def id_eval)
next
  case (FInstr_W i rs1 rs2 imm)
  then show ?thesis by (cases i) (simp_all add: id_ok_def id_eval)
next
  case (FInstr_V i rs1 imm)
  then show ?thesis by (cases i) (simp_all add: id_ok_def id_eval)
qed (simp_all add: id_ok_def id_eval)

lemma id_ok_instr:
  assumes "instr_in_build b i"
  shows "id_ok b (id_of_instr b i) (mnemonic i)"
proof (cases i)
  case (Instr_R r rd rs1 rs2)
  then show ?thesis using assms by (cases r) (auto simp: id_ok_def id_eval split: if_splits)
next
  case (Instr_I r rd rs1 imm)
  then show ?thesis using assms by (cases r) (auto simp: id_ok_def id_eval split: if_splits)
next
  case (Instr_S r rs1 rs2 imm)
  then show ?thesis by (cases r) (simp add: id_ok_def id_eval)
next
  case (Instr_B r rs1 rs2 imm)
  then show ?thesis using assms by (cases r) (auto simp: id_ok_def id_eval split: if_splits)
next
  case (Instr_P r rs1 imm imm2)
  then show ?thesis using assms by (cases r) (auto simp: id_ok_def id_eval split: if_splits)
next
  case (Instr_J r rd imm)
  then show ?thesis by (cases r) (simp add: id_ok_def id_eval)
next
  case (Instr_IO io)
  then show ?thesis by (cases io) (simp_all add: id_ok_def id_eval)
next
  case (Instr_F f)
  then show ?thesis using assms id_ok_finstr [of b f] by simp
next
  case (Instr_Misc m)
  then show ?thesis by (cases m) (simp add: id_ok_def id_eval)
qed

text \<open>
  The statistics file every instruction a build can express under an identifier that is in
  range of the counter array, that \<^verbatim>\<open>InstrId::try_from\<close> accepts, and that displays as that
  instruction's own mnemonic; so two instructions share a counter only if they are the same
  operation.
\<close>

lemma instr_id_mnemonic:
  assumes "instr_in_build b i" and "instr_in_build b j"
  shows "unat (id_inner (id_of_instr b i)) < instr_id_max
     \<and> instr_id_try_from b (id_inner (id_of_instr b i)) = Ok (id_of_instr b i)
     \<and> show_instr_id b (id_of_instr b i) = (Ok (mnemonic i) :: (unit, string) outcome)
     \<and> (id_of_instr b i = id_of_instr b j \<longrightarrow> mnemonic i = mnemonic j)"
proof -
  have i: "id_ok b (id_of_instr b i) (mnemonic i)" and j: "id_ok b (id_of_instr b j) (mnemonic j)"
    by (rule id_ok_instr, rule assms)+
  then have "id_of_instr b i = id_of_instr b j \<Longrightarrow> mnemonic i = mnemonic j"
    by (auto simp: id_ok_def)
  with i show ?thesis by (simp add: id_ok_def)
qed

end
