(* ===== verification/Decode_Instr.thy ===== *)
theory Decode_Instr
  imports Bin Instr
begin

text \<open>
  \<^verbatim>\<open>core_sim/src/decode_instr.rs\<close>: the decoder of the first instruction set. The source is
  one \<^verbatim>\<open>match\<close> on the opcode; here each arm is a definition and \<open>decode_from_1st\<close> is the
  \<^verbatim>\<open>match\<close>. The local variables computed before the \<^verbatim>\<open>match\<close> are the field functions
  below.
\<close>

section \<open>Fields and immediates\<close>

definition d_opcode :: "u32 \<Rightarrow> u32" where "d_opcode bin = mask_lower bin 6"
definition d_rd :: "u32 \<Rightarrow> u32" where "d_rd bin = extract_bits bin 7 11"
definition d_funct3 :: "u32 \<Rightarrow> u32" where "d_funct3 bin = extract_bits bin 12 14"
definition d_rs1 :: "u32 \<Rightarrow> u32" where "d_rs1 bin = extract_bits bin 15 19"
definition d_rs2 :: "u32 \<Rightarrow> u32" where "d_rs2 bin = extract_bits bin 20 24"
definition d_funct7 :: "u32 \<Rightarrow> u32" where "d_funct7 bin = extract_bits bin 25 31"
definition d_imm :: "u32 \<Rightarrow> u32" where "d_imm bin = extract_bits bin 20 31"
definition d_sign :: "u32 \<Rightarrow> u32" where "d_sign bin = at_bit bin 31"

definition j_imm :: "u32 \<Rightarrow> u32 \<Rightarrow> u32" where
  "j_imm bin sign =
     (let part1 = extract_bits bin 12 19; part2 = at_bit bin 20; part3 = extract_bits bin 21 30;
          part4 = sign;
          imm = push_bit 12 part1 OR push_bit 11 part2 OR push_bit 1 part3 OR push_bit 20 part4
      in sign_extend 21 sign imm)"

definition i_imm :: "u32 \<Rightarrow> u32 \<Rightarrow> u32" where
  "i_imm sign imm = sign_extend 12 sign imm"

definition s_imm :: "u32 \<Rightarrow> u32 \<Rightarrow> u32" where
  "s_imm bin sign =
     (let imm = push_bit 5 (extract_bits bin 25 31) OR extract_bits bin 7 11
      in sign_extend 12 sign imm)"

definition b_imm :: "u32 \<Rightarrow> u32 \<Rightarrow> u32" where
  "b_imm bin sign =
     (let at_7 = at_bit bin 7; lower = extract_bits bin 8 11; upper = extract_bits bin 25 30;
          imm = push_bit 1 lower OR push_bit 5 upper OR push_bit 11 at_7 OR push_bit 12 sign
      in sign_extend 13 sign imm)"

section \<open>The arms of the decoder\<close>

definition invalid :: "u32 \<Rightarrow> (anyhow_error, 'a) outcome" where
  "invalid bin = Err (InvalidOpcode bin)"

definition decode_R :: "build \<Rightarrow> u32 \<Rightarrow> (anyhow_error, decoded_instr) outcome" where
  "decode_R b bin =
     (let funct3 = d_funct3 bin; funct7 = d_funct7 bin in
      bind_out (if funct3 = 0x0 \<and> funct7 = 0x00 then Ok RAdd
                else if funct3 = 0x0 \<and> funct7 = 0x20 then Ok RSub
                else if funct3 = 0x4 \<and> funct7 = 0x00 then Ok RXor
                else if funct3 = 0x6 \<and> funct7 = 0x00 then Ok ROr
                else if funct3 = 0x7 \<and> funct7 = 0x00 then Ok RAnd
                else if funct3 = 0x1 \<and> funct7 = 0x00 then Ok RSll
                else if funct3 = 0x5 \<and> funct7 = 0x20 then Ok RSra
                else if funct3 = 0x2 \<and> funct7 = 0x00 then Ok RSlt
                else invalid bin) (\<lambda>i.
      bind_out (regid_try_from b (d_rd bin)) (\<lambda>rd.
      bind_out (regid_try_from b (d_rs1 bin)) (\<lambda>rs1.
      bind_out (regid_try_from b (d_rs2 bin)) (\<lambda>rs2.
      Ok (Instr_R i rd rs1 rs2))))))"

definition decode_I :: "build \<Rightarrow> u32 \<Rightarrow> (anyhow_error, decoded_instr) outcome" where
  "decode_I b bin =
     (let funct3 = d_funct3 bin; funct7 = d_funct7 bin; imm = d_imm bin in
      bind_out (if funct3 = 0x0 then Ok (Addi, imm)
                else if funct3 = 0x4 then Ok (Xori, imm)
                else if funct3 = 0x6 then Ok (Ori, imm)
                else if funct3 = 0x7 then Ok (Andi, imm)
                else if funct3 = 0x1 \<and> funct7 = 0x00 then Ok (Slli, mask_bin imm 0 4)
                else invalid bin) (\<lambda>(i, imm).
      bind_out (regid_try_from b (d_rd bin)) (\<lambda>rd.
      bind_out (regid_try_from b (d_rs1 bin)) (\<lambda>rs1.
      Ok (Instr_I i rd rs1 (i_imm (d_sign bin) imm))))))"

definition decode_load :: "build \<Rightarrow> u32 \<Rightarrow> (anyhow_error, decoded_instr) outcome" where
  "decode_load b bin =
     bind_out (if d_funct3 bin = 0x2 then Ok Lw else invalid bin) (\<lambda>i.
     bind_out (regid_try_from b (d_rd bin)) (\<lambda>rd.
     bind_out (regid_try_from b (d_rs1 bin)) (\<lambda>rs1.
     Ok (Instr_I i rd rs1 (i_imm (d_sign bin) (d_imm bin))))))"

definition decode_jalr :: "build \<Rightarrow> u32 \<Rightarrow> (anyhow_error, decoded_instr) outcome" where
  "decode_jalr b bin =
     bind_out (if d_funct3 bin = 0x0 then Ok Jalr else invalid bin) (\<lambda>i.
     bind_out (regid_try_from b (d_rd bin)) (\<lambda>rd.
     bind_out (regid_try_from b (d_rs1 bin)) (\<lambda>rs1.
     Ok (Instr_I i rd rs1 (i_imm (d_sign bin) (d_imm bin))))))"

definition decode_S :: "build \<Rightarrow> u32 \<Rightarrow> (anyhow_error, decoded_instr) outcome" where
  "decode_S b bin =
     bind_out (if d_funct3 bin = 0x2 then Ok Sw else invalid bin) (\<lambda>i.
     bind_out (regid_try_from b (d_rs1 bin)) (\<lambda>rs1.
     bind_out (regid_try_from b (d_rs2 bin)) (\<lambda>rs2.
     Ok (Instr_S i rs1 rs2 (s_imm bin (d_sign bin))))))"

definition decode_B :: "build \<Rightarrow> u32 \<Rightarrow> (anyhow_error, decoded_instr) outcome" where
  "decode_B b bin =
     (let imm = b_imm bin (d_sign bin); funct3 = d_funct3 bin in
      bind_out (if funct3 = 0x0 then Ok Beq
                else if funct3 = 0x1 then Ok Bne
                else if funct3 = 0x4 then Ok Blt
                else if funct3 = 0x5 then Ok Bge
                else invalid bin) (\<lambda>i.
      bind_out (regid_try_from b (d_rs1 bin)) (\<lambda>rs1.
      bind_out (regid_try_from b (d_rs2 bin)) (\<lambda>rs2.
      Ok (Instr_B i rs1 rs2 imm)))))"

definition decode_jal :: "build \<Rightarrow> u32 \<Rightarrow> (anyhow_error, decoded_instr) outcome" where
  "decode_jal b bin =
     (let imm = j_imm bin (d_sign bin) in
      bind_out (regid_try_from b (d_rd bin)) (\<lambda>rd. Ok (Instr_J Jal rd imm)))"

definition decode_inw :: "build \<Rightarrow> u32 \<Rightarrow> (anyhow_error, decoded_instr) outcome" where
  "decode_inw b bin = bind_out (regid_try_from b (d_rd bin)) (\<lambda>rd. Ok (Instr_IO (Inw rd)))"

definition decode_outb :: "build \<Rightarrow> u32 \<Rightarrow> (anyhow_error, decoded_instr) outcome" where
  "decode_outb b bin = bind_out (regid_try_from b (d_rs1 bin)) (\<lambda>rs. Ok (Instr_IO (Outb rs)))"

definition decode_finw :: "build \<Rightarrow> u32 \<Rightarrow> (anyhow_error, decoded_instr) outcome" where
  "decode_finw b bin = bind_out (fregid_try_from b (d_rd bin)) (\<lambda>rd. Ok (Instr_IO (Finw rd)))"

text \<open>The F format with \<open>funct3 = 0\<close>, split by the three register shapes the source distinguishes.\<close>

definition decode_F_E :: "build \<Rightarrow> u32 \<Rightarrow> (anyhow_error, decoded_instr) outcome" where
  "decode_F_E b bin =
     (let funct7 = d_funct7 bin in
      bind_out (fregid_try_from b (d_rd bin)) (\<lambda>rd.
      bind_out (fregid_try_from b (d_rs1 bin)) (\<lambda>rs1.
      bind_out (fregid_try_from b (d_rs2 bin)) (\<lambda>rs2.
      bind_out (if funct7 = 0b0000 then Ok Fadd
                else if funct7 = 0b0100 then Ok Fsub
                else if funct7 = 0b1000 then Ok Fmul
                else if funct7 = 0b1100 then Ok Fdiv
                else if funct7 = 0b011000 then Ok Fsgnj
                else if funct7 = 0b011100 then Ok Fsgnjn
                else if funct7 = 0b100000 then Ok Fsgnjx
                else Panic Unreachable) (\<lambda>i.
      Ok (Instr_F (FInstr_E i rd rs1 rs2)))))))"

definition decode_F_H :: "build \<Rightarrow> u32 \<Rightarrow> (anyhow_error, decoded_instr) outcome" where
  "decode_F_H b bin =
     (let funct7 = d_funct7 bin in
      bind_out (fregid_try_from b (d_rd bin)) (\<lambda>rd.
      bind_out (fregid_try_from b (d_rs1 bin)) (\<lambda>rs1.
      bind_out (if funct7 = 0b10000 then Ok Fsqrt
                else if funct7 = 0b10100 then Ok Fhalf
                else if funct7 = 0b1000000 then Ok Ffloor
                else Panic Unreachable) (\<lambda>i.
      Ok (Instr_F (FInstr_H i rd rs1))))))"

definition decode_F_funct3 :: "build \<Rightarrow> u32 \<Rightarrow> (anyhow_error, decoded_instr) outcome" where
  "decode_F_funct3 b bin =
     (let funct3 = d_funct3 bin in
      if d_funct7 bin \<noteq> 0b1010001 then Panic AssertFailed
      else if funct3 AND 0b100 = 0 then
        bind_out (regid_try_from b (d_rd bin)) (\<lambda>rd.
        bind_out (fregid_try_from b (d_rs1 bin)) (\<lambda>rs1.
        bind_out (fregid_try_from b (d_rs2 bin)) (\<lambda>rs2.
        if funct3 = 0b001 then Ok (Instr_F (FInstr_K Flt rd rs1 rs2)) else invalid bin)))
      else
        bind_out (regid_try_from b (d_rd bin)) (\<lambda>rd.
        bind_out (fregid_try_from b (d_rs1 bin)) (\<lambda>rs1.
        bind_out (if funct3 = 0b100 then Ok Fiszero
                  else if funct3 = 0b101 then Ok Fispos
                  else if funct3 = 0b110 then Ok Fisneg
                  else invalid bin) (\<lambda>i.
        Ok (Instr_F (FInstr_Y i rd rs1))))))"

definition decode_F :: "build \<Rightarrow> u32 \<Rightarrow> (anyhow_error, decoded_instr) outcome" where
  "decode_F b bin =
     (let funct7 = d_funct7 bin in
      if d_funct3 bin = 0 then
        if funct7 \<in> {0b0000, 0b0100, 0b1000, 0b1100, 0b11000, 0b11100, 0b100000} then decode_F_E b bin
        else if funct7 \<in> {0b10000, 0b10100, 0b1000000} then decode_F_H b bin
        else if funct7 = 0b1000101 then
          bind_out (regid_try_from b (d_rd bin)) (\<lambda>rd.
          bind_out (fregid_try_from b (d_rs1 bin)) (\<lambda>rs1.
          Ok (Instr_F (FInstr_Y Fftoi rd rs1))))
        else if funct7 = 0b0100110 then
          bind_out (fregid_try_from b (d_rd bin)) (\<lambda>rd.
          bind_out (regid_try_from b (d_rs1 bin)) (\<lambda>rs1.
          Ok (Instr_F (FInstr_X Fitof rd rs1))))
        else invalid bin
      else decode_F_funct3 b bin)"

definition decode_VW :: "build \<Rightarrow> u32 \<Rightarrow> (anyhow_error, decoded_instr) outcome" where
  "decode_VW b bin =
     (let funct3 = d_funct3 bin in
      if funct3 AND 0b100 = 0 then
        bind_out (fregid_try_from b (d_rs1 bin)) (\<lambda>rs1.
        bind_out (fregid_try_from b (d_rs2 bin)) (\<lambda>rs2.
        let imm = b_imm bin (d_sign bin) in
        bind_out (if funct3 = 0b001 then Ok Fblt
                  else if funct3 = 0b010 then Ok Fbge
                  else invalid bin) (\<lambda>i.
        Ok (Instr_F (FInstr_W i rs1 rs2 imm)))))
      else
        bind_out (fregid_try_from b (d_rs1 bin)) (\<lambda>rs1.
        let imm = b_imm bin (d_sign bin) in
        bind_out (if funct3 = 0b100 then Ok Fbeqz
                  else if funct3 = 0b111 then Ok Fbnez
                  else invalid bin) (\<lambda>i.
        Ok (Instr_F (FInstr_V i rs1 imm)))))"

definition decode_flw :: "build \<Rightarrow> u32 \<Rightarrow> (anyhow_error, decoded_instr) outcome" where
  "decode_flw b bin =
     bind_out (fregid_try_from b (d_rd bin)) (\<lambda>rd.
     bind_out (regid_try_from b (d_rs1 bin)) (\<lambda>rs1.
     Ok (Instr_F (Flw rd rs1 (i_imm (d_sign bin) (d_imm bin))))))"

definition decode_fsw :: "build \<Rightarrow> u32 \<Rightarrow> (anyhow_error, decoded_instr) outcome" where
  "decode_fsw b bin =
     bind_out (regid_try_from b (d_rs1 bin)) (\<lambda>rs1.
     bind_out (fregid_try_from b (d_rs2 bin)) (\<lambda>rs2.
     Ok (Instr_F (Fsw rs2 rs1 (s_imm bin (d_sign bin))))))"

definition decode_from_1st :: "build \<Rightarrow> u32 \<Rightarrow> (anyhow_error, decoded_instr) outcome" where
  "decode_from_1st b bin =
     (if bin = 0 then Ok (Instr_Misc End)
      else let opcode = d_opcode bin in
        if opcode = 0b0110011 then decode_R b bin
        else if opcode = 0b0010011 then decode_I b bin
        else if opcode = 0b0000011 then decode_load b bin
        else if opcode = 0b1100111 then decode_jalr b bin
        else if opcode = 0b0100011 then decode_S b bin
        else if opcode = 0b1100011 then decode_B b bin
        else if opcode = 0b1101111 then decode_jal b bin
        else if opcode = 0b0001011 then decode_inw b bin
        else if opcode = 0b0101011 then decode_outb b bin
        else if opcode = 0b0001111 then decode_finw b bin
        else if opcode = 0b1010011 then decode_F b bin
        else if opcode = 0b1010111 then decode_VW b bin
        else if opcode = 0b0000111 then decode_flw b bin
        else if opcode = 0b0100111 then decode_fsw b bin
        else invalid bin)"

lemmas decode_arms_defs =
  decode_R_def decode_I_def decode_load_def decode_jalr_def decode_S_def decode_B_def
  decode_jal_def decode_inw_def decode_outb_def decode_finw_def decode_F_def decode_F_E_def
  decode_F_H_def decode_F_funct3_def decode_VW_def decode_flw_def decode_fsw_def

section \<open>Register fields are registers\<close>

definition reg_ok :: "build \<Rightarrow> regid \<Rightarrow> bool" where
  "reg_ok b r \<longleftrightarrow> reg_inner r < max_reg_id b"

definition freg_ok :: "build \<Rightarrow> fregid \<Rightarrow> bool" where
  "freg_ok b r \<longleftrightarrow> freg_inner r < max_reg_id b"

text \<open>An instruction all of whose operands name registers of the machine.\<close>

definition operands_ok :: "build \<Rightarrow> decoded_instr \<Rightarrow> bool" where
  "operands_ok b = pred_instr (reg_ok b) (reg_ok b) (freg_ok b) (freg_ok b)"

lemma push_bit_width: "unat (push_bit (reg_bit_width b + 1) (1 :: u32)) = 2 * max_reg_id b"
  by (simp add: reg_bit_width_def max_reg_id_def push_bit_eq_mult)

lemma regid_try_from_field [simp]:
  assumes "unat x < max_reg_id b"
  shows "regid_try_from b x = Ok (RegId (ucast x))"
    and "fregid_try_from b x = Ok (FRegId (ucast x))"
proof -
  have "\<not> push_bit (reg_bit_width b + 1) 1 \<le> x"
    unfolding word_le_nat_alt push_bit_width using assms by simp
  then show "regid_try_from b x = Ok (RegId (ucast x))"
    and "fregid_try_from b x = Ok (FRegId (ucast x))"
    by (simp_all add: regid_try_from_def fregid_try_from_def)
qed

lemma reg_ok_field [simp]:
  fixes x :: u32
  assumes "unat x < max_reg_id b"
  shows "reg_ok b (RegId (ucast x))" "freg_ok b (FRegId (ucast x))"
proof -
  have "unat x < 256" using assms max_reg_id_le [of b] by simp
  then show "reg_ok b (RegId (ucast x))" "freg_ok b (FRegId (ucast x))"
    using assms by (simp_all add: reg_ok_def freg_ok_def unat_ucast_u8)
qed

lemma d_regs_less [simp]:
  "unat (d_rd bin) < max_reg_id b" "unat (d_rs1 bin) < max_reg_id b" "unat (d_rs2 bin) < max_reg_id b"
  using max_reg_id_ge [of b] unat_extract_less [of 7 11 bin] unat_extract_less [of 15 19 bin]
    unat_extract_less [of 20 24 bin]
  by (simp_all add: d_rd_def d_rs1_def d_rs2_def)

lemma invalid_simps [simp]: "invalid bin \<noteq> Ok i" "invalid bin \<noteq> Panic q" "bind_out (invalid bin) f = invalid bin"
  by (simp_all add: invalid_def)

text \<open>
  What every arm establishes: a well-formed instruction of the build, or the decoding error for
  this word.
\<close>

definition decodes_well :: "build \<Rightarrow> u32 \<Rightarrow> (anyhow_error, decoded_instr) outcome \<Rightarrow> bool" where
  "decodes_well b bin r \<longleftrightarrow>
     (case r of Ok i \<Rightarrow> instr_in_build b i \<and> operands_ok b i | Err e \<Rightarrow> e = InvalidOpcode bin
      | Panic q \<Rightarrow> False)"

lemma decodes_well_simps [simp]:
  "decodes_well b bin (Ok i) \<longleftrightarrow> instr_in_build b i \<and> operands_ok b i"
  "decodes_well b bin (invalid bin)"
  by (simp_all add: decodes_well_def invalid_def)

lemma decodes_well_arms:
  assumes "\<not> isa_2nd b"
  shows "decodes_well b bin (decode_R b bin)" "decodes_well b bin (decode_I b bin)"
    "decodes_well b bin (decode_load b bin)" "decodes_well b bin (decode_jalr b bin)"
    "decodes_well b bin (decode_S b bin)" "decodes_well b bin (decode_B b bin)"
    "decodes_well b bin (decode_jal b bin)" "decodes_well b bin (decode_inw b bin)"
    "decodes_well b bin (decode_outb b bin)" "decodes_well b bin (decode_finw b bin)"
    "decodes_well b bin (decode_VW b bin)" "decodes_well b bin (decode_flw b bin)"
    "decodes_well b bin (decode_fsw b bin)"
  using assms
  by (simp_all add: decode_arms_defs Let_def operands_ok_def variants_defs)

lemma decodes_well_F:
  assumes "\<not> isa_2nd b" and "d_funct3 bin = 0 \<or> d_funct7 bin = 0b1010001"
  shows "decodes_well b bin (decode_F b bin)"
  using assms
  by (auto simp: decode_F_def decode_F_E_def decode_F_H_def decode_F_funct3_def Let_def
      operands_ok_def variants_defs)

text \<open>The only panic: the assertion on \<open>funct7\<close> in the comparison group of the F format.\<close>

definition decode_asserts :: "u32 \<Rightarrow> bool" where
  "decode_asserts bin \<longleftrightarrow>
     d_opcode bin = 0b1010011 \<and> d_funct3 bin \<noteq> 0 \<and> d_funct7 bin \<noteq> 0b1010001"

lemma decode_from_1st_asserts:
  assumes "decode_asserts bin"
  shows "decode_from_1st b bin = Panic AssertFailed"
proof -
  have "bin \<noteq> 0" using assms by (auto simp: decode_asserts_def d_opcode_def mask_lower_def)
  then show ?thesis
    using assms by (simp add: decode_asserts_def decode_from_1st_def decode_F_def decode_F_funct3_def Let_def)
qed

lemma decode_from_1st_well:
  assumes "\<not> isa_2nd b" and "\<not> decode_asserts bin"
  shows "decodes_well b bin (decode_from_1st b bin)"
  using assms(2)
  by (simp add: decode_from_1st_def Let_def decodes_well_arms [OF assms(1)] decodes_well_F [OF assms(1)]
      decode_asserts_def operands_ok_def)

end
