(* ===== verification/Decode_Instr_2nd.thy ===== *)
theory Decode_Instr_2nd
  imports Decode_Instr
begin

text \<open>
  \<^verbatim>\<open>core_sim/src/decode_instr_2nd.rs\<close>: the decoder of the second instruction set (64
  registers of each kind, four opcode bits), and \<open>decode_from\<close>, the decoder a build is compiled
  with.
\<close>

section \<open>Fields and immediates\<close>

definition d2_opcode :: "u32 \<Rightarrow> u32" where "d2_opcode bin = mask_lower bin 3"
definition d2_rd :: "u32 \<Rightarrow> u32" where "d2_rd bin = extract_bits bin 4 9"
definition d2_funct3 :: "u32 \<Rightarrow> u32" where "d2_funct3 bin = extract_bits bin 10 12"
definition d2_rs1 :: "u32 \<Rightarrow> u32" where "d2_rs1 bin = extract_bits bin 13 18"
definition d2_rs2 :: "u32 \<Rightarrow> u32" where "d2_rs2 bin = extract_bits bin 19 24"
definition d2_funct7 :: "u32 \<Rightarrow> u32" where "d2_funct7 bin = extract_bits bin 25 31"
definition d2_imm_11_6 :: "u32 \<Rightarrow> u32" where "d2_imm_11_6 bin = extract_bits bin 25 30"
definition d2_sign :: "u32 \<Rightarrow> u32" where "d2_sign bin = at_bit bin 31"

definition compose_3 :: "u32 \<Rightarrow> u32 \<Rightarrow> u32 \<Rightarrow> u32" where
  "compose_3 sign imm_11_6 imm_5_0 =
     (let imm = push_bit 6 imm_11_6 OR imm_5_0 in sign_extend 12 sign imm)"

definition compose_4 :: "u32 \<Rightarrow> u32 \<Rightarrow> u32 \<Rightarrow> u32" where
  "compose_4 sign imm_11_6 imm_5_2_13_12 =
     (let imm_13_12 = mask_bin imm_5_2_13_12 0 1;
          imm = push_bit 12 imm_13_12 OR push_bit 6 imm_11_6 OR mask_bin imm_5_2_13_12 2 5
      in sign_extend 14 sign imm)"

definition compose_6 :: "u32 \<Rightarrow> u32 \<Rightarrow> u32 \<Rightarrow> u32 \<Rightarrow> u32 \<Rightarrow> u32" where
  "compose_6 sign imm_11_6 imm_5_2_13_12 imm_22_17 imm_16_14 =
     (let imm_13_12 = mask_bin imm_5_2_13_12 0 1;
          imm = push_bit 17 imm_22_17 OR push_bit 14 imm_16_14 OR push_bit 12 imm_13_12
                  OR push_bit 6 imm_11_6 OR mask_bin imm_5_2_13_12 2 5
      in sign_extend 23 sign imm)"

section \<open>The arms of the decoder\<close>

definition decode2_R :: "build \<Rightarrow> u32 \<Rightarrow> (anyhow_error, decoded_instr) outcome" where
  "decode2_R b bin =
     (let funct3 = d2_funct3 bin in
      bind_out (if funct3 = 0x0 then Ok RAdd
                else if funct3 = 0x4 then Ok RXor
                else if funct3 = 0x1 then Ok RMin
                else if funct3 = 0x3 then Ok RMax
                else invalid bin) (\<lambda>i.
      bind_out (regid_try_from b (d2_rd bin)) (\<lambda>rd.
      bind_out (regid_try_from b (d2_rs1 bin)) (\<lambda>rs1.
      bind_out (regid_try_from b (d2_rs2 bin)) (\<lambda>rs2.
      Ok (Instr_R i rd rs1 rs2))))))"

definition decode2_I :: "build \<Rightarrow> u32 \<Rightarrow> (anyhow_error, decoded_instr) outcome" where
  "decode2_I b bin =
     (let funct3 = d2_funct3 bin in
      bind_out (if funct3 = 0x0 then Ok Addi
                else if funct3 = 0x4 then Ok Xori
                else if funct3 = 0x2 then Ok Slli
                else invalid bin) (\<lambda>i.
      bind_out (regid_try_from b (d2_rd bin)) (\<lambda>rd.
      bind_out (regid_try_from b (d2_rs1 bin)) (\<lambda>rs1.
      let imm = compose_3 (d2_sign bin) (d2_imm_11_6 bin) (d2_rs2 bin) in
      Ok (Instr_I i rd rs1 imm)))))"

definition decode2_load :: "build \<Rightarrow> u32 \<Rightarrow> (anyhow_error, decoded_instr) outcome" where
  "decode2_load b bin =
     bind_out (regid_try_from b (d2_rd bin)) (\<lambda>rd.
     bind_out (regid_try_from b (d2_rs1 bin)) (\<lambda>rs1.
     let imm = compose_3 (d2_sign bin) (d2_imm_11_6 bin) (d2_rs2 bin) in
     Ok (Instr_I Lw rd rs1 imm)))"

definition decode2_jalr :: "build \<Rightarrow> u32 \<Rightarrow> (anyhow_error, decoded_instr) outcome" where
  "decode2_jalr b bin =
     bind_out (if d2_funct3 bin = 0x0 then Ok Jalr else invalid bin) (\<lambda>i.
     bind_out (regid_try_from b (d2_rd bin)) (\<lambda>rd.
     bind_out (regid_try_from b (d2_rs1 bin)) (\<lambda>rs1.
     let imm = compose_3 (d2_sign bin) (d2_imm_11_6 bin) (d2_rs2 bin) in
     Ok (Instr_I i rd rs1 imm))))"

definition decode2_S :: "build \<Rightarrow> u32 \<Rightarrow> (anyhow_error, decoded_instr) outcome" where
  "decode2_S b bin =
     bind_out (regid_try_from b (d2_rs1 bin)) (\<lambda>rs1.
     bind_out (regid_try_from b (d2_rs2 bin)) (\<lambda>rs2.
     let imm = compose_3 (d2_sign bin) (d2_imm_11_6 bin) (d2_rd bin) in
     Ok (Instr_S Sw rs1 rs2 imm)))"

definition decode2_B :: "build \<Rightarrow> u32 \<Rightarrow> (anyhow_error, decoded_instr) outcome" where
  "decode2_B b bin =
     (let funct3 = d2_funct3 bin in
      bind_out (if funct3 = 0x0 then Ok Beq
                else if funct3 = 0x1 then Ok Bne
                else if funct3 = 0x4 then Ok Blt
                else if funct3 = 0x5 then Ok Bge
                else if funct3 = 0x2 then Ok Bxor
                else if funct3 = 0x3 then Ok Bxnor
                else invalid bin) (\<lambda>i.
      bind_out (regid_try_from b (d2_rs1 bin)) (\<lambda>rs1.
      bind_out (regid_try_from b (d2_rs2 bin)) (\<lambda>rs2.
      let imm = compose_4 (d2_sign bin) (d2_imm_11_6 bin) (d2_rd bin) in
      Ok (Instr_B i rs1 rs2 imm)))))"

definition decode2_P :: "build \<Rightarrow> u32 \<Rightarrow> (anyhow_error, decoded_instr) outcome" where
  "decode2_P b bin =
     (let funct3 = d2_funct3 bin; rs2 = d2_rs2 bin in
      bind_out (if funct3 = 0x0 then Ok Beqi
                else if funct3 = 0x1 then Ok Bnei
                else if funct3 = 0x4 then Ok Blti
                else if funct3 = 0x5 then Ok Bgei
                else if funct3 = 0x6 then Ok Bgti
                else if funct3 = 0x7 then Ok Blei
                else invalid bin) (\<lambda>i.
      bind_out (regid_try_from b (d2_rs1 bin)) (\<lambda>rs1.
      let imm2 = sign_extend 5 (at_bit rs2 5) rs2;
          imm = compose_4 (d2_sign bin) (d2_imm_11_6 bin) (d2_rd bin) in
      Ok (Instr_P i rs1 imm imm2))))"

definition decode2_jal :: "build \<Rightarrow> u32 \<Rightarrow> (anyhow_error, decoded_instr) outcome" where
  "decode2_jal b bin =
     (let imm = compose_6 (d2_sign bin) (d2_imm_11_6 bin) (d2_rs2 bin) (d2_rs1 bin) (d2_funct3 bin) in
      bind_out (regid_try_from b (d2_rd bin)) (\<lambda>rd. Ok (Instr_J Jal rd imm)))"

definition decode2_IO :: "build \<Rightarrow> u32 \<Rightarrow> (anyhow_error, decoded_instr) outcome" where
  "decode2_IO b bin =
     (let funct3 = d2_funct3 bin in
      if funct3 = 0b001 then
        bind_out (regid_try_from b (d2_rd bin)) (\<lambda>rd. Ok (Instr_IO (Inw rd)))
      else if funct3 = 0b010 then
        bind_out (regid_try_from b (d2_rs1 bin)) (\<lambda>rs. Ok (Instr_IO (Outb rs)))
      else if funct3 = 0b100 then
        bind_out (fregid_try_from b (d2_rd bin)) (\<lambda>rd. Ok (Instr_IO (Finw rd)))
      else invalid bin)"

definition decode2_F_E :: "build \<Rightarrow> u32 \<Rightarrow> u32 \<Rightarrow> (anyhow_error, decoded_instr) outcome" where
  "decode2_F_E b bin funct5 =
     bind_out (fregid_try_from b (d2_rd bin)) (\<lambda>rd.
     bind_out (fregid_try_from b (d2_rs1 bin)) (\<lambda>rs1.
     bind_out (fregid_try_from b (d2_rs2 bin)) (\<lambda>rs2.
     bind_out (if funct5 = 0b0000 then Ok Fadd
               else if funct5 = 0b0001 then Ok Fsub
               else if funct5 = 0b0010 then Ok Fmul
               else if funct5 = 0b0011 then Ok Fdiv
               else if funct5 = 0b0110 then Ok Fsgnj
               else if funct5 = 0b0111 then Ok Fsgnjn
               else if funct5 = 0b1000 then Ok Fsgnjx
               else Panic Unreachable) (\<lambda>i.
     Ok (Instr_F (FInstr_E i rd rs1 rs2))))))"

definition decode2_F_H :: "build \<Rightarrow> u32 \<Rightarrow> u32 \<Rightarrow> (anyhow_error, decoded_instr) outcome" where
  "decode2_F_H b bin funct5 =
     bind_out (fregid_try_from b (d2_rd bin)) (\<lambda>rd.
     bind_out (fregid_try_from b (d2_rs1 bin)) (\<lambda>rs1.
     bind_out (if funct5 = 0b00100 then Ok Fsqrt
               else if funct5 = 0b00101 then Ok Fhalf
               else if funct5 = 0b01100 then Ok Ffrac
               else if funct5 = 0b01011 then Ok Finv
               else if funct5 = 0b01001 then Ok Ffloor
               else Panic Unreachable) (\<lambda>i.
     Ok (Instr_F (FInstr_H i rd rs1)))))"

definition decode2_F_G :: "build \<Rightarrow> u32 \<Rightarrow> (anyhow_error, decoded_instr) outcome" where
  "decode2_F_G b bin =
     (let funct3 = d2_funct3 bin in
      bind_out (fregid_try_from b (d2_rd bin)) (\<lambda>rd.
      bind_out (fregid_try_from b (d2_rs1 bin)) (\<lambda>rs1.
      bind_out (fregid_try_from b (d2_rs2 bin)) (\<lambda>rs2.
      bind_out (fregid_try_from b (d2_imm_11_6 bin)) (\<lambda>rs3.
      bind_out (if funct3 = 0b001 then Ok Fmadd
                else if funct3 = 0b010 then Ok Fmsub
                else if funct3 = 0b101 then Ok Fnmadd
                else if funct3 = 0b110 then Ok Fnmsub
                else invalid bin) (\<lambda>i.
      Ok (Instr_F (FInstr_G i rd rs1 rs2 rs3))))))))"

definition decode2_F_KY :: "build \<Rightarrow> u32 \<Rightarrow> (anyhow_error, decoded_instr) outcome" where
  "decode2_F_KY b bin =
     (let funct3 = d2_funct3 bin in
      if funct3 = 0b001 then
        bind_out (regid_try_from b (d2_rd bin)) (\<lambda>rd.
        bind_out (fregid_try_from b (d2_rs1 bin)) (\<lambda>rs1.
        bind_out (fregid_try_from b (d2_rs2 bin)) (\<lambda>rs2.
        Ok (Instr_F (FInstr_K Flt rd rs1 rs2)))))
      else
        bind_out (regid_try_from b (d2_rd bin)) (\<lambda>rd.
        bind_out (fregid_try_from b (d2_rs1 bin)) (\<lambda>rs1.
        bind_out (if funct3 = 0b100 then Ok Fiszero
                  else if funct3 = 0b101 then Ok Fispos
                  else if funct3 = 0b110 then Ok Fisneg
                  else invalid bin) (\<lambda>i.
        Ok (Instr_F (FInstr_Y i rd rs1))))))"

definition decode2_F :: "build \<Rightarrow> u32 \<Rightarrow> (anyhow_error, decoded_instr) outcome" where
  "decode2_F b bin =
     (if d2_funct3 bin = 0 then
        let funct5 = drop_bit 2 (d2_funct7 bin) in
        if funct5 \<in> {0b00, 0b01, 0b10, 0b11, 0b110, 0b111, 0b1000} then decode2_F_E b bin funct5
        else if funct5 \<in> {0b100, 0b101, 0b1100, 0b1011, 0b01001} then decode2_F_H b bin funct5
        else if funct5 = 0b10001 then
          bind_out (regid_try_from b (d2_rd bin)) (\<lambda>rd.
          bind_out (fregid_try_from b (d2_rs1 bin)) (\<lambda>rs1.
          Ok (Instr_F (FInstr_Y Fftoi rd rs1))))
        else if funct5 = 0b11001 then
          bind_out (fregid_try_from b (d2_rd bin)) (\<lambda>rd.
          bind_out (regid_try_from b (d2_rs1 bin)) (\<lambda>rs1.
          Ok (Instr_F (FInstr_X Fitof rd rs1))))
        else invalid bin
      else if d2_sign bin = 0 then decode2_F_G b bin
      else decode2_F_KY b bin)"

definition decode2_VW :: "build \<Rightarrow> u32 \<Rightarrow> (anyhow_error, decoded_instr) outcome" where
  "decode2_VW b bin =
     (let funct3 = d2_funct3 bin in
      if funct3 AND 0b100 = 0 then
        bind_out (fregid_try_from b (d2_rs1 bin)) (\<lambda>rs1.
        bind_out (fregid_try_from b (d2_rs2 bin)) (\<lambda>rs2.
        let imm = compose_4 (d2_sign bin) (d2_imm_11_6 bin) (d2_rd bin) in
        bind_out (if funct3 = 0b001 then Ok Fblt
                  else if funct3 = 0b010 then Ok Fbge
                  else invalid bin) (\<lambda>i.
        Ok (Instr_F (FInstr_W i rs1 rs2 imm)))))
      else
        bind_out (fregid_try_from b (d2_rs1 bin)) (\<lambda>rs1.
        let imm = compose_4 (d2_sign bin) (d2_imm_11_6 bin) (d2_rd bin) in
        bind_out (if funct3 = 0b100 then Ok Fbeqz
                  else if funct3 = 0b111 then Ok Fbnez
                  else invalid bin) (\<lambda>i.
        Ok (Instr_F (FInstr_V i rs1 imm)))))"

definition decode2_flw :: "build \<Rightarrow> u32 \<Rightarrow> (anyhow_error, decoded_instr) outcome" where
  "decode2_flw b bin =
     bind_out (fregid_try_from b (d2_rd bin)) (\<lambda>rd.
     bind_out (regid_try_from b (d2_rs1 bin)) (\<lambda>rs1.
     let imm = compose_3 (d2_sign bin) (d2_imm_11_6 bin) (d2_rs2 bin) in
     Ok (Instr_F (Flw rd rs1 imm))))"

definition decode2_fsw :: "build \<Rightarrow> u32 \<Rightarrow> (anyhow_error, decoded_instr) outcome" where
  "decode2_fsw b bin =
     bind_out (regid_try_from b (d2_rs1 bin)) (\<lambda>rs1.
     bind_out (fregid_try_from b (d2_rs2 bin)) (\<lambda>rs2.
     let imm = compose_3 (d2_sign bin) (d2_imm_11_6 bin) (d2_rd bin) in
     Ok (Instr_F (Fsw rs2 rs1 imm))))"

definition decode_from_2nd :: "build \<Rightarrow> u32 \<Rightarrow> (anyhow_error, decoded_instr) outcome" where
  "decode_from_2nd b bin =
     (if bin = push_bit 31 1 then Ok (Instr_Misc End)
      else let opcode = d2_opcode bin in
        if opcode = 0b0000 then decode2_R b bin
        else if opcode = 0b0010 then decode2_I b bin
        else if opcode = 0b0110 then decode2_load b bin
        else if opcode = 0b1010 then decode2_jalr b bin
        else if opcode = 0b0100 then decode2_S b bin
        else if opcode = 0b1000 then decode2_B b bin
        else if opcode = 0b1100 then decode2_P b bin
        else if opcode = 0b1110 then decode2_jal b bin
        else if opcode = 0b0011 then decode2_IO b bin
        else if opcode = 0b0001 then decode2_F b bin
        else if opcode = 0b1001 then decode2_VW b bin
        else if opcode = 0b0111 then decode2_flw b bin
        else if opcode = 0b0101 then decode2_fsw b bin
        else invalid bin)"

text \<open>
  The module a build compiles in as \<^verbatim>\<open>decode_instr\<close> (\<^verbatim>\<open>lib.rs\<close> selects it with the
  \<^verbatim>\<open>isa_2nd\<close> feature).
\<close>

definition decode_from :: "build \<Rightarrow> u32 \<Rightarrow> (anyhow_error, decoded_instr) outcome" where
  "decode_from b = (if isa_2nd b then decode_from_2nd b else decode_from_1st b)"

lemmas decode2_arms_defs =
  decode2_R_def decode2_I_def decode2_load_def decode2_jalr_def decode2_S_def decode2_B_def
  decode2_P_def decode2_jal_def decode2_IO_def decode2_F_def decode2_F_E_def decode2_F_H_def
  decode2_F_G_def decode2_F_KY_def decode2_VW_def decode2_flw_def decode2_fsw_def

section \<open>The second decoder is total\<close>

lemma d2_regs_less [simp]:
  assumes "isa_2nd b"
  shows "unat (d2_rd bin) < max_reg_id b" "unat (d2_rs1 bin) < max_reg_id b"
    "unat (d2_rs2 bin) < max_reg_id b" "unat (d2_imm_11_6 bin) < max_reg_id b"
  using assms unat_extract_less [of 4 9 bin] unat_extract_less [of 13 18 bin]
    unat_extract_less [of 19 24 bin] unat_extract_less [of 25 30 bin]
  by (simp_all add: d2_rd_def d2_rs1_def d2_rs2_def d2_imm_11_6_def max_reg_id_def reg_bit_width_def)

lemma decodes_well_arms_2nd:
  assumes "isa_2nd b"
  shows "decodes_well b bin (decode2_R b bin)" "decodes_well b bin (decode2_I b bin)"
    "decodes_well b bin (decode2_load b bin)" "decodes_well b bin (decode2_jalr b bin)"
    "decodes_well b bin (decode2_S b bin)" "decodes_well b bin (decode2_B b bin)"
    "decodes_well b bin (decode2_P b bin)" "decodes_well b bin (decode2_jal b bin)"
    "decodes_well b bin (decode2_IO b bin)" "decodes_well b bin (decode2_VW b bin)"
    "decodes_well b bin (decode2_flw b bin)" "decodes_well b bin (decode2_fsw b bin)"
    "decodes_well b bin (decode2_F_G b bin)" "decodes_well b bin (decode2_F_KY b bin)"
  using assms
  by (simp_all add: decode2_arms_defs Let_def operands_ok_def variants_defs)

lemma decodes_well_F_2nd:
  assumes "isa_2nd b"
  shows "decodes_well b bin (decode2_F b bin)"
  using assms
  by (auto simp: decode2_F_def decode2_F_E_def decode2_F_H_def Let_def operands_ok_def variants_defs
      decodes_well_arms_2nd)

lemma decode_from_2nd_well:
  assumes "isa_2nd b"
  shows "decodes_well b bin (decode_from_2nd b bin)"
  by (simp add: decode_from_2nd_def Let_def decodes_well_arms_2nd [OF assms]
      decodes_well_F_2nd [OF assms] operands_ok_def)

text \<open>
  C2. Decoding is total up to one assertion: in every build every word either decodes to an
  instruction of the instruction set all of whose operands name registers of the machine, or is
  reported as an invalid opcode carrying the word itself, or, in the first instruction set only,
  is one of the comparison-group words on which the decoder's assertion on \<open>funct7\<close> panics.
\<close>
theorem decode_from_cases:
  "case decode_from b bin of
     Ok i \<Rightarrow> instr_in_build b i \<and> operands_ok b i
   | Err e \<Rightarrow> e = InvalidOpcode bin
   | Panic p \<Rightarrow> p = AssertFailed \<and> \<not> isa_2nd b \<and> decode_asserts bin"
proof (cases "isa_2nd b")
  case True
  then show ?thesis
    using decode_from_2nd_well [of b bin] by (auto simp: decode_from_def decodes_well_def split: outcome.splits)
next
  case False
  then show ?thesis
    using decode_from_1st_well [of b bin] decode_from_1st_asserts [of bin b]
    by (cases "decode_asserts bin") (auto simp: decode_from_def decodes_well_def split: outcome.splits)
qed

section \<open>Ranges of the immediates of the second instruction set\<close>

lemma bit_compose_3:
  "bit (compose_3 (d2_sign bin) (d2_imm_11_6 bin) (d2_rs2 bin)) n \<longleftrightarrow>
     n < 32 \<and> bit bin (if n < 6 then n + 19 else if n < 12 then n + 19 else 31)"
proof -
  consider "n < 6" | "6 \<le> n" "n < 12" | "12 \<le> n" by linarith
  then show ?thesis
    by cases (auto simp: compose_3_def d2_sign_def d2_imm_11_6_def d2_rs2_def bit_sign_extend
        bit_extract bit_simps ac_simps dest: bit_imp_le_length)
qed

end
