(* ===== verification/Memory.thy ===== *)
theory Memory
  imports Reg_File Errors
begin

text \<open>
  \<^verbatim>\<open>core_sim/src/memory.rs\<close>: the byte-addressed memory behind word addresses, with a
  runtime type per word, the protected instruction range, the access statistics and the watch
  points. The out parameter \<^verbatim>\<open>spied\<close> of the accessors is the second half of their state.
\<close>

section \<open>State\<close>

definition RAM_BYTE_SIZE :: usize where "RAM_BYTE_SIZE = 1000000"

record memory_region_count =
  rc_data_section :: usize
  rc_heap :: usize
  rc_stack :: usize

record memory_stat =
  ms_write :: memory_region_count
  ms_read :: memory_region_count

definition region_count_zero :: memory_region_count where
  "region_count_zero = \<lparr>rc_data_section = 0, rc_heap = 0, rc_stack = 0\<rparr>"

definition memory_stat_default :: memory_stat where
  "memory_stat_default = \<lparr>ms_write = region_count_zero, ms_read = region_count_zero\<rparr>"

definition region_count_incr :: "memory_region \<Rightarrow> memory_region_count \<Rightarrow> memory_region_count" where
  "region_count_incr r c =
     (case r of
        DataSection \<Rightarrow> c\<lparr>rc_data_section := rc_data_section c + 1\<rparr>
      | Heap \<Rightarrow> c\<lparr>rc_heap := rc_heap c + 1\<rparr>
      | Stack \<Rightarrow> c\<lparr>rc_stack := rc_stack c + 1\<rparr>)"

definition stat_on_write :: "memory_region \<Rightarrow> memory_stat \<Rightarrow> memory_stat" where
  "stat_on_write r s = s\<lparr>ms_write := region_count_incr r (ms_write s)\<rparr>"

definition stat_on_read :: "memory_region \<Rightarrow> memory_stat \<Rightarrow> memory_stat" where
  "stat_on_read r s = s\<lparr>ms_read := region_count_incr r (ms_read s)\<rparr>"

definition show_memory_stat_row :: "string \<Rightarrow> usize \<Rightarrow> usize \<Rightarrow> string" where
  "show_memory_stat_row name r w =
     ''  '' @ pad_left 13 name @ '':'' @ pad_left 11 (show_nat r) @ '' /'' @ pad_left 11 (show_nat w) @ nl"

definition show_memory_stat :: "memory_stat \<Rightarrow> string" where
  "show_memory_stat s =
     show_memory_stat_row ''data section'' (rc_data_section (ms_read s)) (rc_data_section (ms_write s))
     @ show_memory_stat_row ''heap'' (rc_heap (ms_read s)) (rc_heap (ms_write s))
     @ show_memory_stat_row ''stack'' (rc_stack (ms_read s)) (rc_stack (ms_write s))"

record memory =
  mem_inner :: "u8 vec"
  instr_mem_range :: "usize \<times> usize"
  stat_mem :: memory_stat
  mem_ty :: "ty vec"
  spy_on_read :: "usize \<Rightarrow> spy_unit option"
  spy_on_write :: "usize \<Rightarrow> spy_unit option"

definition memory_new :: "usize \<Rightarrow> memory" where
  "memory_new sz =
     \<lparr>mem_inner = vec_replicate sz 0xCC, instr_mem_range = (0, 0), stat_mem = memory_stat_default,
      mem_ty = vec_replicate (sz div 4) Unknown, spy_on_read = Map.empty, spy_on_write = Map.empty\<rparr>"

section \<open>Initialisation and watch points\<close>

text \<open>\<^verbatim>\<open>write_all\<close> into the slice fails, and \<^verbatim>\<open>unwrap\<close> panics, when the image is longer.\<close>

definition init_from_slice :: "u8 list \<Rightarrow> u32 \<times> u32 \<Rightarrow> (memory, 'e, unit) action" where
  "init_from_slice bytes rng =
     act_bind (zoom mem_inner (\<lambda>v m. m\<lparr>mem_inner := v\<rparr>)
        (act_try (\<lambda>v. if vec_len v < length bytes then Panic UnwrapFailed else vec_write v 0 bytes)))
       (\<lambda>_. act_modify (\<lambda>m. m\<lparr>instr_mem_range := (unat (fst rng), unat (snd rng))\<rparr>))"

definition add_spy :: "spy_watch_kind \<Rightarrow> spy_unit \<Rightarrow> memory \<Rightarrow> memory" where
  "add_spy k u m =
     (let m1 = if kind_contains k spy_read
               then m\<lparr>spy_on_read := (spy_on_read m)(spy_addr u \<mapsto> u)\<rparr> else m
      in if kind_contains k spy_write
         then m1\<lparr>spy_on_write := (spy_on_write m1)(spy_addr u \<mapsto> u)\<rparr> else m1)"

definition remove_spy :: "spy_watch_kind \<Rightarrow> spy_unit \<Rightarrow> memory \<Rightarrow> memory" where
  "remove_spy k u m =
     (let m1 = if kind_contains k spy_read
               then m\<lparr>spy_on_read := (spy_on_read m)(spy_addr u := None)\<rparr> else m
      in if kind_contains k spy_write
         then m1\<lparr>spy_on_write := (spy_on_write m1)(spy_addr u := None)\<rparr> else m1)"

section \<open>Accesses\<close>

type_synonym spied = "spy_result option"
type_synonym 'a access = "(memory \<times> spied, memory_access_error, 'a) action"

abbreviation on_mem :: "(memory, 'e, 'a) action \<Rightarrow> (memory \<times> spied, 'e, 'a) action" where
  "on_mem \<equiv> zoom fst (\<lambda>m s. (m, snd s))"

definition get_raw_addr :: "memory \<Rightarrow> usize \<Rightarrow> ('e, u32) outcome" where
  "get_raw_addr m a = bind_out (vec_slice (mem_inner m) a 4) (\<lambda>bs. Ok (u32_from_le_bytes bs))"

definition unify :: "usize \<Rightarrow> ty \<Rightarrow> (memory, memory_access_error, ty) action" where
  "unify a attempt =
     act_bind (act_read (\<lambda>m. vec_get (mem_ty m) a)) (\<lambda>t.
       if t < attempt then
         act_bind (zoom mem_ty (\<lambda>v m. m\<lparr>mem_ty := v\<rparr>) (act_try (\<lambda>v. vec_set v a attempt)))
           (\<lambda>_. act_ret attempt)
       else if t \<ge> attempt then act_ret t
       else act_err (ViolateTransmutation t attempt))"

definition on_read :: "build \<Rightarrow> memory_region_stat_builder \<Rightarrow> usize \<Rightarrow> unit access" where
  "on_read b region a =
     act_bind (act_lift (get_region b region (word_of_nat a))) (\<lambda>r.
     act_modify (\<lambda>(m, spied).
       (m\<lparr>stat_mem := stat_on_read r (stat_mem m)\<rparr>,
        case spy_on_read m a of
          Some spy \<Rightarrow> Some \<lparr>sr_kind = ReadResult, sr_target = SpyMemory spy\<rparr>
        | None \<Rightarrow> spied)))"

definition on_write :: "build \<Rightarrow> memory_region_stat_builder \<Rightarrow> usize \<Rightarrow> typed_u32 \<Rightarrow> unit access" where
  "on_write b region a val =
     act_bind (act_lift (get_region b region (word_of_nat a))) (\<lambda>r.
     act_bind (act_modify (\<lambda>(m, spied). (m\<lparr>stat_mem := stat_on_write r (stat_mem m)\<rparr>, spied))) (\<lambda>_.
     act_try (\<lambda>(m, spied).
       case spy_on_write m a of
         Some spy \<Rightarrow>
           bind_out (get_raw_addr m (shl_usize a 2)) (\<lambda>before.
           bind_out (vec_get (mem_ty m) a) (\<lambda>t.
           Ok (m, Some \<lparr>sr_kind = WriteResult (typed before t) val, sr_target = SpyMemory spy\<rparr>)))
       | None \<Rightarrow> Ok (m, spied))))"

definition bounds_check :: "usize \<Rightarrow> usize \<Rightarrow> memory \<Rightarrow> (memory_access_error, unit) outcome" where
  "bounds_check sz a m =
     (let index = shl_usize a 2 in
      if index \<ge> sz \<or> (fst (instr_mem_range m) \<le> index \<and> index < snd (instr_mem_range m))
      then Err (OutOfBounds a) else Ok ())"

definition mem_get :: "build \<Rightarrow> usize \<Rightarrow> memory_region_stat_builder \<Rightarrow> usize \<Rightarrow> typed_u32 access" where
  "mem_get b sz region a =
     act_bind (on_mem (act_read (bounds_check sz a))) (\<lambda>_.
     act_bind (on_mem (\<lambda>m. case unify a Unknown m of
                 (Err e, m') \<Rightarrow> (Panic UnwrapFailed, m') | r \<Rightarrow> r)) (\<lambda>t.
     act_bind (on_read b region a) (\<lambda>_.
     act_bind (on_mem (act_read (\<lambda>m. get_raw_addr m (shl_usize a 2)))) (\<lambda>w.
     act_ret (typed w t)))))"

definition mem_get_i :: "build \<Rightarrow> usize \<Rightarrow> memory_region_stat_builder \<Rightarrow> usize \<Rightarrow> typed_u32 access" where
  "mem_get_i b sz region a =
     act_bind (on_mem (act_read (bounds_check sz a))) (\<lambda>_.
     act_bind (on_mem (unify a I32OrUsize)) (\<lambda>t.
     act_bind (on_read b region a) (\<lambda>_.
     act_bind (on_mem (act_read (\<lambda>m. get_raw_addr m (shl_usize a 2)))) (\<lambda>w.
     act_ret (typed w t)))))"

definition get_from_pc :: "memory \<Rightarrow> pc \<Rightarrow> (memory_access_error, u32) outcome" where
  "get_from_pc m p =
     (let pc_address = pc_into_usize p in
      if fst (instr_mem_range m) \<le> pc_address \<and> pc_address < snd (instr_mem_range m)
      then get_raw_addr m pc_address else Err (PcOutOfBounds pc_address))"

definition mem_get_f :: "build \<Rightarrow> usize \<Rightarrow> memory_region_stat_builder \<Rightarrow> usize \<Rightarrow> f32 access" where
  "mem_get_f b sz region a =
     act_bind (on_mem (act_read (bounds_check sz a))) (\<lambda>_.
     act_bind (on_mem (unify a F32)) (\<lambda>_.
     act_bind (on_read b region a) (\<lambda>_.
     act_bind (on_mem (act_read (\<lambda>m. vec_slice (mem_inner m) (shl_usize a 2) 4))) (\<lambda>bs.
     act_ret (Bits (u32_from_le_bytes bs))))))"

definition reset_type :: "usize \<Rightarrow> ty \<Rightarrow> (memory, 'e, unit) action" where
  "reset_type a t = zoom mem_ty (\<lambda>v m. m\<lparr>mem_ty := v\<rparr>) (act_try (\<lambda>v. vec_set v a t))"

definition write_raw :: "usize \<Rightarrow> u32 \<Rightarrow> (memory, 'e, unit) action" where
  "write_raw a val =
     zoom mem_inner (\<lambda>v m. m\<lparr>mem_inner := v\<rparr>)
       (act_try (\<lambda>v. vec_write v (shl_usize a 2) (u32_to_le_bytes val)))"

definition mem_set :: "build \<Rightarrow> usize \<Rightarrow> memory_region_stat_builder \<Rightarrow> usize \<Rightarrow> u32 \<Rightarrow> unit access" where
  "mem_set b sz region a val =
     act_bind (on_mem (act_read (bounds_check sz a))) (\<lambda>_.
     act_bind (on_write b region a (typed val I32OrUsize)) (\<lambda>_.
     act_bind (on_mem (reset_type a I32OrUsize)) (\<lambda>_.
     on_mem (write_raw a val))))"

definition mem_set_f :: "build \<Rightarrow> usize \<Rightarrow> memory_region_stat_builder \<Rightarrow> usize \<Rightarrow> f32 \<Rightarrow> unit access" where
  "mem_set_f b sz region a val =
     act_bind (on_mem (act_read (bounds_check sz a))) (\<lambda>_.
     act_bind (on_write b region a (typed (to_bits val) F32)) (\<lambda>_.
     act_bind (on_mem (reset_type a F32)) (\<lambda>_.
     on_mem (write_raw a (to_bits val)))))"

section \<open>Invariant and abstract view\<close>

text \<open>
  Well-formedness: the byte array has the size of the type parameter, a multiple of four, and
  there is one type per word; three bytes past every address of the instruction range are still
  inside the memory, so that a fetch at any address of the range reads four bytes.
\<close>

definition memory_wf :: "usize \<Rightarrow> memory \<Rightarrow> bool" where
  "memory_wf sz m \<longleftrightarrow>
     vec_len (mem_inner m) = sz \<and> sz mod 4 = 0 \<and> sz < 2 ^ 32 \<and> vec_len (mem_ty m) = sz div 4
     \<and> snd (instr_mem_range m) + 3 \<le> sz"

definition accessible :: "usize \<Rightarrow> memory \<Rightarrow> usize \<Rightarrow> bool" where
  "accessible sz m a \<longleftrightarrow> bounds_check sz a m = Ok ()"

text \<open>The word at a word address.\<close>

definition mem_word :: "memory \<Rightarrow> usize \<Rightarrow> u32" where
  "mem_word m a = u32_from_le_bytes (map (vec_elt (mem_inner m)) [4 * a..<4 * a + 4])"

abbreviation mem_tag :: "memory \<Rightarrow> usize \<Rightarrow> ty" where
  "mem_tag m a \<equiv> vec_elt (mem_ty m) a"

lemma shl_usize_2 [simp]: "a < 2 ^ 62 \<Longrightarrow> shl_usize a 2 = 4 * a"
  by (simp add: shl_usize_def)

lemma accessible_iff:
  assumes "a < 2 ^ 62"
  shows "accessible sz m a \<longleftrightarrow>
     4 * a < sz \<and> \<not> (fst (instr_mem_range m) \<le> 4 * a \<and> 4 * a < snd (instr_mem_range m))"
  using assms by (simp add: accessible_def bounds_check_def Let_def)

lemma bounds_check_eq: "bounds_check sz a m = (if accessible sz m a then Ok () else Err (OutOfBounds a))"
  by (simp add: accessible_def bounds_check_def Let_def)

lemma word_fits:
  assumes "memory_wf sz m" and "4 * a < sz"
  shows "4 * a + 4 \<le> vec_len (mem_inner m)" and "a < vec_len (mem_ty m)"
  using assms by (auto simp: memory_wf_def)

lemma get_raw_addr_word:
  assumes "memory_wf sz m" and "4 * a < sz"
  shows "get_raw_addr m (4 * a) = Ok (mem_word m a)"
  using word_fits [OF assms] by (simp add: get_raw_addr_def mem_word_def)

lemma memory_updates [simp]:
  "get_raw_addr (m\<lparr>stat_mem := st\<rparr>) a = get_raw_addr m a"
  "get_raw_addr (m\<lparr>mem_ty := ts\<rparr>) a = get_raw_addr m a"
  "mem_word (m\<lparr>stat_mem := st\<rparr>) a = mem_word m a"
  "mem_word (m\<lparr>mem_ty := ts\<rparr>) a = mem_word m a"
  by (simp_all add: get_raw_addr_def mem_word_def)

definition set_tag :: "usize \<Rightarrow> ty \<Rightarrow> memory \<Rightarrow> memory" where
  "set_tag a t m = m\<lparr>mem_ty := Vec (vec_len (mem_ty m)) ((vec_elt (mem_ty m))(a := t))\<rparr>"

lemma set_tag_same: "mem_tag m a = t \<Longrightarrow> set_tag a t m = m"
  by (auto simp: set_tag_def)

lemma set_tag_raw [simp]:
  "get_raw_addr (set_tag a t m) c = get_raw_addr m c" "mem_inner (set_tag a t m) = mem_inner m"
  "spy_on_read (set_tag a t m) = spy_on_read m" "spy_on_write (set_tag a t m) = spy_on_write m"
  by (simp_all add: set_tag_def)

lemma unify_eq:
  assumes "a < vec_len (mem_ty m)"
  shows "unify a t m =
    (if mem_tag m a < t then (Ok t, set_tag a t m)
     else if mem_tag m a \<ge> t then (Ok (mem_tag m a), m)
     else (Err (ViolateTransmutation (mem_tag m a) t), m))"
  using assms by (simp add: unify_def act_simps set_tag_def)

definition spied_read :: "memory \<Rightarrow> usize \<Rightarrow> spied \<Rightarrow> spied" where
  "spied_read m a spied =
     (case spy_on_read m a of
        Some spy \<Rightarrow> Some \<lparr>sr_kind = ReadResult, sr_target = SpyMemory spy\<rparr> | None \<Rightarrow> spied)"

definition spied_write :: "memory \<Rightarrow> usize \<Rightarrow> typed_u32 \<Rightarrow> spied \<Rightarrow> spied" where
  "spied_write m a val spied =
     (case spy_on_write m a of
        Some spy \<Rightarrow> Some \<lparr>sr_kind = WriteResult (typed (mem_word m a) (mem_tag m a)) val,
                          sr_target = SpyMemory spy\<rparr>
      | None \<Rightarrow> spied)"

definition set_word :: "usize \<Rightarrow> u32 \<Rightarrow> memory \<Rightarrow> memory" where
  "set_word a w m =
     m\<lparr>mem_inner := Vec (vec_len (mem_inner m))
         (\<lambda>i. if 4 * a \<le> i \<and> i < 4 * a + 4 then u32_to_le_bytes w ! (i - 4 * a) else vec_elt (mem_inner m) i)\<rparr>"

lemma on_read_eq:
  assumes "region_known b region (word_of_nat a)"
  shows "on_read b region a (m, sp) =
     (Ok (), (m\<lparr>stat_mem := stat_on_read (region_of region (word_of_nat a)) (stat_mem m)\<rparr>, spied_read m a sp))"
  using assms by (simp add: get_region_eq on_read_def act_simps spied_read_def)

lemma on_write_eq:
  assumes "memory_wf sz m" "4 * a < sz" "region_known b region (word_of_nat a)"
  shows "on_write b region a v (m, sp) =
     (Ok (), (m\<lparr>stat_mem := stat_on_write (region_of region (word_of_nat a)) (stat_mem m)\<rparr>, spied_write m a v sp))"
proof -
  have "a < 2 ^ 62" using assms(1,2) by (auto simp: memory_wf_def)
  then show ?thesis
    using word_fits [OF assms(1,2)] assms(3)
    by (simp add: get_raw_addr_word [OF assms(1,2)] get_region_eq on_write_def act_simps spied_write_def split: option.split)
qed

text \<open>A load or store is admissible: inside the memory, outside the code, in a known region.\<close>

definition access_ok ::
  "build \<Rightarrow> usize \<Rightarrow> memory_region_stat_builder \<Rightarrow> memory \<Rightarrow> usize \<Rightarrow> bool" where
  "access_ok b sz region m a \<longleftrightarrow>
     memory_wf sz m \<and> a < 2 ^ 62 \<and> accessible sz m a
     \<and> region_known b region (word_of_nat a)"

lemma access_ok_fits:
  assumes "access_ok b sz region m a"
  shows "4 * a + 4 \<le> vec_len (mem_inner m)" "a < vec_len (mem_ty m)" "a < 2 ^ 62" "4 * a < sz"
    "memory_wf sz m" "region_known b region (word_of_nat a)" "bounds_check sz a m = Ok ()"
proof -
  show wf: "memory_wf sz m" and a: "a < 2 ^ 62" and "region_known b region (word_of_nat a)"
    "bounds_check sz a m = Ok ()"
    using assms by (auto simp: access_ok_def bounds_check_eq)
  show lt: "4 * a < sz" using assms accessible_iff [OF a] by (simp add: access_ok_def)
  show "4 * a + 4 \<le> vec_len (mem_inner m)" "a < vec_len (mem_ty m)" by (rule word_fits [OF wf lt])+
qed

text \<open>Loads and stores in closed form.\<close>

definition read_word :: "memory_region_stat_builder \<Rightarrow> usize \<Rightarrow> memory \<Rightarrow> memory" where
  "read_word region a m = m\<lparr>stat_mem := stat_on_read (region_of region (word_of_nat a)) (stat_mem m)\<rparr>"

definition count_write :: "memory_region_stat_builder \<Rightarrow> usize \<Rightarrow> memory \<Rightarrow> memory" where
  "count_write region a m = m\<lparr>stat_mem := stat_on_write (region_of region (word_of_nat a)) (stat_mem m)\<rparr>"

lemma mem_get_i_eq:
  assumes "access_ok b sz region m a"
  shows "mem_get_i b sz region a (m, sp) =
    (if mem_tag m a = F32 then (Err (ViolateTransmutation F32 I32OrUsize), (m, sp))
     else let t = (if mem_tag m a = Unknown then I32OrUsize else mem_tag m a)
       in (Ok (typed (mem_word m a) t), (read_word region a (set_tag a t m), spied_read m a sp)))"
  using access_ok_fits [OF assms]
  by (cases "mem_tag m a")
    (auto simp: mem_get_i_def get_raw_addr_word [OF access_ok_fits(5,4) [OF assms]] act_simps unify_eq on_read_eq read_word_def set_tag_same spied_read_def
      I32OrUsize_le_iff)

lemma mem_get_f_eq:
  assumes "access_ok b sz region m a"
  shows "mem_get_f b sz region a (m, sp) =
    (if mem_tag m a \<in> {F32, Unknown}
     then (Ok (Bits (mem_word m a)), (read_word region a (set_tag a F32 m), spied_read m a sp))
     else (Err (ViolateTransmutation (mem_tag m a) F32), (m, sp)))"
  using access_ok_fits [OF assms]
  by (cases "mem_tag m a")
    (auto simp: mem_get_f_def mem_word_def act_simps unify_eq on_read_eq read_word_def set_tag_same
      spied_read_def)

lemma mem_get_eq:
  assumes "access_ok b sz region m a"
  shows "mem_get b sz region a (m, sp) =
    (Ok (typed (mem_word m a) (mem_tag m a)), (read_word region a m, spied_read m a sp))"
  using access_ok_fits [OF assms]
  by (cases "mem_tag m a")
    (auto simp: mem_get_def get_raw_addr_word [OF access_ok_fits(5,4) [OF assms]] act_simps unify_eq
      on_read_eq read_word_def spied_read_def less_ty_def partial_cmp_def)

lemma write_raw_eq:
  assumes "4 * a + 4 \<le> vec_len (mem_inner m)" and "a < 2 ^ 62"
  shows "write_raw a w m = (Ok (), set_word a w m)"
  using assms by (simp add: write_raw_def act_simps vec_write_def set_word_def)

lemma store_parts:
  assumes "access_ok b sz region m a"
  shows "act_bind (on_mem (act_read (bounds_check sz a))) (\<lambda>_.
     act_bind (on_write b region a v) (\<lambda>_. act_bind (on_mem (reset_type a t)) (\<lambda>_. on_mem (write_raw a w)))) (m, sp)
   = (Ok (), (set_word a w (set_tag a t (count_write region a m)), spied_write m a v sp))"
  using access_ok_fits [OF assms]
  by (simp add: act_simps on_write_eq [OF access_ok_fits(5,4,6) [OF assms]] write_raw_eq reset_type_def
      set_tag_def count_write_def)

lemma mem_set_eq:
  assumes "access_ok b sz region m a"
  shows "mem_set b sz region a w (m, sp) =
    (Ok (), (set_word a w (set_tag a I32OrUsize (count_write region a m)),
             spied_write m a (typed w I32OrUsize) sp))"
  unfolding mem_set_def by (rule store_parts [OF assms])

lemma mem_set_f_eq:
  assumes "access_ok b sz region m a"
  shows "mem_set_f b sz region a x (m, sp) =
    (Ok (), (set_word a (to_bits x) (set_tag a F32 (count_write region a m)),
             spied_write m a (typed (to_bits x) F32) sp))"
  unfolding mem_set_f_def by (rule store_parts [OF assms])

lemma access_out_of_bounds:
  assumes "\<not> accessible sz m a"
  shows "mem_get b sz region a (m, sp) = (Err (OutOfBounds a), (m, sp))"
    "mem_get_i b sz region a (m, sp) = (Err (OutOfBounds a), (m, sp))"
    "mem_get_f b sz region a (m, sp) = (Err (OutOfBounds a), (m, sp))"
    "mem_set b sz region a w (m, sp) = (Err (OutOfBounds a), (m, sp))"
    "mem_set_f b sz region a x (m, sp) = (Err (OutOfBounds a), (m, sp))"
  using assms
  by (simp_all add: mem_get_def mem_get_i_def mem_get_f_def mem_set_def mem_set_f_def act_simps
      bounds_check_eq)

section \<open>Effect of stores on words, types and code\<close>

lemma set_word_words [simp]:
  "mem_word (set_word a w m) c = (if c = a then w else mem_word m c)"
proof (cases "c = a")
  case True
  have "map (\<lambda>i. u32_to_le_bytes w ! (i - 4 * a)) [4 * a..<4 * a + 4] = u32_to_le_bytes w"
    by (rule nth_equalityI) auto
  moreover have "map (vec_elt (mem_inner (set_word a w m))) [4 * a..<4 * a + 4]
      = map (\<lambda>i. u32_to_le_bytes w ! (i - 4 * a)) [4 * a..<4 * a + 4]"
    by (rule map_cong) (auto simp: set_word_def)
  ultimately show ?thesis using True by (simp add: mem_word_def)
next
  case False
  then have eq: "map (vec_elt (mem_inner (set_word a w m))) [4 * c..<4 * c + 4]
      = map (vec_elt (mem_inner m)) [4 * c..<4 * c + 4]"
    by (intro map_cong) (auto simp: set_word_def)
  show ?thesis using False unfolding mem_word_def eq by simp
qed

lemma memory_frame [simp]:
  "mem_ty (set_word a w m) = mem_ty m" "stat_mem (set_word a w m) = stat_mem m"
  "instr_mem_range (set_word a w m) = instr_mem_range m"
  "mem_tag (set_tag a t m) c = (if c = a then t else mem_tag m c)"
  "mem_word (set_tag a t m) c = mem_word m c" "mem_word (count_write r a m) c = mem_word m c"
  "mem_word (read_word r a m) c = mem_word m c"
  "mem_ty (count_write r a m) = mem_ty m" "mem_ty (read_word r a m) = mem_ty m"
  "instr_mem_range (set_tag a t m) = instr_mem_range m"
  "instr_mem_range (count_write r a m) = instr_mem_range m"
  "instr_mem_range (read_word r a m) = instr_mem_range m"
  "stat_mem (set_tag a t m) = stat_mem m" "mem_inner (count_write r a m) = mem_inner m"
  "mem_inner (read_word r a m) = mem_inner m" "vec_len (mem_inner (set_word a w m)) = vec_len (mem_inner m)"
  by (simp_all add: set_word_def set_tag_def count_write_def read_word_def)

lemma memory_wf_frame [simp]:
  "memory_wf sz (set_word a w m) \<longleftrightarrow> memory_wf sz m" "memory_wf sz (set_tag a t m) \<longleftrightarrow> memory_wf sz m"
  "memory_wf sz (count_write r a m) \<longleftrightarrow> memory_wf sz m" "memory_wf sz (read_word r a m) \<longleftrightarrow> memory_wf sz m"
  by (simp_all add: memory_wf_def set_word_def set_tag_def count_write_def read_word_def)

lemma access_ok_frame [simp]:
  "access_ok b sz rg (set_word a w m) c \<longleftrightarrow> access_ok b sz rg m c"
  "access_ok b sz rg (set_tag a t m) c \<longleftrightarrow> access_ok b sz rg m c"
  "access_ok b sz rg (count_write r a m) c \<longleftrightarrow> access_ok b sz rg m c"
  "access_ok b sz rg (read_word r a m) c \<longleftrightarrow> access_ok b sz rg m c"
  by (simp_all add: access_ok_def accessible_def bounds_check_def)

text \<open>
  The bytes a fetch can see are out of reach of stores whenever the instruction range starts and
  ends at word boundaries.
\<close>

definition code_aligned :: "memory \<Rightarrow> bool" where
  "code_aligned m \<longleftrightarrow> fst (instr_mem_range m) mod 4 = 0 \<and> snd (instr_mem_range m) mod 4 = 0"

lemma store_keeps_code:
  assumes "access_ok b sz rg m a" and "code_aligned m"
    and "fst (instr_mem_range m) \<le> i" and "i < snd (instr_mem_range m)"
  shows "vec_elt (mem_inner (set_word a w m)) i = vec_elt (mem_inner m) i"
proof -
  have out: "\<not> (fst (instr_mem_range m) \<le> 4 * a \<and> 4 * a < snd (instr_mem_range m))"
    using assms(1) accessible_iff [of a sz m] by (auto simp: access_ok_def)
  have "\<not> (4 * a \<le> i \<and> i < 4 * a + 4)"
    using assms(2-4) out unfolding code_aligned_def by presburger
  then show ?thesis by (auto simp: set_word_def)
qed

section \<open>The contract of a typed port\<close>

text \<open>
  The integer and the float accessors are two ports to the same words. A port stores values by
  their bits and stamps its type on the word; it loads a word whose type is unknown or its own,
  and refuses any other, leaving the memory as it was.
\<close>

locale memory_port =
  fixes adm :: "memory \<Rightarrow> usize \<Rightarrow> bool"
    and load :: "usize \<Rightarrow> 'v access"
    and store :: "usize \<Rightarrow> 'v \<Rightarrow> unit access"
    and bits_of :: "'v \<Rightarrow> u32"
    and readable :: "ty \<Rightarrow> bool"
    and stamp :: ty
  assumes load_ok: "adm m a \<Longrightarrow> readable (mem_tag m a) \<Longrightarrow>
      \<exists>v m' sp'. load a (m, sp) = (Ok v, (m', sp')) \<and> bits_of v = mem_word m a
        \<and> mem_inner m' = mem_inner m \<and> instr_mem_range m' = instr_mem_range m \<and> adm m' = adm m
        \<and> readable (mem_tag m' a)"
    and load_refused: "adm m a \<Longrightarrow> \<not> readable (mem_tag m a) \<Longrightarrow>
      load a (m, sp) = (Err (ViolateTransmutation (mem_tag m a) stamp), (m, sp))"
    and store_ok: "adm m a \<Longrightarrow>
      \<exists>m' sp'. store a v (m, sp) = (Ok (), (m', sp')) \<and> adm m' = adm m \<and> mem_tag m' a = stamp
        \<and> (\<forall>c. mem_word m' c = (if c = a then bits_of v else mem_word m c))
        \<and> (\<forall>c. c \<noteq> a \<longrightarrow> mem_tag m' c = mem_tag m c)"
    and stamp_readable: "readable stamp"
begin

lemma load_after_store:
  assumes "adm m a" "adm m c" "a \<noteq> c \<Longrightarrow> readable (mem_tag m c)"
  shows "\<exists>v' s'. act_bind (store a v) (\<lambda>_. load c) (m, sp) = (Ok v', s')
    \<and> bits_of v' = (if c = a then bits_of v else mem_word m c)"
proof -
  obtain m1 sp1 where s1: "store a v (m, sp) = (Ok (), (m1, sp1))" "adm m1 = adm m" "mem_tag m1 a = stamp"
    and words: "\<And>c. mem_word m1 c = (if c = a then bits_of v else mem_word m c)"
    and tags: "\<And>c. c \<noteq> a \<Longrightarrow> mem_tag m1 c = mem_tag m c"
    using store_ok [OF assms(1)] by blast
  have "readable (mem_tag m1 c)" using assms(3) s1(3) stamp_readable tags by (cases "c = a") auto
  then obtain v2 m2 sp2 where "load c (m1, sp1) = (Ok v2, (m2, sp2))" "bits_of v2 = mem_word m1 c"
    using load_ok [of m1 c sp1] assms(2) s1(2) by auto
  then show ?thesis using s1(1) words by (auto simp: act_bind_def)
qed

text \<open>Two ports whose types exclude each other do not see each other's words as values.\<close>

lemma foreign_store_refused:
  assumes "adm m a" and "\<not> readable t" and "mem_tag m a = t"
  shows "load a (m, sp) = (Err (ViolateTransmutation t stamp), (m, sp))"
  using load_refused [OF assms(1)] assms(2,3) by simp

end

interpretation int_port: memory_port "access_ok b sz rg" "mem_get_i b sz rg"
  "\<lambda>a v. mem_set b sz rg a (raw_value v)" raw_value "\<lambda>t. t \<noteq> F32" I32OrUsize
proof
  show "\<exists>v m' sp'. mem_get_i b sz rg a (m, sp) = (Ok v, (m', sp')) \<and> raw_value v = mem_word m a
        \<and> mem_inner m' = mem_inner m \<and> instr_mem_range m' = instr_mem_range m
        \<and> access_ok b sz rg m' = access_ok b sz rg m \<and> mem_tag m' a \<noteq> F32"
    if "access_ok b sz rg m a" "mem_tag m a \<noteq> F32" for m a sp
    using that by (auto simp: mem_get_i_eq Let_def read_word_def fun_eq_iff access_ok_def accessible_def
        bounds_check_def memory_wf_def set_tag_def)
  show "mem_get_i b sz rg a (m, sp) = (Err (ViolateTransmutation (mem_tag m a) I32OrUsize), (m, sp))"
    if "access_ok b sz rg m a" "\<not> mem_tag m a \<noteq> F32" for m a sp
    using that by (simp add: mem_get_i_eq)
  show "\<exists>m' sp'. mem_set b sz rg a (raw_value v) (m, sp) = (Ok (), (m', sp'))
        \<and> access_ok b sz rg m' = access_ok b sz rg m \<and> mem_tag m' a = I32OrUsize
        \<and> (\<forall>c. mem_word m' c = (if c = a then raw_value v else mem_word m c))
        \<and> (\<forall>c. c \<noteq> a \<longrightarrow> mem_tag m' c = mem_tag m c)"
    if "access_ok b sz rg m a" for m a v sp
    using that by (simp add: mem_set_eq fun_eq_iff)
qed simp

interpretation float_port: memory_port "access_ok b sz rg" "mem_get_f b sz rg" "mem_set_f b sz rg"
  to_bits "\<lambda>t. t \<in> {F32, Unknown}" F32
proof
  show "\<exists>v m' sp'. mem_get_f b sz rg a (m, sp) = (Ok v, (m', sp')) \<and> to_bits v = mem_word m a
        \<and> mem_inner m' = mem_inner m \<and> instr_mem_range m' = instr_mem_range m
        \<and> access_ok b sz rg m' = access_ok b sz rg m \<and> mem_tag m' a \<in> {F32, Unknown}"
    if "access_ok b sz rg m a" "mem_tag m a \<in> {F32, Unknown}" for m a sp
    using that by (auto simp: mem_get_f_eq read_word_def fun_eq_iff access_ok_def accessible_def
        bounds_check_def memory_wf_def set_tag_def)
  show "mem_get_f b sz rg a (m, sp) = (Err (ViolateTransmutation (mem_tag m a) F32), (m, sp))"
    if "access_ok b sz rg m a" "\<not> mem_tag m a \<in> {F32, Unknown}" for m a sp
    using that by (simp add: mem_get_f_eq)
  show "\<exists>m' sp'. mem_set_f b sz rg a v (m, sp) = (Ok (), (m', sp'))
        \<and> access_ok b sz rg m' = access_ok b sz rg m \<and> mem_tag m' a = F32
        \<and> (\<forall>c. mem_word m' c = (if c = a then to_bits v else mem_word m c))
        \<and> (\<forall>c. c \<noteq> a \<longrightarrow> mem_tag m' c = mem_tag m c)"
    if "access_ok b sz rg m a" for m a v sp
    using that by (simp add: mem_set_f_eq fun_eq_iff)
qed simp

section \<open>Properties\<close>

text \<open>The memory after the word \<open>w\<close> of type \<open>t\<close> was stored at \<open>a\<close>.\<close>

definition stored ::
  "usize \<Rightarrow> memory_region_stat_builder \<Rightarrow> memory \<Rightarrow> usize \<Rightarrow> u32 \<Rightarrow> ty \<Rightarrow> memory \<Rightarrow> bool" where
  "stored sz rg m a w t m' \<longleftrightarrow>
     mem_word m' = (mem_word m)(a := w) \<and> mem_tag m' = (mem_tag m)(a := t)
     \<and> instr_mem_range m' = instr_mem_range m
     \<and> spy_on_read m' = spy_on_read m \<and> spy_on_write m' = spy_on_write m
     \<and> stat_mem m' = stat_on_write (region_of rg (word_of_nat a)) (stat_mem m) \<and> memory_wf sz m'"

text \<open>
  C14. Typed memory discipline: at an admissible address an integer store is read back by an
  integer load and a float store by a float load, bit for bit and with the type of the store,
  while a load through the other port is refused with the type that was stored and the type
  that was attempted, and the refusal leaves the memory, its types, counters and watch reports
  exactly as the store left them.
\<close>
theorem typed_memory_discipline:
  assumes "access_ok b sz rg m a"
  shows "fst (act_bind (mem_set b sz rg a w) (\<lambda>_. mem_get_i b sz rg a) (m, sp)) = Ok (typed w I32OrUsize)
    \<and> fst (act_bind (mem_set_f b sz rg a x) (\<lambda>_. mem_get_f b sz rg a) (m, sp)) = Ok x
    \<and> act_bind (mem_set b sz rg a w) (\<lambda>_. mem_get_f b sz rg a) (m, sp)
        = (Err (ViolateTransmutation I32OrUsize F32), snd (mem_set b sz rg a w (m, sp)))
    \<and> act_bind (mem_set_f b sz rg a x) (\<lambda>_. mem_get_i b sz rg a) (m, sp)
        = (Err (ViolateTransmutation F32 I32OrUsize), snd (mem_set_f b sz rg a x (m, sp)))"
  using assms
  by (simp add: act_bind_def mem_set_eq mem_set_f_eq mem_get_i_eq mem_get_f_eq)

lemma access_ok_new:
  "access_ok \<lparr>debug_assertions = True, isa_2nd = False\<rparr> 16
     \<lparr>hp_min = 2, sp_min = 1000, sp_max = 1000\<rparr> (memory_new 16) 3"
  by (simp add: access_ok_def memory_wf_def memory_new_def accessible_iff region_known_def)

theorem typed_memory_discipline_witness:
  "fst (act_bind (mem_set \<lparr>debug_assertions = True, isa_2nd = False\<rparr> 16
        \<lparr>hp_min = 2, sp_min = 1000, sp_max = 1000\<rparr> 3 0xDEADBEEF)
      (\<lambda>_. mem_get_i \<lparr>debug_assertions = True, isa_2nd = False\<rparr> 16
        \<lparr>hp_min = 2, sp_min = 1000, sp_max = 1000\<rparr> 3) (memory_new 16, None))
   = Ok (typed 0xDEADBEEF I32OrUsize)"
  using typed_memory_discipline [OF access_ok_new] by simp

text \<open>
  C15. A store at an admissible address succeeds and changes one word, through the integer and the
  float port alike: the stored word and its type are replaced, every other word and type is as
  before, the code range and both tables of watch points are untouched, the write is counted once
  in its region, and the memory stays well-formed.
\<close>
theorem store_effect:
  assumes "access_ok b sz rg m a"
  shows "(\<exists>m' sp'. mem_set b sz rg a w (m, sp) = (Ok (), (m', sp')) \<and> stored sz rg m a w I32OrUsize m')
    \<and> (\<exists>m' sp'. mem_set_f b sz rg a x (m, sp) = (Ok (), (m', sp')) \<and> stored sz rg m a (to_bits x) F32 m')"
  using assms access_ok_fits(5) [OF assms]
  by (auto simp: mem_set_eq mem_set_f_eq stored_def fun_eq_iff) (simp_all add: count_write_def set_word_def)

theorem store_effect_witness:
  "\<exists>m' sp'. mem_set \<lparr>debug_assertions = True, isa_2nd = False\<rparr> 16
       \<lparr>hp_min = 2, sp_min = 1000, sp_max = 1000\<rparr> 3 7 (memory_new 16, None) = (Ok (), (m', sp'))
     \<and> mem_word m' 3 = 7 \<and> mem_tag m' 2 = Unknown \<and> rc_heap (ms_write (stat_mem m')) = 0
     \<and> rc_stack (ms_write (stat_mem m')) = 1"
  using conjunct1 [OF store_effect [OF access_ok_new, of 7 None]]
  by (auto simp: stored_def memory_new_def region_of_def stat_on_write_def region_count_incr_def
      memory_stat_default_def region_count_zero_def)

text \<open>
  C16. Code is read-only: whatever a store does (succeed, be refused, or panic on the region
  test), the word fetched at any aligned program counter is the same before and after.
\<close>
theorem code_is_read_only:
  assumes "memory_wf sz m" "code_aligned m" "a < 2 ^ 62" "pc_into_usize p mod 4 = 0"
  shows "get_from_pc (fst (snd (mem_set b sz rg a w (m, sp)))) p = get_from_pc m p
    \<and> get_from_pc (fst (snd (mem_set_f b sz rg a x (m, sp)))) p = get_from_pc m p"
proof -
  have fetch: "get_from_pc (set_word a v (set_tag a t (count_write rg a m))) p = get_from_pc m p"
    if ok: "access_ok b sz rg m a" for v t
  proof (cases "fst (instr_mem_range m) \<le> pc_into_usize p \<and> pc_into_usize p < snd (instr_mem_range m)")
    case True
    let ?m = "set_tag a t (count_write rg a m)"
    have "pc_into_usize p + 4 \<le> snd (instr_mem_range m)"
      using True assms(2,4) unfolding code_aligned_def by presburger
    then have "\<forall>i \<in> set [pc_into_usize p..<pc_into_usize p + 4].
        vec_elt (mem_inner (set_word a v ?m)) i = vec_elt (mem_inner m) i"
      using store_keeps_code [of b sz rg ?m a _ v] ok assms(2) True
      by (auto simp: code_aligned_def)
    then have "map (vec_elt (mem_inner (set_word a v ?m))) [pc_into_usize p..<pc_into_usize p + 4]
        = map (vec_elt (mem_inner m)) [pc_into_usize p..<pc_into_usize p + 4]" by simp
    then have "vec_slice (mem_inner (set_word a v ?m)) (pc_into_usize p) 4
        = (vec_slice (mem_inner m) (pc_into_usize p) 4 :: (memory_access_error, u8 list) outcome)"
      unfolding vec_slice_def by simp
    then show ?thesis by (simp add: get_from_pc_def get_raw_addr_def Let_def)
  qed (auto simp: get_from_pc_def Let_def)
  show ?thesis
  proof (cases "access_ok b sz rg m a")
    case True
    then show ?thesis using fetch by (simp add: mem_set_eq mem_set_f_eq)
  next
    case False
    then have "\<not> accessible sz m a \<or> \<not> region_known b rg (word_of_nat a)"
      using assms(1,3) by (simp add: access_ok_def)
    then show ?thesis
      by (auto simp: mem_set_def mem_set_f_def act_simps bounds_check_eq on_write_def get_region_eq)
  qed
qed

theorem code_is_read_only_witness:
  "get_from_pc (fst (snd (mem_set \<lparr>debug_assertions = True, isa_2nd = False\<rparr> 16
       \<lparr>hp_min = 2, sp_min = 1000, sp_max = 1000\<rparr> 1 7
       ((memory_new 16)\<lparr>instr_mem_range := (4, 8)\<rparr>, None)))) (Pc 4) = Ok 0xCCCCCCCC"
proof -
  let ?m = "(memory_new 16)\<lparr>instr_mem_range := (4, 8)\<rparr>"
  have "memory_wf 16 ?m" "code_aligned ?m" "pc_into_usize (Pc 4) mod 4 = 0"
    by (simp_all add: memory_wf_def memory_new_def code_aligned_def pc_into_usize_def)
  moreover have "get_from_pc ?m (Pc 4) = Ok 0xCCCCCCCC"
    by (simp add: get_from_pc_def memory_new_def pc_into_usize_def get_raw_addr_def
        u32_from_le_bytes_def upt_conv_Cons)
  ultimately show ?thesis
    using code_is_read_only [of 16 ?m 1 "Pc 4"] by simp
qed

text \<open>
  C20. Watch points report exactly what happens. Setting one for reads, writes or both registers
  it at its address in exactly those tables. A store through either port to an address watched for
  writes reports the word and type it replaces and the ones it stores; an integer or float load
  that succeeds at an address watched for reads reports the read; a refused load and an access to
  an unwatched address leave the report as it was.
\<close>
theorem watch_reports:
  assumes "access_ok b sz rg m a"
  shows "(\<forall>k u c. spy_on_read (add_spy k u m) c = (if kind_contains k spy_read \<and> c = spy_addr u then Some u else spy_on_read m c)
          \<and> spy_on_write (add_spy k u m) c = (if kind_contains k spy_write \<and> c = spy_addr u then Some u else spy_on_write m c))
    \<and> snd (snd (mem_set b sz rg a w (m, sp))) = spied_write m a (typed w I32OrUsize) sp
    \<and> snd (snd (mem_set_f b sz rg a x (m, sp))) = spied_write m a (typed (to_bits x) F32) sp
    \<and> snd (snd (mem_get_i b sz rg a (m, sp))) = (if mem_tag m a = F32 then sp else spied_read m a sp)
    \<and> snd (snd (mem_get_f b sz rg a (m, sp))) = (if mem_tag m a \<in> {F32, Unknown} then spied_read m a sp else sp)"
  using assms
  by (auto simp: mem_set_eq mem_set_f_eq mem_get_i_eq mem_get_f_eq add_spy_def Let_def)

theorem watch_reports_witness:
  "snd (snd (mem_set \<lparr>debug_assertions = True, isa_2nd = False\<rparr> 16
       \<lparr>hp_min = 2, sp_min = 1000, sp_max = 1000\<rparr> 3 7
       (add_spy spy_write \<lparr>spy_addr = 3, expire_at = None\<rparr> (memory_new 16), None)))
   = Some \<lparr>sr_kind = WriteResult (typed 0xCCCCCCCC Unknown) (typed 7 I32OrUsize),
           sr_target = SpyMemory \<lparr>spy_addr = 3, expire_at = None\<rparr>\<rparr>"
proof -
  let ?m = "add_spy spy_write \<lparr>spy_addr = 3, expire_at = None\<rparr> (memory_new 16)"
  have "access_ok \<lparr>debug_assertions = True, isa_2nd = False\<rparr> 16
     \<lparr>hp_min = 2, sp_min = 1000, sp_max = 1000\<rparr> ?m 3"
    by (simp add: access_ok_def memory_wf_def memory_new_def accessible_iff region_known_def
        add_spy_def Let_def)
  from watch_reports [OF this, of 7 None] show ?thesis
    by (simp add: spied_write_def add_spy_def Let_def kind_contains_def spy_read_def spy_write_def memory_new_def
        mem_word_def u32_from_le_bytes_def upt_conv_Cons)
qed

end
