(* ===== verification/Cache.thy ===== *)
theory Cache
  imports Rust_Std
begin

text \<open>
  \<^verbatim>\<open>core_sim/src/cache.rs\<close>: a direct-mapped cache that only keeps tags. \<open>nlines\<close> is the
  const parameter \<^verbatim>\<open>NLINES\<close>. The abstract view is the history of accesses: an access
  hits when the previous access to the same line carried the same tag.
\<close>

section \<open>The cache\<close>

definition CACHE_NUM_LINES :: usize where "CACHE_NUM_LINES = 16384"

type_synonym cache = "u32 vec"

definition cache_new :: "usize \<Rightarrow> cache" where
  "cache_new nlines = vec_replicate nlines 0"

text \<open>\<^verbatim>\<open>tag as u32\<close> truncates.\<close>

definition access_cache :: "usize \<Rightarrow> usize \<Rightarrow> (cache, 'e, bool) action" where
  "access_cache nlines a =
     (let line = (a div 4) mod nlines; tag = word_of_nat ((a div 4) div nlines) in
      act_bind (act_read (\<lambda>c. vec_get c line)) (\<lambda>t.
        if t \<noteq> tag then act_bind (act_try (\<lambda>c. vec_set c line tag)) (\<lambda>_. act_ret False)
        else act_ret True))"

section \<open>Refinement of the access history\<close>

abbreviation line_of :: "usize \<Rightarrow> usize \<Rightarrow> usize" where
  "line_of nlines a \<equiv> (a div 4) mod nlines"

abbreviation tag_of :: "usize \<Rightarrow> usize \<Rightarrow> u32" where
  "tag_of nlines a \<equiv> word_of_nat ((a div 4) div nlines)"

text \<open>The specification: the tag last seen on a line, zero for a line never accessed.\<close>

definition last_tag :: "usize \<Rightarrow> usize list \<Rightarrow> usize \<Rightarrow> u32" where
  "last_tag nlines hist l =
     fold (\<lambda>a t. if line_of nlines a = l then tag_of nlines a else t) hist 0"

definition access_all :: "usize \<Rightarrow> usize list \<Rightarrow> (cache, 'e, unit) action" where
  "access_all nlines = act_iter (\<lambda>a. act_bind (access_cache nlines a) (\<lambda>_. act_ret ()))"

lemma access_cache_eq:
  assumes "vec_len c = nlines" and "0 < nlines"
  shows "access_cache nlines a c =
    (Ok (vec_elt c (line_of nlines a) = tag_of nlines a),
     Vec nlines ((vec_elt c)(line_of nlines a := tag_of nlines a)))"
proof -
  have "line_of nlines a < vec_len c" using assms by simp
  then show ?thesis
    using assms fun_upd_idem [of "vec_elt c" "line_of nlines a" "tag_of nlines a"]
    by (cases "vec_elt c (line_of nlines a) = tag_of nlines a") (auto simp: access_cache_def Let_def act_simps)
qed

lemma access_all_eq:
  assumes "0 < nlines"
  shows "(access_all nlines hist :: (cache, 'e, unit) action) (Vec nlines f) =
    (Ok (), Vec nlines (\<lambda>l. fold (\<lambda>a t. if line_of nlines a = l then tag_of nlines a else t) hist (f l)))"
proof (induction hist arbitrary: f)
  case Nil
  then show ?case by (simp add: access_all_def act_simps)
next
  case (Cons a hist)
  have "(access_all nlines (a # hist) :: (cache, 'e, unit) action) (Vec nlines f)
      = access_all nlines hist (Vec nlines (f(line_of nlines a := tag_of nlines a)))"
    using assms by (simp add: access_all_def act_simps access_cache_eq)
  moreover have "(f(line_of nlines a := tag_of nlines a)) l =
      (if line_of nlines a = l then tag_of nlines a else f l)" for l
    by auto
  ultimately show ?case by (simp only: Cons.IH fold_simps)
qed

text \<open>
  C21. The tag array implements a direct-mapped cache: after any history of accesses to a new
  cache, the next access hits exactly when the last access to its line carried its tag; a line
  that was never accessed counts as holding tag zero (there is no valid bit), so the first access
  of a block with tag zero is a hit.
\<close>
theorem cache_refines_history:
  assumes "0 < nlines"
  shows "fst (act_bind (access_all nlines hist) (\<lambda>_. access_cache nlines a) (cache_new nlines))
    = Ok (last_tag nlines hist (line_of nlines a) = tag_of nlines a)"
proof -
  have "cache_new nlines = Vec nlines (\<lambda>_. 0)" by (simp add: cache_new_def vec_replicate_def)
  then show ?thesis
    using assms by (simp add: act_bind_def access_all_eq access_cache_eq last_tag_def)
qed

theorem cache_refines_history_witness:
  "fst (act_bind (access_all CACHE_NUM_LINES []) (\<lambda>_. access_cache CACHE_NUM_LINES 20000)
      (cache_new CACHE_NUM_LINES)) = (Ok True :: (unit, bool) outcome)
   \<and> fst (act_bind (access_all CACHE_NUM_LINES [65536]) (\<lambda>_. access_cache CACHE_NUM_LINES 0)
      (cache_new CACHE_NUM_LINES)) = (Ok False :: (unit, bool) outcome)"
  using cache_refines_history [of CACHE_NUM_LINES "[]" 20000, where ?'a = unit]
    cache_refines_history [of CACHE_NUM_LINES "[65536]" 0, where ?'a = unit]
  by (simp add: CACHE_NUM_LINES_def last_tag_def)

end
