(* ===== verification/Branch_Predictor.thy ===== *)
theory Branch_Predictor
  imports Rust_Std
begin

text \<open>
  \<^verbatim>\<open>core_sim/src/branch_predictor.rs\<close>: a table of two-bit saturating counters indexed by the
  address modulo its size. \<open>ncounters\<close> is the const parameter \<^verbatim>\<open>NCOUNTERS\<close>.
\<close>

section \<open>The predictor\<close>

definition NUM_COUNTERS :: usize where "NUM_COUNTERS = 64"

datatype saturating_counter = StronglyUntaken | WeaklyUntaken | WeaklyTaken | StronglyTaken

fun counter_next :: "saturating_counter \<Rightarrow> saturating_counter" where
  "counter_next StronglyUntaken = WeaklyUntaken"
| "counter_next WeaklyUntaken = WeaklyTaken"
| "counter_next WeaklyTaken = StronglyTaken"
| "counter_next StronglyTaken = StronglyTaken"

fun counter_prev :: "saturating_counter \<Rightarrow> saturating_counter" where
  "counter_prev StronglyUntaken = StronglyUntaken"
| "counter_prev WeaklyUntaken = StronglyUntaken"
| "counter_prev WeaklyTaken = WeaklyUntaken"
| "counter_prev StronglyTaken = WeaklyTaken"

type_synonym branch_predictor = "saturating_counter vec"

definition branch_predictor_new :: "usize \<Rightarrow> branch_predictor" where
  "branch_predictor_new ncounters = vec_replicate ncounters WeaklyTaken"

definition predict :: "usize \<Rightarrow> branch_predictor \<Rightarrow> usize \<Rightarrow> ('e, bool) outcome" where
  "predict ncounters p a =
     bind_out (vec_get p (a mod ncounters)) (\<lambda>c.
       Ok (c = StronglyTaken \<or> c = WeaklyTaken))"

definition update_state :: "usize \<Rightarrow> usize \<Rightarrow> bool \<Rightarrow> (branch_predictor, 'e, unit) action" where
  "update_state ncounters a result =
     act_bind (act_read (\<lambda>p. vec_get p (a mod ncounters))) (\<lambda>c.
       act_try (\<lambda>p. vec_set p (a mod ncounters) (if result then counter_next c else counter_prev c)))"

section \<open>The contract of a saturating counter\<close>

text \<open>
  A counter over \<open>0..top\<close> that moves by one and stays at its ends. The value after a run of equal
  outcomes, and how many outcomes it takes to change a decision taken at a threshold, follow from
  the two step laws.
\<close>

locale saturating =
  fixes up :: "'c \<Rightarrow> 'c" and down :: "'c \<Rightarrow> 'c" and count :: "'c \<Rightarrow> nat" and top :: nat
  assumes count_up: "count (up c) = min top (count c + 1)"
    and count_down: "count (down c) = count c - 1"
    and count_le: "count c \<le> top"
    and count_inj: "count c = count d \<Longrightarrow> c = d"
begin

lemma count_ups: "count ((up ^^ n) c) = min top (count c + n)"
  using count_le [of c] by (induction n) (auto simp: count_up)

lemma count_downs: "count ((down ^^ n) c) = count c - n"
  by (induction n) (auto simp: count_down)

lemma run_decides:
  assumes "t \<le> top"
  shows "t \<le> count ((up ^^ t) c)" and "t > 0 \<Longrightarrow> count ((down ^^ (top - t + 1)) c) < t"
  using assms count_le [of c] by (auto simp: count_ups count_downs simp del: funpow.simps)

lemma single_outlier:
  assumes "count c = top" and "t + 1 \<le> top"
  shows "t \<le> count (down c)" and "up (down c) = c"
  using assms by (auto simp: count_down intro!: count_inj simp: count_up)

end

fun counter_value :: "saturating_counter \<Rightarrow> nat" where
  "counter_value StronglyUntaken = 0"
| "counter_value WeaklyUntaken = 1"
| "counter_value WeaklyTaken = 2"
| "counter_value StronglyTaken = 3"

interpretation two_bit: saturating counter_next counter_prev counter_value 3
proof
  fix c d :: saturating_counter
  show "counter_value (counter_next c) = min 3 (counter_value c + 1)" by (cases c) auto
  show "counter_value (counter_prev c) = counter_value c - 1" by (cases c) auto
  show "counter_value c \<le> 3" by (cases c) auto
  show "counter_value c = counter_value d \<Longrightarrow> c = d" by (cases c; cases d) auto
qed

section \<open>The table\<close>

definition step_counter :: "bool \<Rightarrow> saturating_counter \<Rightarrow> saturating_counter" where
  "step_counter result c = (if result then counter_next c else counter_prev c)"

lemma taken_iff: "c = StronglyTaken \<or> c = WeaklyTaken \<longleftrightarrow> 2 \<le> counter_value c"
  by (cases c) auto

lemma predict_eq:
  assumes "vec_len p = n" "0 < n"
  shows "predict n p a = Ok (2 \<le> counter_value (vec_elt p (a mod n)))"
  using assms by (simp add: predict_def taken_iff)

lemma update_state_eq:
  assumes "vec_len p = n" "0 < n"
  shows "update_state n a r p =
    (Ok (), Vec n ((vec_elt p)(a mod n := step_counter r (vec_elt p (a mod n)))))"
  using assms by (auto simp: update_state_def act_simps step_counter_def)

definition update_all :: "usize \<Rightarrow> (usize \<times> bool) list \<Rightarrow> (branch_predictor, 'e, unit) action" where
  "update_all n = act_iter (\<lambda>(a, r). update_state n a r)"

text \<open>The specification: one counter per residue, fed only the outcomes of its own addresses.\<close>

definition counter_of :: "usize \<Rightarrow> (usize \<times> bool) list \<Rightarrow> usize \<Rightarrow> saturating_counter \<Rightarrow> saturating_counter" where
  "counter_of n hist k = fold (\<lambda>(a, r). if a mod n = k then step_counter r else id) hist"

lemma update_all_eq:
  assumes "0 < n"
  shows "(update_all n hist :: (branch_predictor, 'e, unit) action) (Vec n f) = (Ok (), Vec n (\<lambda>k. counter_of n hist k (f k)))"
proof (induction hist arbitrary: f)
  case Nil
  then show ?case by (simp add: update_all_def act_simps counter_of_def)
next
  case (Cons h hist)
  obtain a r where h: "h = (a, r)" by (cases h)
  have "(update_all n (h # hist) :: (branch_predictor, 'e, unit) action) (Vec n f) = update_all n hist (Vec n (f(a mod n := step_counter r (f (a mod n)))))"
    using assms by (simp add: update_all_def h act_simps update_state_eq)
  also have "\<dots> = (Ok (), Vec n (\<lambda>k. counter_of n (h # hist) k (f k)))"
    by (auto simp: Cons.IH counter_of_def h fun_eq_iff)
  finally show ?case .
qed

lemma counter_of_run:
  assumes "\<forall>(a, r) \<in> set hist. a mod n = k \<longrightarrow> r = res"
  shows "counter_of n hist k c = (step_counter res ^^ length (filter (\<lambda>(a, r). a mod n = k) hist)) c"
  using assms
proof (induction hist arbitrary: c)
  case (Cons h hist)
  then show ?case
    by (cases h) (auto simp: counter_of_def funpow_swap1 split: if_splits)
qed (simp add: counter_of_def)

lemma two_steps_decide: "2 \<le> m \<Longrightarrow> 2 \<le> counter_value ((step_counter res ^^ m) c) \<longleftrightarrow> res"
proof (cases res)
  case True
  then have "step_counter res = counter_next" by (auto simp: step_counter_def)
  moreover assume "2 \<le> m"
  ultimately show ?thesis using True two_bit.count_ups [of m c] by simp
next
  case False
  then have "step_counter res = counter_prev" by (auto simp: step_counter_def)
  moreover assume "2 \<le> m"
  ultimately show ?thesis using False two_bit.count_downs [of m c] two_bit.count_le [of c] by simp
qed

text \<open>
  The predictor learns in two branches and only from its own slot: after any history in
  which at least two outcomes fell on the slot of address \<open>a\<close> and all of those were equal, the
  prediction for \<open>a\<close> is that outcome, whatever the table held before and whatever happened on
  the other slots.
\<close>
lemma predictor_learns:
  assumes "vec_len p = n" "0 < n" and "\<forall>(c, r) \<in> set hist. c mod n = a mod n \<longrightarrow> r = res"
    and "2 \<le> length (filter (\<lambda>(c, r). c mod n = a mod n) hist)"
  shows "\<exists>p'. update_all n hist p = (Ok (), p') \<and> predict n p' a = Ok res"
proof -
  obtain f where p: "p = Vec n f" using assms(1) by (cases p) auto
  have "counter_of n hist (a mod n) (f (a mod n)) =
      (step_counter res ^^ length (filter (\<lambda>(c, r). c mod n = a mod n) hist)) (f (a mod n))"
    by (rule counter_of_run) (use assms(3) in auto)
  then show ?thesis
    using assms(2,4) by (simp add: p update_all_eq predict_eq two_steps_decide)
qed

end
