(* ===== verification/Io.thy ===== *)
theory Io
  imports Errors Rust_Std
begin

text \<open>
  \<^verbatim>\<open>core_sim/src/io.rs\<close> and the \<^verbatim>\<open>Output\<close> side of \<^verbatim>\<open>ppm.rs\<close>: the traits
  \<^verbatim>\<open>Input\<close> and \<^verbatim>\<open>Output\<close> as records of their methods, which the processor receives
  as arguments, and the devices that implement them.
\<close>

section \<open>Traits\<close>

record 'i input_trait =
  inw :: "('i, anyhow_error, u32) action"
  finw :: "('i, anyhow_error, f32) action"

record 'o output_trait =
  outb :: "u8 \<Rightarrow> ('o, anyhow_error, unit) action"

section \<open>EmptyIO\<close>

type_synonym empty_io = unit

definition empty_inw :: "(empty_io, anyhow_error, u32) action" where
  "empty_inw = act_err (Message ''inw called'')"

definition empty_finw :: "(empty_io, anyhow_error, f32) action" where
  "empty_finw = act_err (Message ''finw called'')"

definition empty_outb :: "u8 \<Rightarrow> (empty_io, anyhow_error, unit) action" where
  "empty_outb c = act_err (Message ''outb called'')"

definition empty_input :: "empty_io input_trait" where
  "empty_input = \<lparr>inw = empty_inw, finw = empty_finw\<rparr>"

definition empty_output :: "empty_io output_trait" where
  "empty_output = \<lparr>outb = empty_outb\<rparr>"

section \<open>BinaryInput\<close>

record binary_input =
  bi_content :: "u8 list"
  bi_read_index :: usize

definition binary_input_new :: "u8 list \<Rightarrow> binary_input" where
  "binary_input_new content = \<lparr>bi_content = content, bi_read_index = 0\<rparr>"

text \<open>The slice panics when fewer than four bytes are left; the index is not advanced.\<close>

definition binary_read4 :: "binary_input \<Rightarrow> ('e, u8 list) outcome" where
  "binary_read4 s =
     (let a = bi_read_index s in
      if a + 4 \<le> length (bi_content s) then Ok (take 4 (drop a (bi_content s)))
      else Panic IndexOutOfBounds)"

definition binary_inw :: "(binary_input, anyhow_error, u32) action" where
  "binary_inw = act_bind (act_read binary_read4) (\<lambda>v. act_ret (u32_from_le_bytes v))"

definition binary_finw :: "(binary_input, anyhow_error, f32) action" where
  "binary_finw = act_bind (act_read binary_read4) (\<lambda>v. act_ret (Bits (u32_from_le_bytes v)))"

definition binary_input_trait :: "binary_input input_trait" where
  "binary_input_trait = \<lparr>inw = binary_inw, finw = binary_finw\<rparr>"

section \<open>BinaryOutput and PPM data\<close>

record binary_output = bo_content :: "u8 list"

definition binary_output_new :: binary_output where
  "binary_output_new = \<lparr>bo_content = []\<rparr>"

definition binary_outb :: "u8 \<Rightarrow> (binary_output, anyhow_error, unit) action" where
  "binary_outb c = act_modify (\<lambda>s. s\<lparr>bo_content := bo_content s @ [c]\<rparr>)"

definition binary_output_trait :: "binary_output output_trait" where
  "binary_output_trait = \<lparr>outb = binary_outb\<rparr>"

record ppm_data = ppm_inner :: "u8 list"

definition ppm_new :: ppm_data where
  "ppm_new = \<lparr>ppm_inner = []\<rparr>"

definition ppm_outb :: "u8 \<Rightarrow> (ppm_data, anyhow_error, unit) action" where
  "ppm_outb c = act_modify (\<lambda>s. s\<lparr>ppm_inner := ppm_inner s @ [c]\<rparr>)"

definition ppm_output_trait :: "ppm_data output_trait" where
  "ppm_output_trait = \<lparr>outb = ppm_outb\<rparr>"

section \<open>The contract of a recording output\<close>

text \<open>
  A device that accepts every byte and keeps them in order; its content determines it.
\<close>

locale recorder =
  fixes put :: "u8 \<Rightarrow> ('o, anyhow_error, unit) action"
    and fresh :: 'o
    and recorded :: "'o \<Rightarrow> u8 list"
  assumes put_ok: "\<exists>o'. put c s = (Ok (), o') \<and> recorded o' = recorded s @ [c]"
    and fresh_empty: "recorded fresh = []"
begin

lemma put_all:
  "\<exists>o'. act_iter put cs s = (Ok (), o') \<and> recorded o' = recorded s @ cs"
proof (induction cs arbitrary: s)
  case Nil
  then show ?case by (simp add: act_simps)
next
  case (Cons c cs)
  obtain s1 where s1: "put c s = (Ok (), s1)" "recorded s1 = recorded s @ [c]"
    using put_ok by blast
  then show ?case using Cons.IH [of s1] by (auto simp: act_bind_def)
qed

lemma records_stream: "\<exists>o'. act_iter put cs fresh = (Ok (), o') \<and> recorded o' = cs"
  using put_all [of cs fresh] fresh_empty by auto

end

interpretation binary_recorder: recorder binary_outb binary_output_new bo_content
  by unfold_locales (auto simp: binary_outb_def binary_output_new_def act_simps)

interpretation ppm_recorder: recorder ppm_outb ppm_new ppm_inner
  by unfold_locales (auto simp: ppm_outb_def ppm_new_def act_simps)

text \<open>
  Both output devices are faithful recorders: writing any sequence of bytes to a new one
  succeeds and leaves exactly that sequence as its content.
\<close>
lemma outputs_record:
  "(\<exists>s. act_iter binary_outb cs binary_output_new = (Ok (), s) \<and> bo_content s = cs)
   \<and> (\<exists>s. act_iter ppm_outb cs ppm_new = (Ok (), s) \<and> ppm_inner s = cs)"
  using binary_recorder.records_stream [of cs] ppm_recorder.records_stream [of cs] by blast

text \<open>
  The binary input never advances: reading a word leaves the device unchanged, so every
  read of a file of at least four bytes returns its first word again, and an input shorter than
  that makes the processor panic instead of reporting an error.
\<close>
theorem binary_input_stuck:
  "(let s = binary_input_new content in
    binary_inw s = (if 4 \<le> length content then Ok (u32_from_le_bytes (take 4 content))
                    else Panic IndexOutOfBounds, s)
    \<and> snd (binary_finw s) = s
    \<and> fst (act_bind binary_inw (\<lambda>_. binary_inw) s) = fst (binary_inw s))"
  by (simp add: binary_inw_def binary_finw_def binary_read4_def binary_input_new_def act_simps)

end
