(* ===== verification/Fpu_Wrapper.thy ===== *)
theory Fpu_Wrapper
  imports Float32
begin

text \<open>
  \<^verbatim>\<open>core_sim/src/fpu_wrapper.rs\<close> with the \<^verbatim>\<open>fpu_sim\<close> feature: thin wrappers around the
  bound C functions. The bindings are generated by the build, so the C functions are a record of
  parameters; an \<^verbatim>\<open>i32\<close> argument or result is its 32-bit pattern.
\<close>

record binding =
  c_fmul :: "f32 \<Rightarrow> f32 \<Rightarrow> f32"
  c_fdiv :: "f32 \<Rightarrow> f32 \<Rightarrow> f32"
  c_fsqrt :: "f32 \<Rightarrow> f32"
  c_fcvtsw :: "u32 \<Rightarrow> f32"
  c_fcvtws :: "f32 \<Rightarrow> u32"
  c_ffloor :: "f32 \<Rightarrow> f32"

definition fpu_fmul :: "binding \<Rightarrow> f32 \<Rightarrow> f32 \<Rightarrow> f32" where "fpu_fmul c x y = c_fmul c x y"
definition fpu_fdiv :: "binding \<Rightarrow> f32 \<Rightarrow> f32 \<Rightarrow> f32" where "fpu_fdiv c x y = c_fdiv c x y"
definition fpu_fsqrt :: "binding \<Rightarrow> f32 \<Rightarrow> f32" where "fpu_fsqrt c x = c_fsqrt c x"
definition fpu_fcvtsw :: "binding \<Rightarrow> u32 \<Rightarrow> f32" where "fpu_fcvtsw c i = c_fcvtsw c i"
definition fpu_fcvtws :: "binding \<Rightarrow> f32 \<Rightarrow> u32" where "fpu_fcvtws c x = c_fcvtws c x"
definition fpu_ffloor :: "binding \<Rightarrow> f32 \<Rightarrow> f32" where "fpu_ffloor c x = c_ffloor c x"
definition fpu_fhalf :: "binding \<Rightarrow> f32 \<Rightarrow> f32" where "fpu_fhalf c x = c_fmul c x f32_half"
definition fpu_ffrac :: "binding \<Rightarrow> f32 \<Rightarrow> f32" where "fpu_ffrac c x = f32_sub x (c_ffloor c x)"
definition fpu_finv :: "binding \<Rightarrow> f32 \<Rightarrow> f32" where "fpu_finv c x = c_fdiv c f32_one x"

end
