(* ===== verification/Cpu.thy ===== *)
theory Cpu
  imports Decode_Instr_2nd Memory Cache Branch_Predictor Io Fpu_Wrapper
begin

text \<open>
  \<^verbatim>\<open>core_sim/src/cpu.rs\<close>: the processor. One call of \<open>cycle_one_full\<close> fetches, decodes,
  reads registers, executes, accesses memory, writes back and charges clock cycles to a model of
  the pipeline. The type parameters \<^verbatim>\<open>I: Input\<close> and \<^verbatim>\<open>O: Output\<close> are the device
  states, and their methods are passed as the records \<open>it\<close> and \<open>ot\<close>; the bound floating-point
  unit is the record \<open>fpu\<close>.
\<close>

section \<open>Constants and stage data\<close>

definition DDR2_ACCESS_CYCLES :: usize where "DDR2_ACCESS_CYCLES = 90"
definition BRAM_WORD_SIZE :: usize where "BRAM_WORD_SIZE = 16384"
definition STACK_WORD_SIZE :: usize where "STACK_WORD_SIZE = 256"

datatype pipeline_stage = StInstrFetch | StInstrDecode | StExecute | StMemoryAccess | StWriteBack

record pipeline_stat =
  ex_cycles :: usize
  ma_cycles :: usize
  result_ready_stage :: "pipeline_stage option"
  write_back_id :: "regid option"
  float_write_back_id :: "fregid option"

record instr_decode_input = id_bin :: u32

record instr_fetch_output =
  if_id_in :: instr_decode_input
  if_old_pc :: pc
  if_pc_plus4 :: pc

record reg_fetch_input =
  rf_instr :: decoded_instr
  rf_old_pc :: u32
  rf_pc_plus4 :: u32

type_synonym fetched_instr = "(u32, regid, f32, fregid) instr"

record execute_input =
  ex_instr :: fetched_instr
  ex_old_pc :: u32
  ex_pc_plus4 :: u32

datatype memory_access_input = MaI usize u32 | MaF usize f32 | MaIMem regid usize | MaFMem fregid usize

datatype write_back_input = WbI regid u32 | WbF fregid f32

record execute_output =
  eo_ma_in :: "memory_access_input option"
  eo_wb_in :: "write_back_input option"
  eo_new_pc :: "usize option"
  eo_use_fpu :: bool
  eo_flush :: bool
  eo_cycles :: usize
  eo_end :: bool

definition execute_output_default :: execute_output where
  "execute_output_default =
     \<lparr>eo_ma_in = None, eo_wb_in = None, eo_new_pc = None, eo_use_fpu = False, eo_flush = False,
      eo_cycles = 0, eo_end = False\<rparr>"

record memory_access_output =
  mo_cycles :: usize
  mo_cache_hit :: bool
  mo_use_bram :: bool
  mo_wb_in :: "write_back_input option"

definition memory_access_output_default :: memory_access_output where
  "memory_access_output_default =
     \<lparr>mo_cycles = 0, mo_cache_hit = False, mo_use_bram = False, mo_wb_in = None\<rparr>"

record execution_trace =
  tr_pc :: pc
  tr_undecoded_instr :: u32
  tr_decoded_instr :: decoded_instr

datatype cpu_break_reason = CpuSpy spy_result

datatype cpu_control_flow = CpuContinue | CpuBreak cpu_break_reason | CpuExit

record cycle_result =
  cr_cycles :: usize
  cr_trace :: "execution_trace option"
  cr_flow :: cpu_control_flow

definition cycle_result_default :: cycle_result where
  "cycle_result_default = \<lparr>cr_cycles = 0, cr_trace = None, cr_flow = CpuContinue\<rparr>"

section \<open>Statistics\<close>

type_synonym instr_stat = "nat vec"

definition instr_stat_new :: instr_stat where
  "instr_stat_new = vec_replicate instr_id_max 0"

definition encounter_instr :: "build \<Rightarrow> decoded_instr \<Rightarrow> (instr_stat, 'e, unit) action" where
  "encounter_instr b d = act_try (\<lambda>v. vec_incr v (unat (id_inner (id_of_instr b d))))"

record branch_stat =
  taken_pred_taken_count :: usize
  taken_pred_untaken_count :: usize
  untaken_pred_taken_count :: usize
  untaken_pred_untaken_count :: usize

definition branch_stat_default :: branch_stat where
  "branch_stat_default =
     \<lparr>taken_pred_taken_count = 0, taken_pred_untaken_count = 0, untaken_pred_taken_count = 0,
      untaken_pred_untaken_count = 0\<rparr>"

definition branch_update_stat :: "bool \<Rightarrow> bool \<Rightarrow> branch_stat \<Rightarrow> branch_stat" where
  "branch_update_stat predicted actual s =
     (if predicted then
        if actual then s\<lparr>taken_pred_taken_count := taken_pred_taken_count s + 1\<rparr>
        else s\<lparr>untaken_pred_taken_count := untaken_pred_taken_count s + 1\<rparr>
      else if actual then s\<lparr>taken_pred_untaken_count := taken_pred_untaken_count s + 1\<rparr>
      else s\<lparr>untaken_pred_untaken_count := untaken_pred_untaken_count s + 1\<rparr>)"

record cache_stat =
  hit_count :: usize
  miss_count :: usize

definition cache_stat_default :: cache_stat where
  "cache_stat_default = \<lparr>hit_count = 0, miss_count = 0\<rparr>"

definition cache_update_stat :: "bool \<Rightarrow> cache_stat \<Rightarrow> cache_stat" where
  "cache_update_stat result s =
     (if result then s\<lparr>hit_count := hit_count s + 1\<rparr> else s\<lparr>miss_count := miss_count s + 1\<rparr>)"

section \<open>The processor state\<close>

record ('i, 'o) cpu =
  cpu_reg_file :: reg_file
  cpu_memory :: memory
  cpu_cache :: cache
  cpu_pc :: pc
  cpu_input :: 'i
  cpu_output :: 'o
  cpu_branch_predictor :: branch_predictor
  pipeline_state :: "pipeline_stat option list"
  i_stat :: instr_stat
  c_stat :: cache_stat
  b_stat :: branch_stat

type_synonym ('i, 'o, 'a) cpu_act = "(('i, 'o) cpu, runtime_error, 'a) action"

abbreviation on_regs :: "(reg_file, 'e, 'a) action \<Rightarrow> (('i, 'o) cpu, 'e, 'a) action" where
  "on_regs \<equiv> zoom cpu_reg_file (\<lambda>r s. s\<lparr>cpu_reg_file := r\<rparr>)"

abbreviation on_predictor :: "(branch_predictor, 'e, 'a) action \<Rightarrow> (('i, 'o) cpu, 'e, 'a) action" where
  "on_predictor \<equiv> zoom cpu_branch_predictor (\<lambda>r s. s\<lparr>cpu_branch_predictor := r\<rparr>)"

text \<open>
  \<^verbatim>\<open>get_data_and_text_len\<close>: the two length words of the image header. Slicing an image shorter
  than eight bytes panics.
\<close>

definition get_data_and_text_len :: "u8 list \<Rightarrow> ('e, u32 \<times> u32) outcome" where
  "get_data_and_text_len img =
     (if 8 \<le> length img
      then Ok (u32_from_le_bytes (take 4 img), u32_from_le_bytes (take 4 (drop 4 img)))
      else Panic IndexOutOfBounds)"

definition cpu_init_regs :: "build \<Rightarrow> u32 \<Rightarrow> (reg_file, 'e, unit) action" where
  "cpu_init_regs b hp =
     act_bind (set_hp hp) (\<lambda>_.
     act_bind (set_sp (word_of_nat (RAM_BYTE_SIZE div 4) - 1)) (\<lambda>_.
     act_bind (act_lift (case fregid_try_from b 1 of
                 Ok r \<Rightarrow> Ok r | Err e \<Rightarrow> Panic UnwrapFailed | Panic p \<Rightarrow> Panic p)) (\<lambda>f1.
     act_bind (reg_set_f f1 f32_one) (\<lambda>_. end_init))))"

definition cpu_new :: "build \<Rightarrow> u8 list \<Rightarrow> 'i \<Rightarrow> 'o \<Rightarrow> ('e, ('i, 'o) cpu) outcome" where
  "cpu_new b img input output =
     bind_out (get_data_and_text_len img) (\<lambda>(data_len, text_len).
     bind_out (add_u32 b data_len text_len) (\<lambda>hp.
     bind_out (case cpu_init_regs b hp (reg_file_new b) of
        (Ok _, rf) \<Rightarrow> Ok rf | (Err e, _) \<Rightarrow> Err e | (Panic p, _) \<Rightarrow> Panic p) (\<lambda>rf.
     let text_begin = push_bit 2 data_len in
     bind_out (add_u32 b text_begin (push_bit 2 text_len)) (\<lambda>text_end.
     bind_out (case init_from_slice (drop 8 img) (text_begin, text_end) (memory_new RAM_BYTE_SIZE) of
        (Ok _, m) \<Rightarrow> Ok m | (Err e, _) \<Rightarrow> Err e | (Panic p, _) \<Rightarrow> Panic p) (\<lambda>m.
     Ok \<lparr>cpu_reg_file = rf, cpu_memory = m, cpu_cache = cache_new CACHE_NUM_LINES,
         cpu_pc = Pc text_begin, cpu_input = input, cpu_output = output,
         cpu_branch_predictor = branch_predictor_new NUM_COUNTERS,
         pipeline_state = [None, None, None, None, None], i_stat = instr_stat_new,
         c_stat = cache_stat_default, b_stat = branch_stat_default\<rparr>)))))"

section \<open>Fetch, decode, register read\<close>

definition get_pc_addr :: "('i, 'o) cpu \<Rightarrow> addr" where
  "get_pc_addr s = pc_into_addr (cpu_pc s)"

definition instr_fetch :: "build \<Rightarrow> ('i, 'o, instr_fetch_output) cpu_act" where
  "instr_fetch b =
     act_bind (act_gets cpu_pc) (\<lambda>old_pc.
     act_bind (act_read (\<lambda>s. map_err MemoryAccessError (get_from_pc (cpu_memory s) old_pc))) (\<lambda>bin.
     act_bind (zoom cpu_pc (\<lambda>p s. s\<lparr>cpu_pc := p\<rparr>) (act_try (pc_incr b))) (\<lambda>_.
     act_bind (act_gets cpu_pc) (\<lambda>pc_plus4.
     act_ret \<lparr>if_id_in = \<lparr>id_bin = bin\<rparr>, if_old_pc = old_pc, if_pc_plus4 = pc_plus4\<rparr>))))"

definition instr_decode :: "build \<Rightarrow> instr_decode_input \<Rightarrow> (runtime_error, decoded_instr) outcome" where
  "instr_decode b d = map_err Anyhow (decode_from b (id_bin d))"

text \<open>The match of \<^verbatim>\<open>reg_fetch\<close>: source registers are replaced by their contents.\<close>

fun fetch_finstr ::
  "(regid, regid, fregid, fregid) finstr \<Rightarrow> (reg_file, 'e, (u32, regid, f32, fregid) finstr) action" where
  "fetch_finstr (FInstr_E i rd rs1 rs2) =
     act_bind (reg_get_f rs1) (\<lambda>v1. act_bind (reg_get_f rs2) (\<lambda>v2. act_ret (FInstr_E i rd v1 v2)))"
| "fetch_finstr (FInstr_G i rd rs1 rs2 rs3) =
     act_bind (reg_get_f rs1) (\<lambda>v1. act_bind (reg_get_f rs2) (\<lambda>v2.
     act_bind (reg_get_f rs3) (\<lambda>v3. act_ret (FInstr_G i rd v1 v2 v3))))"
| "fetch_finstr (FInstr_H i rd rs1) = act_bind (reg_get_f rs1) (\<lambda>v1. act_ret (FInstr_H i rd v1))"
| "fetch_finstr (FInstr_K i rd rs1 rs2) =
     act_bind (reg_get_f rs1) (\<lambda>v1. act_bind (reg_get_f rs2) (\<lambda>v2. act_ret (FInstr_K i rd v1 v2)))"
| "fetch_finstr (FInstr_X i rd rs1) = act_bind (reg_get rs1) (\<lambda>v1. act_ret (FInstr_X i rd v1))"
| "fetch_finstr (FInstr_Y i rd rs1) = act_bind (reg_get_f rs1) (\<lambda>v1. act_ret (FInstr_Y i rd v1))"
| "fetch_finstr (FInstr_W i rs1 rs2 imm) =
     act_bind (reg_get_f rs1) (\<lambda>v1. act_bind (reg_get_f rs2) (\<lambda>v2. act_ret (FInstr_W i v1 v2 imm)))"
| "fetch_finstr (FInstr_V i rs1 imm) = act_bind (reg_get_f rs1) (\<lambda>v1. act_ret (FInstr_V i v1 imm))"
| "fetch_finstr (Flw rd rs1 imm) = act_bind (reg_get rs1) (\<lambda>v1. act_ret (Flw rd v1 imm))"
| "fetch_finstr (Fsw rs2 rs1 imm) =
     act_bind (reg_get_f rs2) (\<lambda>v2. act_bind (reg_get rs1) (\<lambda>v1. act_ret (Fsw v2 v1 imm)))"

fun fetch_instr :: "decoded_instr \<Rightarrow> (reg_file, 'e, fetched_instr) action" where
  "fetch_instr (Instr_R i rd rs1 rs2) =
     act_bind (reg_get rs1) (\<lambda>v1. act_bind (reg_get rs2) (\<lambda>v2. act_ret (Instr_R i rd v1 v2)))"
| "fetch_instr (Instr_I i rd rs1 imm) = act_bind (reg_get rs1) (\<lambda>v1. act_ret (Instr_I i rd v1 imm))"
| "fetch_instr (Instr_S i rs1 rs2 imm) =
     act_bind (reg_get rs1) (\<lambda>v1. act_bind (reg_get rs2) (\<lambda>v2. act_ret (Instr_S i v1 v2 imm)))"
| "fetch_instr (Instr_B i rs1 rs2 imm) =
     act_bind (reg_get rs1) (\<lambda>v1. act_bind (reg_get rs2) (\<lambda>v2. act_ret (Instr_B i v1 v2 imm)))"
| "fetch_instr (Instr_P i rs1 imm imm2) = act_bind (reg_get rs1) (\<lambda>v1. act_ret (Instr_P i v1 imm imm2))"
| "fetch_instr (Instr_J i rd imm) = act_ret (Instr_J i rd imm)"
| "fetch_instr (Instr_IO (Outb rs)) = act_bind (reg_get rs) (\<lambda>v. act_ret (Instr_IO (Outb v)))"
| "fetch_instr (Instr_IO (Inw rd)) = act_ret (Instr_IO (Inw rd))"
| "fetch_instr (Instr_IO (Finw rd)) = act_ret (Instr_IO (Finw rd))"
| "fetch_instr (Instr_F f) = act_bind (fetch_finstr f) (\<lambda>g. act_ret (Instr_F g))"
| "fetch_instr (Instr_Misc End) = act_ret (Instr_Misc End)"

definition reg_fetch :: "reg_fetch_input \<Rightarrow> ('i, 'o, execute_input) cpu_act" where
  "reg_fetch r =
     act_bind (on_regs (fetch_instr (rf_instr r))) (\<lambda>i.
     act_ret \<lparr>ex_instr = i, ex_old_pc = rf_old_pc r, ex_pc_plus4 = rf_pc_plus4 r\<rparr>)"

section \<open>Execute\<close>

fun alu_R :: "build \<Rightarrow> rinstr \<Rightarrow> u32 \<Rightarrow> u32 \<Rightarrow> ('e, u32) outcome" where
  "alu_R b RAdd rs1 rs2 = Ok (rs1 + rs2)"
| "alu_R b RSub rs1 rs2 = Ok (rs1 - rs2)"
| "alu_R b RXor rs1 rs2 = Ok (rs1 XOR rs2)"
| "alu_R b ROr rs1 rs2 = Ok (rs1 OR rs2)"
| "alu_R b RAnd rs1 rs2 = Ok (rs1 AND rs2)"
| "alu_R b RSll rs1 rs2 = shl_u32 b rs1 rs2"
| "alu_R b RSra rs1 rs2 = shr_u32 b rs1 rs2"
| "alu_R b RSlt rs1 rs2 = Ok (if sint rs1 < sint rs2 then 1 else 0)"
| "alu_R b RMin rs1 rs2 = Ok (if sint rs1 \<le> sint rs2 then rs1 else rs2)"
| "alu_R b RMax rs1 rs2 = Ok (if sint rs1 \<le> sint rs2 then rs2 else rs1)"

definition exec_R :: "build \<Rightarrow> rinstr \<Rightarrow> regid \<Rightarrow> u32 \<Rightarrow> u32 \<Rightarrow> ('e, execute_output) outcome" where
  "exec_R b i rd rs1 rs2 =
     bind_out (alu_R b i rs1 rs2) (\<lambda>val.
     Ok (execute_output_default\<lparr>eo_wb_in := Some (WbI rd val), eo_cycles := 1\<rparr>))"

definition exec_I :: "build \<Rightarrow> iinstr \<Rightarrow> regid \<Rightarrow> u32 \<Rightarrow> u32 \<Rightarrow> u32 \<Rightarrow> ('e, execute_output) outcome" where
  "exec_I b i rd rs1 imm pc_plus4 =
     (let ret = execute_output_default; wb = (\<lambda>r val. Ok (r\<lparr>eo_wb_in := Some (WbI rd val)\<rparr>)) in
      case i of
        Addi \<Rightarrow> wb ret (rs1 + imm)
      | Xori \<Rightarrow> wb ret (rs1 XOR imm)
      | Ori \<Rightarrow> wb ret (rs1 OR imm)
      | Andi \<Rightarrow> wb ret (rs1 AND imm)
      | Slli \<Rightarrow> bind_out (shl_u32 b rs1 imm) (wb ret)
      | Slti \<Rightarrow> wb ret (if sint rs1 < sint imm then 1 else 0)
      | Lw \<Rightarrow> Ok (ret\<lparr>eo_ma_in := Some (MaIMem rd (unat (rs1 + imm)))\<rparr>)
      | Jalr \<Rightarrow> wb (ret\<lparr>eo_flush := True, eo_new_pc := Some (unat (rs1 + imm))\<rparr>) pc_plus4)"

definition exec_S :: "sinstr \<Rightarrow> u32 \<Rightarrow> u32 \<Rightarrow> u32 \<Rightarrow> execute_output" where
  "exec_S i rs1 rs2 imm =
     (let val = (case i of Sw \<Rightarrow> rs2); a = unat (rs1 + imm)
      in execute_output_default\<lparr>eo_ma_in := Some (MaI a val), eo_cycles := 1\<rparr>)"

text \<open>
  What the four conditional branch arms share: the target, the prediction and its statistics.
  The predictor is consulted at the already incremented program counter.
\<close>

definition exec_branch :: "u32 \<Rightarrow> u32 \<Rightarrow> bool \<Rightarrow> ('i, 'o, execute_output) cpu_act" where
  "exec_branch old_pc imm cond =
     (let new_pc = (if cond then Some (unat (old_pc + imm)) else None) in
      act_bind (act_read (\<lambda>s. predict NUM_COUNTERS (cpu_branch_predictor s) (pc_into_usize (cpu_pc s))))
        (\<lambda>prediction_result.
      act_bind (act_gets (\<lambda>s. pc_into_usize (cpu_pc s))) (\<lambda>p.
      act_bind (on_predictor (update_state NUM_COUNTERS p cond)) (\<lambda>_.
      act_bind (act_modify (\<lambda>s. s\<lparr>b_stat := branch_update_stat prediction_result cond (b_stat s)\<rparr>)) (\<lambda>_.
      act_ret (execute_output_default\<lparr>eo_new_pc := new_pc, eo_flush := prediction_result \<noteq> cond,
                 eo_cycles := 1\<rparr>))))))"

fun cond_B :: "binstr \<Rightarrow> u32 \<Rightarrow> u32 \<Rightarrow> bool" where
  "cond_B Beq rs1 rs2 = (rs1 = rs2)"
| "cond_B Bne rs1 rs2 = (rs1 \<noteq> rs2)"
| "cond_B Blt rs1 rs2 = (sint rs1 < sint rs2)"
| "cond_B Bge rs1 rs2 = (sint rs1 \<ge> sint rs2)"
| "cond_B Bxor rs1 rs2 = (rs1 XOR rs2 \<noteq> 0)"
| "cond_B Bxnor rs1 rs2 = (rs1 XOR rs2 = 0)"

definition exec_B :: "binstr \<Rightarrow> u32 \<Rightarrow> u32 \<Rightarrow> u32 \<Rightarrow> u32 \<Rightarrow> ('i, 'o, execute_output) cpu_act" where
  "exec_B i rs1 rs2 imm old_pc = exec_branch old_pc imm (cond_B i rs1 rs2)"

fun cond_P :: "pinstr \<Rightarrow> u32 \<Rightarrow> u32 \<Rightarrow> bool" where
  "cond_P Beqi rs1 imm2 = (rs1 = imm2)"
| "cond_P Bnei rs1 imm2 = (rs1 \<noteq> imm2)"
| "cond_P Blti rs1 imm2 = (sint rs1 < sint imm2)"
| "cond_P Bgei rs1 imm2 = (sint rs1 \<ge> sint imm2)"
| "cond_P Bgti rs1 imm2 = (sint rs1 > sint imm2)"
| "cond_P Blei rs1 imm2 = (sint rs1 \<le> sint imm2)"

definition exec_P :: "build \<Rightarrow> pinstr \<Rightarrow> u32 \<Rightarrow> u32 \<Rightarrow> u32 \<Rightarrow> u32 \<Rightarrow> ('i, 'o, execute_output) cpu_act" where
  "exec_P b i rs1 imm imm2 old_pc =
     (if isa_2nd b then exec_branch old_pc imm (cond_P i rs1 imm2) else act_panic Unreachable)"

definition exec_J :: "jinstr \<Rightarrow> regid \<Rightarrow> u32 \<Rightarrow> u32 \<Rightarrow> u32 \<Rightarrow> execute_output" where
  "exec_J i rd imm old_pc pc_plus4 =
     (case i of Jal \<Rightarrow>
        execute_output_default\<lparr>eo_wb_in := Some (WbI rd pc_plus4),
          eo_new_pc := Some (unat (old_pc + imm)), eo_cycles := 1\<rparr>)"

definition exec_IO ::
  "'i input_trait \<Rightarrow> 'o output_trait \<Rightarrow> (u32, regid, fregid) ioinstr \<Rightarrow> ('i, 'o, execute_output) cpu_act" where
  "exec_IO it ot io =
     (case io of
        Outb rs \<Rightarrow>
          act_bind (zoom cpu_output (\<lambda>d s. s\<lparr>cpu_output := d\<rparr>) (act_map_err Anyhow (outb ot (ucast rs)))) (\<lambda>_.
          act_ret (execute_output_default\<lparr>eo_cycles := 1\<rparr>))
      | Inw rd \<Rightarrow>
          act_bind (zoom cpu_input (\<lambda>d s. s\<lparr>cpu_input := d\<rparr>) (act_map_err Anyhow (inw it))) (\<lambda>val.
          act_ret (execute_output_default\<lparr>eo_wb_in := Some (WbI rd val), eo_cycles := 1\<rparr>))
      | Finw rd \<Rightarrow>
          act_bind (zoom cpu_input (\<lambda>d s. s\<lparr>cpu_input := d\<rparr>) (act_map_err Anyhow (finw it))) (\<lambda>val.
          act_ret (execute_output_default\<lparr>eo_wb_in := Some (WbF rd val), eo_cycles := 1\<rparr>)))"

fun alu_E :: "binding \<Rightarrow> einstr \<Rightarrow> f32 \<Rightarrow> f32 \<Rightarrow> f32" where
  "alu_E fpu Fadd rs1 rs2 = f32_add rs1 rs2"
| "alu_E fpu Fsub rs1 rs2 = f32_sub rs1 rs2"
| "alu_E fpu Fmul rs1 rs2 = fpu_fmul fpu rs1 rs2"
| "alu_E fpu Fdiv rs1 rs2 = fpu_fdiv fpu rs1 rs2"
| "alu_E fpu Fsgnj rs1 rs2 = f32_copysign rs1 rs2"
| "alu_E fpu Fsgnjn rs1 rs2 = f32_copysign rs1 (f32_neg rs2)"
| "alu_E fpu Fsgnjx rs1 rs2 = f32_copysign rs1 (f32_mul (f32_signum rs1) (f32_signum rs2))"

definition exec_E :: "binding \<Rightarrow> einstr \<Rightarrow> fregid \<Rightarrow> f32 \<Rightarrow> f32 \<Rightarrow> execute_output" where
  "exec_E fpu i rd rs1 rs2 =
     execute_output_default\<lparr>eo_wb_in := Some (WbF rd (alu_E fpu i rs1 rs2)), eo_use_fpu := True,
       eo_cycles := (case i of Fadd \<Rightarrow> 5 | Fsub \<Rightarrow> 5 | Fmul \<Rightarrow> 2 | Fdiv \<Rightarrow> 11 | Fsgnj \<Rightarrow> 1
                     | Fsgnjn \<Rightarrow> 1 | Fsgnjx \<Rightarrow> 1)\<rparr>"

fun alu_G :: "ginstr \<Rightarrow> f32 \<Rightarrow> f32 \<Rightarrow> f32 \<Rightarrow> f32" where
  "alu_G Fmadd rs1 rs2 rs3 = f32_add (f32_mul rs1 rs2) rs3"
| "alu_G Fmsub rs1 rs2 rs3 = f32_sub (f32_mul rs1 rs2) rs3"
| "alu_G Fnmadd rs1 rs2 rs3 = f32_add (f32_mul (f32_neg rs1) rs2) rs3"
| "alu_G Fnmsub rs1 rs2 rs3 = f32_sub (f32_mul (f32_neg rs1) rs2) rs3"

definition exec_G ::
  "build \<Rightarrow> ginstr \<Rightarrow> fregid \<Rightarrow> f32 \<Rightarrow> f32 \<Rightarrow> f32 \<Rightarrow> ('e, execute_output) outcome" where
  "exec_G b i rd rs1 rs2 rs3 =
     (if isa_2nd b
      then Ok (execute_output_default\<lparr>eo_wb_in := Some (WbF rd (alu_G i rs1 rs2 rs3)),
                 eo_use_fpu := True, eo_cycles := 7\<rparr>)
      else Panic Unreachable)"

fun alu_H :: "binding \<Rightarrow> hinstr \<Rightarrow> f32 \<Rightarrow> f32" where
  "alu_H fpu Fsqrt rs1 = fpu_fsqrt fpu rs1"
| "alu_H fpu Fhalf rs1 = fpu_fhalf fpu rs1"
| "alu_H fpu Ffloor rs1 = fpu_ffloor fpu rs1"
| "alu_H fpu Ffrac rs1 = fpu_ffrac fpu rs1"
| "alu_H fpu Finv rs1 = fpu_finv fpu rs1"

definition exec_H :: "binding \<Rightarrow> hinstr \<Rightarrow> fregid \<Rightarrow> f32 \<Rightarrow> ('e, execute_output) outcome" where
  "exec_H fpu i rd rs1 =
     bind_out (case i of Fsqrt \<Rightarrow> Ok 8 | Fhalf \<Rightarrow> Ok 1 | Ffloor \<Rightarrow> Ok 8 | Ffrac \<Rightarrow> Panic Unreachable
               | Finv \<Rightarrow> Ok 8) (\<lambda>cycles.
     Ok (execute_output_default\<lparr>eo_wb_in := Some (WbF rd (alu_H fpu i rs1)), eo_use_fpu := True,
           eo_cycles := cycles\<rparr>))"

definition exec_K :: "kinstr \<Rightarrow> regid \<Rightarrow> f32 \<Rightarrow> f32 \<Rightarrow> execute_output" where
  "exec_K i rd rs1 rs2 =
     (let val = (case i of Flt \<Rightarrow> if f32_lt rs1 rs2 then 1 else 0)
      in execute_output_default\<lparr>eo_wb_in := Some (WbI rd val), eo_cycles := 1\<rparr>)"

definition exec_X :: "binding \<Rightarrow> xinstr \<Rightarrow> fregid \<Rightarrow> u32 \<Rightarrow> execute_output" where
  "exec_X fpu i rd rs1 =
     (let val = (case i of Fitof \<Rightarrow> fpu_fcvtsw fpu rs1)
      in execute_output_default\<lparr>eo_wb_in := Some (WbF rd val), eo_use_fpu := True, eo_cycles := 4\<rparr>)"

definition exec_Y :: "binding \<Rightarrow> yinstr \<Rightarrow> regid \<Rightarrow> f32 \<Rightarrow> execute_output" where
  "exec_Y fpu i rd rs1 =
     (let val = (case i of
           Fiszero \<Rightarrow> if f32_eq rs1 f32_zero then 1 else 0
         | Fispos \<Rightarrow> if f32_lt f32_zero rs1 then 1 else 0
         | Fisneg \<Rightarrow> if f32_lt rs1 f32_zero then 1 else 0
         | Fftoi \<Rightarrow> fpu_fcvtws fpu rs1)
      in execute_output_default\<lparr>eo_wb_in := Some (WbI rd val), eo_use_fpu := True,
           eo_cycles := (case i of Fiszero \<Rightarrow> 1 | Fispos \<Rightarrow> 1 | Fisneg \<Rightarrow> 1 | Fftoi \<Rightarrow> 2)\<rparr>)"

fun cond_W :: "winstr \<Rightarrow> f32 \<Rightarrow> f32 \<Rightarrow> bool" where
  "cond_W Fblt rs1 rs2 = f32_lt rs1 rs2"
| "cond_W Fbge rs1 rs2 = f32_ge rs1 rs2"

fun cond_V :: "vinstr \<Rightarrow> f32 \<Rightarrow> bool" where
  "cond_V Fbeqz rs1 = f32_eq rs1 f32_zero"
| "cond_V Fbnez rs1 = (\<not> f32_eq rs1 f32_zero)"

definition exec_W :: "winstr \<Rightarrow> f32 \<Rightarrow> f32 \<Rightarrow> u32 \<Rightarrow> u32 \<Rightarrow> ('i, 'o, execute_output) cpu_act" where
  "exec_W i rs1 rs2 imm old_pc = exec_branch old_pc imm (cond_W i rs1 rs2)"

definition exec_V :: "vinstr \<Rightarrow> f32 \<Rightarrow> u32 \<Rightarrow> u32 \<Rightarrow> ('i, 'o, execute_output) cpu_act" where
  "exec_V i rs1 imm old_pc = exec_branch old_pc imm (cond_V i rs1)"

definition exec_Flw :: "fregid \<Rightarrow> u32 \<Rightarrow> u32 \<Rightarrow> execute_output" where
  "exec_Flw rd rs1 imm = execute_output_default\<lparr>eo_ma_in := Some (MaFMem rd (unat (rs1 + imm)))\<rparr>"

definition exec_Fsw :: "f32 \<Rightarrow> u32 \<Rightarrow> u32 \<Rightarrow> execute_output" where
  "exec_Fsw rs2 rs1 imm =
     execute_output_default\<lparr>eo_ma_in := Some (MaF (unat (rs1 + imm)) rs2), eo_cycles := 1\<rparr>"

definition exec_F ::
  "build \<Rightarrow> binding \<Rightarrow> (u32, regid, f32, fregid) finstr \<Rightarrow> u32 \<Rightarrow> ('i, 'o, execute_output) cpu_act" where
  "exec_F b fpu f old_pc =
     (case f of
        FInstr_E i rd rs1 rs2 \<Rightarrow> act_ret (exec_E fpu i rd rs1 rs2)
      | FInstr_G i rd rs1 rs2 rs3 \<Rightarrow> act_lift (exec_G b i rd rs1 rs2 rs3)
      | FInstr_H i rd rs1 \<Rightarrow> act_lift (exec_H fpu i rd rs1)
      | FInstr_K i rd rs1 rs2 \<Rightarrow> act_ret (exec_K i rd rs1 rs2)
      | FInstr_X i rd rs1 \<Rightarrow> act_ret (exec_X fpu i rd rs1)
      | FInstr_Y i rd rs1 \<Rightarrow> act_ret (exec_Y fpu i rd rs1)
      | FInstr_W i rs1 rs2 imm \<Rightarrow> exec_W i rs1 rs2 imm old_pc
      | FInstr_V i rs1 imm \<Rightarrow> exec_V i rs1 imm old_pc
      | Flw rd rs1 imm \<Rightarrow> act_ret (exec_Flw rd rs1 imm)
      | Fsw rs2 rs1 imm \<Rightarrow> act_ret (exec_Fsw rs2 rs1 imm))"

definition execute ::
  "build \<Rightarrow> binding \<Rightarrow> 'i input_trait \<Rightarrow> 'o output_trait \<Rightarrow> execute_input \<Rightarrow> ('i, 'o, execute_output) cpu_act" where
  "execute b fpu it ot ex_in =
     (let old_pc = ex_old_pc ex_in; pc_plus4 = ex_pc_plus4 ex_in in
      case ex_instr ex_in of
        Instr_R i rd rs1 rs2 \<Rightarrow> act_lift (exec_R b i rd rs1 rs2)
      | Instr_I i rd rs1 imm \<Rightarrow> act_lift (exec_I b i rd rs1 imm pc_plus4)
      | Instr_S i rs1 rs2 imm \<Rightarrow> act_ret (exec_S i rs1 rs2 imm)
      | Instr_B i rs1 rs2 imm \<Rightarrow> exec_B i rs1 rs2 imm old_pc
      | Instr_P i rs1 imm imm2 \<Rightarrow> exec_P b i rs1 imm imm2 old_pc
      | Instr_J i rd imm \<Rightarrow> act_ret (exec_J i rd imm old_pc pc_plus4)
      | Instr_IO io \<Rightarrow> exec_IO it ot io
      | Instr_F f \<Rightarrow> exec_F b fpu f old_pc
      | Instr_Misc End \<Rightarrow> act_ret (execute_output_default\<lparr>eo_cycles := 1, eo_end := True\<rparr>))"

section \<open>Memory access and write back\<close>

definition use_bram :: "usize \<Rightarrow> bool" where
  "use_bram a \<longleftrightarrow> \<not> (BRAM_WORD_SIZE \<le> a \<and> a < RAM_BYTE_SIZE div 4 - STACK_WORD_SIZE)"

text \<open>The state of \<^verbatim>\<open>memory_access\<close> is the processor and the out parameter \<^verbatim>\<open>spied\<close>.\<close>

type_synonym ('i, 'o, 'a) ma_act = "(('i, 'o) cpu \<times> spied, runtime_error, 'a) action"

definition on_memory :: "(memory_region_stat_builder \<Rightarrow> 'a access) \<Rightarrow> ('i, 'o, 'a) ma_act" where
  "on_memory acc =
     act_bind (act_gets (\<lambda>(s, sp). stat_memregion (cpu_reg_file s))) (\<lambda>region.
     act_map_err MemoryAccessError
       (zoom (\<lambda>(s, sp). (cpu_memory s, sp)) (\<lambda>(m, sp) (s, _). (s\<lparr>cpu_memory := m\<rparr>, sp)) (acc region)))"

text \<open>
  The prologue of the four arms: addresses outside block RAM go through the cache. The result
  carries \<open>use_bram\<close> and \<open>cache_hit\<close>.
\<close>

definition ma_cache :: "usize \<Rightarrow> ('i, 'o, memory_access_output) ma_act" where
  "ma_cache a =
     (let res = memory_access_output_default\<lparr>mo_use_bram := use_bram a\<rparr> in
      if \<not> use_bram a then
        act_bind (zoom (\<lambda>(s, sp). cpu_cache s) (\<lambda>c (s, sp). (s\<lparr>cpu_cache := c\<rparr>, sp))
                    (access_cache CACHE_NUM_LINES a)) (\<lambda>hit.
        act_ret (res\<lparr>mo_cache_hit := hit\<rparr>))
      else act_ret res)"

definition ma_finish :: "memory_access_output \<Rightarrow> ('i, 'o, memory_access_output) ma_act" where
  "ma_finish res =
     act_bind (if \<not> mo_use_bram res
               then act_modify (\<lambda>(s, sp). (s\<lparr>c_stat := cache_update_stat (mo_cache_hit res) (c_stat s)\<rparr>, sp))
               else act_ret ()) (\<lambda>_.
     act_ret (res\<lparr>mo_cycles := (if mo_use_bram res then 1
                                else if mo_cache_hit res then 2 else DDR2_ACCESS_CYCLES)\<rparr>))"

definition ma_arm :: "build \<Rightarrow> memory_access_input \<Rightarrow> ('i, 'o, memory_access_output) ma_act" where
  "ma_arm b ma_in =
     (case ma_in of
       MaI a val \<Rightarrow>
         act_bind (ma_cache a) (\<lambda>res.
         act_bind (on_memory (\<lambda>rg. mem_set b RAM_BYTE_SIZE rg a val)) (\<lambda>_. act_ret res))
     | MaF a val \<Rightarrow>
         act_bind (ma_cache a) (\<lambda>res.
         act_bind (on_memory (\<lambda>rg. mem_set_f b RAM_BYTE_SIZE rg a val)) (\<lambda>_. act_ret res))
     | MaIMem r a \<Rightarrow>
         act_bind (ma_cache a) (\<lambda>res.
         act_bind (on_memory (\<lambda>rg. mem_get_i b RAM_BYTE_SIZE rg a)) (\<lambda>v.
         act_ret (res\<lparr>mo_wb_in := Some (WbI r (get_unchecked v))\<rparr>)))
     | MaFMem r a \<Rightarrow>
         act_bind (ma_cache a) (\<lambda>res.
         act_bind (on_memory (\<lambda>rg. mem_get_f b RAM_BYTE_SIZE rg a)) (\<lambda>v.
         act_ret (res\<lparr>mo_wb_in := Some (WbF r v)\<rparr>))))"

definition memory_access :: "build \<Rightarrow> memory_access_input \<Rightarrow> ('i, 'o, memory_access_output) ma_act" where
  "memory_access b ma_in = act_bind (ma_arm b ma_in) ma_finish"

definition write_back :: "write_back_input \<Rightarrow> ('i, 'o, unit) cpu_act" where
  "write_back wb_in =
     (case wb_in of WbI r val \<Rightarrow> on_regs (reg_set r val) | WbF r val \<Rightarrow> on_regs (reg_set_f r val))"

section \<open>Pipeline model\<close>

fun regid_is_included_in_srcs :: "decoded_instr \<Rightarrow> regid \<Rightarrow> bool" where
  "regid_is_included_in_srcs (Instr_R _ _ rs1 rs2) r = (rs1 = r \<or> rs2 = r)"
| "regid_is_included_in_srcs (Instr_I _ _ rs1 _) r = (rs1 = r)"
| "regid_is_included_in_srcs (Instr_S _ rs1 rs2 _) r = (rs1 = r \<or> rs2 = r)"
| "regid_is_included_in_srcs (Instr_B _ rs1 rs2 _) r = (rs1 = r \<or> rs2 = r)"
| "regid_is_included_in_srcs (Instr_P _ rs1 _ _) r = (rs1 = r)"
| "regid_is_included_in_srcs (Instr_J _ _ _) r = False"
| "regid_is_included_in_srcs (Instr_IO (Outb rs)) r = (rs = r)"
| "regid_is_included_in_srcs (Instr_IO (Inw _)) r = False"
| "regid_is_included_in_srcs (Instr_IO (Finw _)) r = False"
| "regid_is_included_in_srcs (Instr_F (FInstr_X _ _ rs1)) r = (rs1 = r)"
| "regid_is_included_in_srcs (Instr_F (Flw _ rs1 _)) r = (rs1 = r)"
| "regid_is_included_in_srcs (Instr_F (Fsw _ rs1 _)) r = (rs1 = r)"
| "regid_is_included_in_srcs (Instr_F _) r = False"
| "regid_is_included_in_srcs (Instr_Misc _) r = False"

fun fregid_is_included_in_srcs :: "decoded_instr \<Rightarrow> fregid \<Rightarrow> bool" where
  "fregid_is_included_in_srcs (Instr_F (FInstr_E _ _ rs1 rs2)) r = (rs1 = r \<or> rs2 = r)"
| "fregid_is_included_in_srcs (Instr_F (FInstr_G _ _ rs1 rs2 rs3)) r = (rs1 = r \<or> rs2 = r \<or> rs3 = r)"
| "fregid_is_included_in_srcs (Instr_F (FInstr_H _ _ rs1)) r = (rs1 = r)"
| "fregid_is_included_in_srcs (Instr_F (FInstr_K _ _ rs1 rs2)) r = (rs1 = r \<or> rs2 = r)"
| "fregid_is_included_in_srcs (Instr_F (FInstr_X _ _ _)) r = False"
| "fregid_is_included_in_srcs (Instr_F (FInstr_Y _ _ rs1)) r = (rs1 = r)"
| "fregid_is_included_in_srcs (Instr_F (FInstr_W _ rs1 rs2 _)) r = (rs1 = r \<or> rs2 = r)"
| "fregid_is_included_in_srcs (Instr_F (FInstr_V _ rs1 _)) r = (rs1 = r)"
| "fregid_is_included_in_srcs (Instr_F (Flw _ _ _)) r = False"
| "fregid_is_included_in_srcs (Instr_F (Fsw rs2 _ _)) r = (rs2 = r)"
| "fregid_is_included_in_srcs _ r = False"

definition hazard :: "decoded_instr \<Rightarrow> pipeline_stat \<Rightarrow> bool" where
  "hazard i st \<longleftrightarrow>
     (case write_back_id st of Some r \<Rightarrow> regid_is_included_in_srcs i r | None \<Rightarrow> False)
     \<or> (case float_write_back_id st of Some r \<Rightarrow> fregid_is_included_in_srcs i r | None \<Rightarrow> False)"

definition list_index :: "'a list \<Rightarrow> nat \<Rightarrow> ('e, 'a) outcome" where
  "list_index xs i = (if i < length xs then Ok (xs ! i) else Panic IndexOutOfBounds)"

definition stall_with_ex :: "decoded_instr \<Rightarrow> pipeline_stat option \<Rightarrow> usize" where
  "stall_with_ex i slot =
     (case slot of
        Some st \<Rightarrow>
          (case result_ready_stage st of
             Some stage \<Rightarrow>
               if hazard i st then
                 (case stage of StWriteBack \<Rightarrow> 2 | StMemoryAccess \<Rightarrow> 1 | _ \<Rightarrow> 0)
               else 0
           | None \<Rightarrow> 0)
      | None \<Rightarrow> 0)"

definition stall_with_ma :: "decoded_instr \<Rightarrow> pipeline_stat option \<Rightarrow> usize" where
  "stall_with_ma i slot =
     (case slot of
        Some st \<Rightarrow>
          (case result_ready_stage st of
             Some stage \<Rightarrow> if hazard i st then (case stage of StWriteBack \<Rightarrow> 1 | _ \<Rightarrow> 0) else 0
           | None \<Rightarrow> 0)
      | None \<Rightarrow> 0)"

definition calc_stall_cycles :: "decoded_instr \<Rightarrow> pipeline_stat option list \<Rightarrow> ('e, usize) outcome" where
  "calc_stall_cycles i ps =
     bind_out (list_index ps 0) (\<lambda>ex.
     bind_out (list_index ps 1) (\<lambda>ma.
     Ok (max (stall_with_ex i ex) (stall_with_ma i ma))))"

definition push_instr_to_pipeline_and_get_cycles ::
  "pipeline_stat option \<Rightarrow> (pipeline_stat option list, 'e, usize) action" where
  "push_instr_to_pipeline_and_get_cycles i =
     (let ex_cycles_of_first_instr = (case i of Some st \<Rightarrow> ex_cycles st | None \<Rightarrow> 1) in
      act_bind (act_read (\<lambda>ps. list_index ps 0)) (\<lambda>first.
      let ma_cycles_of_first_instr = (case first of Some st \<Rightarrow> ma_cycles st | None \<Rightarrow> 1) in
      act_bind (act_modify butlast) (\<lambda>_.
      act_bind (act_modify (\<lambda>ps. i # ps)) (\<lambda>_.
      act_bind (act_read (\<lambda>ps. if length ps = 5 then Ok () else Panic AssertFailed)) (\<lambda>_.
      act_ret (max ex_cycles_of_first_instr ma_cycles_of_first_instr))))))"

text \<open>\<^verbatim>\<open>for _ in 0..n { res.cycles += push(None) }\<close>.\<close>

fun push_bubbles :: "nat \<Rightarrow> (pipeline_stat option list, 'e, usize) action" where
  "push_bubbles 0 = act_ret 0"
| "push_bubbles (Suc n) =
     act_bind (push_instr_to_pipeline_and_get_cycles None) (\<lambda>c.
     act_bind (push_bubbles n) (\<lambda>d. act_ret (c + d)))"

text \<open>The last block of \<^verbatim>\<open>cycle_one_full\<close>: stall, push the instruction, flush.\<close>

definition account_cycles ::
  "decoded_instr \<Rightarrow> pipeline_stat \<Rightarrow> bool \<Rightarrow> (pipeline_stat option list, 'e, usize) action" where
  "account_cycles i st flush =
     act_bind (act_read (calc_stall_cycles i)) (\<lambda>stall_cycles.
     act_bind (push_bubbles stall_cycles) (\<lambda>c1.
     act_bind (push_instr_to_pipeline_and_get_cycles (Some st)) (\<lambda>c2.
     act_bind (if flush then push_bubbles 2 else act_ret 0) (\<lambda>c3.
     act_ret (c1 + c2 + c3)))))"

section \<open>One cycle\<close>

definition cycle_trace :: "bool \<Rightarrow> instr_fetch_output \<Rightarrow> decoded_instr \<Rightarrow> execution_trace option" where
  "cycle_trace tracing f i =
     (if tracing
      then Some \<lparr>tr_pc = if_old_pc f, tr_undecoded_instr = id_bin (if_id_in f), tr_decoded_instr = i\<rparr>
      else None)"

text \<open>
  Memory access, choice of the value written back, and the stage in which it is ready. The
  result is the memory cycles, the stage, the value to write back and the control flow.
\<close>

definition cycle_memory ::
  "build \<Rightarrow> execute_output \<Rightarrow> ('i, 'o, usize \<times> pipeline_stage \<times> write_back_input option \<times> cpu_control_flow) cpu_act" where
  "cycle_memory b eo =
     (let stage = (if eo_use_fpu eo then StMemoryAccess else StExecute) in
      case eo_ma_in eo of
        None \<Rightarrow> act_ret (1, stage, eo_wb_in eo, CpuContinue)
      | Some ma_in \<Rightarrow>
          act_bind (with_local None (memory_access b ma_in)) (\<lambda>(ma_out, sp).
          let flow = (case sp of Some r \<Rightarrow> CpuBreak (CpuSpy r) | None \<Rightarrow> CpuContinue) in
          if mo_wb_in ma_out \<noteq> None
          then act_ret (mo_cycles ma_out, if mo_use_bram ma_out then StWriteBack else StMemoryAccess,
                        mo_wb_in ma_out, flow)
          else act_ret (mo_cycles ma_out, stage, eo_wb_in eo, flow)))"

definition cycle_retire ::
  "build \<Rightarrow> decoded_instr \<Rightarrow> execute_output \<Rightarrow> cycle_result \<Rightarrow> ('i, 'o, cycle_result) cpu_act" where
  "cycle_retire b i eo res =
     act_bind (case eo_new_pc eo of
                 Some val \<Rightarrow> act_modify (\<lambda>s. s\<lparr>cpu_pc := Pc (word_of_nat val)\<rparr>) | None \<Rightarrow> act_ret ()) (\<lambda>_.
     act_bind (cycle_memory b eo) (\<lambda>(ma_cyc, stage, wb_in, flow).
     act_bind (case wb_in of Some wb \<Rightarrow> write_back wb | None \<Rightarrow> act_ret ()) (\<lambda>_.
     act_bind (zoom pipeline_state (\<lambda>ps s. s\<lparr>pipeline_state := ps\<rparr>)
        (account_cycles i
           \<lparr>ex_cycles = eo_cycles eo, ma_cycles = ma_cyc, result_ready_stage = Some stage,
            write_back_id = (case wb_in of Some (WbI r _) \<Rightarrow> Some r | _ \<Rightarrow> None),
            float_write_back_id = (case wb_in of Some (WbF r _) \<Rightarrow> Some r | _ \<Rightarrow> None)\<rparr>
           (eo_flush eo))) (\<lambda>cycles.
     act_ret (res\<lparr>cr_cycles := cr_cycles res + cycles, cr_flow := flow\<rparr>)))))"

definition cycle_one_full ::
  "build \<Rightarrow> binding \<Rightarrow> 'i input_trait \<Rightarrow> 'o output_trait \<Rightarrow> bool \<Rightarrow> ('i, 'o, cycle_result) cpu_act" where
  "cycle_one_full b fpu it ot tracing =
     act_bind (instr_fetch b) (\<lambda>id_rf_in.
     act_bind (act_lift (instr_decode b (if_id_in id_rf_in))) (\<lambda>i.
     let res = cycle_result_default\<lparr>cr_trace := cycle_trace tracing id_rf_in i\<rparr> in
     act_bind (zoom i_stat (\<lambda>v s. s\<lparr>i_stat := v\<rparr>) (encounter_instr b i)) (\<lambda>_.
     act_bind (reg_fetch \<lparr>rf_instr = i, rf_old_pc = pc_inner (if_old_pc id_rf_in),
                          rf_pc_plus4 = pc_inner (if_pc_plus4 id_rf_in)\<rparr>) (\<lambda>ex_in.
     act_bind (execute b fpu it ot ex_in) (\<lambda>eo.
     if eo_end eo then act_ret (res\<lparr>cr_flow := CpuExit\<rparr>)
     else cycle_retire b i eo res)))))"

section \<open>Inspection\<close>

definition cpu_get_freg :: "fregid \<Rightarrow> (('i, 'o) cpu, 'e, f32) action" where
  "cpu_get_freg r = on_regs (reg_get_f r)"

definition cpu_get_reg :: "regid \<Rightarrow> (('i, 'o) cpu, 'e, u32) action" where
  "cpu_get_reg r = on_regs (reg_get r)"

text \<open>\<^verbatim>\<open>self.memory.get(addr, &mut None)\<close>: the report of the watch points is dropped.\<close>

definition cpu_get_mem :: "build \<Rightarrow> addr \<Rightarrow> (('i, 'o) cpu, memory_access_error, typed_u32) action" where
  "cpu_get_mem b a =
     act_bind (act_gets (\<lambda>s. stat_memregion (cpu_reg_file s))) (\<lambda>region.
     act_bind (zoom cpu_memory (\<lambda>m s. s\<lparr>cpu_memory := m\<rparr>)
        (with_local None (mem_get b RAM_BYTE_SIZE region (addr_inner a)))) (\<lambda>(v, _).
     act_ret v))"

definition cpu_get_mem_pc :: "('i, 'o) cpu \<Rightarrow> pc \<Rightarrow> (runtime_error, u32) outcome" where
  "cpu_get_mem_pc s p = map_err MemoryAccessError (get_from_pc (cpu_memory s) p)"

definition add_mem_spy :: "spy_watch_kind \<Rightarrow> spy_unit \<Rightarrow> ('i, 'o) cpu \<Rightarrow> ('i, 'o) cpu" where
  "add_mem_spy k u s = s\<lparr>cpu_memory := add_spy k u (cpu_memory s)\<rparr>"

definition remove_mem_spy :: "spy_watch_kind \<Rightarrow> spy_unit \<Rightarrow> ('i, 'o) cpu \<Rightarrow> ('i, 'o) cpu" where
  "remove_mem_spy k u s = s\<lparr>cpu_memory := remove_spy k u (cpu_memory s)\<rparr>"

end
