(* ===== verification/Sim.thy ===== *)
theory Sim
  imports Cpu Debug_Symbol
begin

text \<open>
  \<^verbatim>\<open>core_sim/src/sim.rs\<close>: the simulator around the processor, with run modes, break points,
  watched values, the sticky fatal error and the timing statistics, and the batch driver of
  \<^verbatim>\<open>cli/src/main.rs\<close>. The wall clock is an argument \<open>now\<close>; what \<^verbatim>\<open>println!\<close> writes
  is collected in the field \<open>sim_stdout\<close>. The loops that may run forever take fuel and return
  \<open>None\<close> when it runs out.
\<close>

section \<open>Statistics builder\<close>

record sim_stat_builder =
  sb_begin :: nat
  sb_instr_file_len :: "u32 option"
  sb_elapsed_clocks :: "usize option"
  sb_cycle :: "usize option"
  sb_elapsed :: "nat option"

definition sim_stat_builder_new :: "nat \<Rightarrow> sim_stat_builder" where
  "sim_stat_builder_new now =
     \<lparr>sb_begin = now, sb_instr_file_len = None, sb_elapsed_clocks = None, sb_cycle = None, sb_elapsed = None\<rparr>"

definition stop_timer :: "nat \<Rightarrow> sim_stat_builder \<Rightarrow> sim_stat_builder" where
  "stop_timer now sb = sb\<lparr>sb_elapsed := Some (now - sb_begin sb)\<rparr>"

record sim_stat =
  st_instr_file_len :: u32
  st_elapsed_clocks :: usize
  st_cycle :: usize
  st_elapsed :: nat

definition unwrap :: "'a option \<Rightarrow> ('e, 'a) outcome" where
  "unwrap x = (case x of Some a \<Rightarrow> Ok a | None \<Rightarrow> Panic UnwrapFailed)"

definition stat_finish :: "sim_stat_builder \<Rightarrow> ('e, sim_stat) outcome" where
  "stat_finish sb =
     bind_out (unwrap (sb_instr_file_len sb)) (\<lambda>l.
     bind_out (unwrap (sb_elapsed_clocks sb)) (\<lambda>c.
     bind_out (unwrap (sb_cycle sb)) (\<lambda>n.
     bind_out (unwrap (sb_elapsed sb)) (\<lambda>t.
     Ok \<lparr>st_instr_file_len = l, st_elapsed_clocks = c, st_cycle = n, st_elapsed = t\<rparr>))))"

section \<open>Results\<close>

datatype break_reason =
    CannotRestart
  | Failed
  | Reached addr
  | StepEnded
  | BreakPoint addr
  | Spy spy_result

fun break_reason_from :: "cpu_break_reason \<Rightarrow> break_reason" where
  "break_reason_from (CpuSpy s) = Spy s"

record watching_values =
  wv_reg_map :: "regid \<Rightarrow> typed_u32 option"
  wv_freg_map :: "fregid \<Rightarrow> f32 option"
  wv_memory_map :: "addr \<Rightarrow> typed_u32 option"

record on_break =
  ob_watchings :: watching_values
  ob_reason :: break_reason

datatype control_flow = Break on_break | Exit

datatype exit_code = Success | Failure

definition is_success :: "exit_code \<Rightarrow> bool" where
  "is_success c = (case c of Success \<Rightarrow> True | Failure \<Rightarrow> False)"

definition flow_exit_code :: "control_flow \<Rightarrow> exit_code option" where
  "flow_exit_code cf =
     (case cf of
        Exit \<Rightarrow> Some Success
      | Break ob \<Rightarrow> (case ob_reason ob of CannotRestart \<Rightarrow> Some Failure | Failed \<Rightarrow> Some Failure | _ \<Rightarrow> None))"

section \<open>The simulator\<close>

record ('i, 'o) simulator =
  sim_cpu :: "('i, 'o) cpu"
  elapsed_clocks :: usize
  sim_cycle :: usize
  sim_debug_symbol :: debug_symbol
  fatal_error :: "runtime_error option"
  stat_builder :: sim_stat_builder
  sim_stdout :: "string list"

type_synonym ('i, 'o, 'a) sim_act = "(('i, 'o) simulator, anyhow_error, 'a) action"

abbreviation on_cpu :: "(('i, 'o) cpu, 'e, 'a) action \<Rightarrow> (('i, 'o) simulator, 'e, 'a) action" where
  "on_cpu \<equiv> zoom sim_cpu (\<lambda>c s. s\<lparr>sim_cpu := c\<rparr>)"

definition sim_new :: "build \<Rightarrow> nat \<Rightarrow> u8 list \<Rightarrow> 'i \<Rightarrow> 'o \<Rightarrow> ('e, ('i, 'o) simulator) outcome" where
  "sim_new b now img input output =
     bind_out (get_data_and_text_len img) (\<lambda>(data_sec_size, text_sec_size).
     bind_out (add_u32 b data_sec_size text_sec_size) (\<lambda>len.
     bind_out (cpu_new b img input output) (\<lambda>c.
     Ok \<lparr>sim_cpu = c, elapsed_clocks = 0, sim_cycle = 0, sim_debug_symbol = debug_symbol_default,
         fatal_error = None, stat_builder = (sim_stat_builder_new now)\<lparr>sb_instr_file_len := Some len\<rparr>,
         sim_stdout = []\<rparr>)))"

definition provide_dbg_symb :: "debug_symbol \<Rightarrow> ('i, 'o) simulator \<Rightarrow> ('i, 'o) simulator" where
  "provide_dbg_symb d s =
     (if \<not> ds_is_empty d then s\<lparr>sim_debug_symbol := ds_merge (sim_debug_symbol s) d\<rparr> else s)"

definition sim_get_freg :: "fregid \<Rightarrow> (('i, 'o) simulator, 'e, f32) action" where
  "sim_get_freg r = on_cpu (cpu_get_freg r)"

definition sim_get_reg :: "regid \<Rightarrow> (('i, 'o) simulator, 'e, typed_u32) action" where
  "sim_get_reg r = act_bind (on_cpu (cpu_get_reg r)) (\<lambda>v. act_ret (typed v (reg_ty r)))"

definition sim_get_mem :: "build \<Rightarrow> addr \<Rightarrow> ('i, 'o, typed_u32) sim_act" where
  "sim_get_mem b a = act_map_err MemoryFailure (on_cpu (cpu_get_mem b a))"

definition get_error_msg :: "('i, 'o) simulator \<Rightarrow> string option" where
  "get_error_msg s = map_option show_runtime_error (fatal_error s)"

section \<open>Breaking\<close>

fun gather_regs :: "regid list \<Rightarrow> watching_values \<Rightarrow> ('i, 'o, watching_values) sim_act" where
  "gather_regs [] w = act_ret w"
| "gather_regs (r # rs) w =
     act_bind (sim_get_reg r) (\<lambda>v. gather_regs rs (w\<lparr>wv_reg_map := (wv_reg_map w)(r \<mapsto> v)\<rparr>))"

fun gather_fregs :: "fregid list \<Rightarrow> watching_values \<Rightarrow> ('i, 'o, watching_values) sim_act" where
  "gather_fregs [] w = act_ret w"
| "gather_fregs (r # rs) w =
     act_bind (sim_get_freg r) (\<lambda>v. gather_fregs rs (w\<lparr>wv_freg_map := (wv_freg_map w)(r \<mapsto> v)\<rparr>))"

text \<open>\<^verbatim>\<open>self.get_mem(addr).unwrap()\<close>: an address that cannot be read panics.\<close>

fun gather_mem :: "build \<Rightarrow> addr list \<Rightarrow> watching_values \<Rightarrow> ('i, 'o, watching_values) sim_act" where
  "gather_mem b [] w = act_ret w"
| "gather_mem b (a # as) w =
     act_bind (act_attempt (sim_get_mem b a)) (\<lambda>r.
       case r of
         Inr v \<Rightarrow> gather_mem b as (w\<lparr>wv_memory_map := (wv_memory_map w)(a \<mapsto> v)\<rparr>)
       | Inl e \<Rightarrow> act_panic UnwrapFailed)"

definition gather_watchings :: "build \<Rightarrow> watchings \<Rightarrow> ('i, 'o, watching_values) sim_act" where
  "gather_watchings b w =
     act_bind (gather_regs (w_reg w)
        \<lparr>wv_reg_map = Map.empty, wv_freg_map = Map.empty, wv_memory_map = Map.empty\<rparr>) (\<lambda>v1.
     act_bind (gather_fregs (w_freg w) v1) (\<lambda>v2.
     gather_mem b (w_memory w) v2))"

definition do_break :: "break_point \<Rightarrow> bool" where
  "do_break bp = True"

definition break_sim :: "build \<Rightarrow> simulation_option \<Rightarrow> break_reason \<Rightarrow> ('i, 'o, control_flow) sim_act" where
  "break_sim b opt reason =
     act_bind (gather_watchings b (opt_watchings opt)) (\<lambda>w.
     act_ret (Break \<lparr>ob_watchings = w, ob_reason = reason\<rparr>))"

definition exit_sim :: "nat \<Rightarrow> ('i, 'o) simulator \<Rightarrow> ('i, 'o) simulator" where
  "exit_sim now s =
     s\<lparr>stat_builder := stop_timer now ((stat_builder s)
        \<lparr>sb_cycle := Some (sim_cycle s), sb_elapsed_clocks := Some (elapsed_clocks s)\<rparr>)\<rparr>"

section \<open>Running\<close>

definition trace_line :: "build \<Rightarrow> usize \<Rightarrow> execution_trace \<Rightarrow> ('e, string) outcome" where
  "trace_line b cyc t =
     bind_out (show_decoded_instr b (tr_decoded_instr t)) (\<lambda>i.
     Ok (''#'' @ show_dec_010 cyc @ '', pc: '' @ show_pc (tr_pc t) @ '','' @ [CHR 0x09] @ ''instr: ''
         @ show_hex_010 (unat (tr_undecoded_instr t)) @ [CHR 0x09] @ i))"

definition print_trace :: "build \<Rightarrow> usize \<Rightarrow> cycle_result \<Rightarrow> ('i, 'o, unit) sim_act" where
  "print_trace b cyc r =
     (case cr_trace r of
        Some t \<Rightarrow> act_bind (act_lift (trace_line b cyc t)) (\<lambda>l.
                  act_modify (\<lambda>s. s\<lparr>sim_stdout := sim_stdout s @ [l @ nl]\<rparr>))
      | None \<Rightarrow> act_ret ())"

text \<open>The macro \<^verbatim>\<open>execute!\<close>: \<open>Some\<close> is an early return, \<open>None\<close> falls through.\<close>

definition check_breakpoint :: "build \<Rightarrow> simulation_option \<Rightarrow> bool \<Rightarrow> ('i, 'o, control_flow option) sim_act" where
  "check_breakpoint b opt is_enter =
     (if is_enter then act_ret None
      else act_bind (act_gets (\<lambda>s. breakpoints opt (get_pc_addr (sim_cpu s)))) (\<lambda>found.
        case found of
          Some bp \<Rightarrow>
            if do_break bp
            then act_bind (break_sim b opt (BreakPoint (bp_addr bp))) (\<lambda>cf. act_ret (Some cf))
            else act_ret None
        | None \<Rightarrow> act_ret None))"

definition after_cycle ::
  "build \<Rightarrow> nat \<Rightarrow> simulation_option \<Rightarrow> cycle_result \<Rightarrow> ('i, 'o, control_flow option) sim_act" where
  "after_cycle b now opt r =
     act_bind (act_modify (\<lambda>s. s\<lparr>elapsed_clocks := elapsed_clocks s + cr_cycles r\<rparr>)) (\<lambda>_.
     act_bind (act_modify (\<lambda>s. s\<lparr>sim_cycle := sim_cycle s + 1\<rparr>)) (\<lambda>_.
     case cr_flow r of
       CpuContinue \<Rightarrow>
         act_bind (act_gets sim_cycle) (\<lambda>cyc. act_bind (print_trace b cyc r) (\<lambda>_. act_ret None))
     | CpuBreak reason \<Rightarrow>
         act_bind (break_sim b opt (break_reason_from reason)) (\<lambda>cf. act_ret (Some cf))
     | CpuExit \<Rightarrow> act_bind (act_modify (exit_sim now)) (\<lambda>_. act_ret (Some Exit))))"

definition sim_execute ::
  "build \<Rightarrow> binding \<Rightarrow> 'i input_trait \<Rightarrow> 'o output_trait \<Rightarrow> nat \<Rightarrow> simulation_option \<Rightarrow> bool
    \<Rightarrow> ('i, 'o, control_flow option) sim_act" where
  "sim_execute b fpu it ot now opt is_enter =
     act_bind (check_breakpoint b opt is_enter) (\<lambda>stopped.
     case stopped of
       Some cf \<Rightarrow> act_ret (Some cf)
     | None \<Rightarrow>
         act_bind (act_attempt (on_cpu (cycle_one_full b fpu it ot (do_trace opt)))) (\<lambda>r.
         case r of
           Inr res \<Rightarrow> after_cycle b now opt res
         | Inl e \<Rightarrow>
             act_bind (if is_fatal (level e) then act_modify (\<lambda>s. s\<lparr>fatal_error := Some e\<rparr>) else act_ret ()) (\<lambda>_.
             act_bind (break_sim b opt Failed) (\<lambda>cf. act_ret (Some cf)))))"

text \<open>
  The body of the endless loops: \<^verbatim>\<open>SkipUntil\<close> looks at the program counter before each
  execution but the first.
\<close>

definition loop_body ::
  "build \<Rightarrow> binding \<Rightarrow> 'i input_trait \<Rightarrow> 'o output_trait \<Rightarrow> nat \<Rightarrow> simulation_option \<Rightarrow> addr option \<Rightarrow> bool
    \<Rightarrow> ('i, 'o, control_flow option) sim_act" where
  "loop_body b fpu it ot now opt target is_enter =
     (case target of
        Some p \<Rightarrow>
          act_bind (act_gets (\<lambda>s. pc_into_addr (cpu_pc (sim_cpu s)))) (\<lambda>q.
            if \<not> is_enter \<and> p = q
            then act_bind (break_sim b opt (Reached p)) (\<lambda>cf. act_ret (Some cf))
            else sim_execute b fpu it ot now opt is_enter)
      | None \<Rightarrow> sim_execute b fpu it ot now opt is_enter)"

type_synonym ('i, 'o) sim_result = "(anyhow_error, control_flow) outcome \<times> ('i, 'o) simulator"

fun sim_loop ::
  "nat \<Rightarrow> (bool \<Rightarrow> ('i, 'o, control_flow option) sim_act) \<Rightarrow> bool \<Rightarrow> ('i, 'o) simulator
    \<Rightarrow> ('i, 'o) sim_result option" where
  "sim_loop 0 body is_enter s = None"
| "sim_loop (Suc fuel) body is_enter s =
     (case body is_enter s of
        (Ok None, s') \<Rightarrow> sim_loop fuel body False s'
      | (Ok (Some cf), s') \<Rightarrow> Some (Ok cf, s')
      | (Err e, s') \<Rightarrow> Some (Err e, s')
      | (Panic p, s') \<Rightarrow> Some (Panic p, s'))"

fun run_steps ::
  "nat \<Rightarrow> (bool \<Rightarrow> ('i, 'o, control_flow option) sim_act) \<Rightarrow> bool \<Rightarrow> ('i, 'o, control_flow option) sim_act" where
  "run_steps 0 body is_enter = act_ret None"
| "run_steps (Suc n) body is_enter =
     act_bind (body is_enter) (\<lambda>r.
       case r of Some cf \<Rightarrow> act_ret (Some cf) | None \<Rightarrow> run_steps n body False)"

definition single_cycle ::
  "build \<Rightarrow> binding \<Rightarrow> 'i input_trait \<Rightarrow> 'o output_trait \<Rightarrow> nat \<Rightarrow> nat \<Rightarrow> simulation_option
    \<Rightarrow> ('i, 'o) simulator \<Rightarrow> ('i, 'o) sim_result option" where
  "single_cycle b fpu it ot now fuel opt s =
     (if fatal_error s \<noteq> None then Some (break_sim b opt CannotRestart s)
      else case opt_mode opt of
        SkipUntil p \<Rightarrow> sim_loop fuel (loop_body b fpu it ot now opt (Some p)) True s
      | Run \<Rightarrow> sim_loop fuel (loop_body b fpu it ot now opt None) True s
      | RunStep r \<Rightarrow>
          Some (act_bind (run_steps (get_step r) (sim_execute b fpu it ot now opt) True) (\<lambda>done.
            case done of Some cf \<Rightarrow> act_ret cf | None \<Rightarrow> break_sim b opt StepEnded) s))"

section \<open>The batch driver\<close>

definition default_option :: simulation_option where
  "default_option =
     \<lparr>do_trace = False, opt_mode = Run, breakpoints = Map.empty,
      opt_watchings = \<lparr>w_reg = [], w_freg = [], w_memory = []\<rparr>\<rparr>"

text \<open>\<^verbatim>\<open>execute\<close> of \<^verbatim>\<open>main.rs\<close> without \<^verbatim>\<open>--interactive\<close>.\<close>

fun batch_execute ::
  "nat \<Rightarrow> build \<Rightarrow> binding \<Rightarrow> 'i input_trait \<Rightarrow> 'o output_trait \<Rightarrow> nat \<Rightarrow> ('i, 'o) simulator
    \<Rightarrow> ((anyhow_error, unit) outcome \<times> ('i, 'o) simulator) option" where
  "batch_execute 0 b fpu it ot now s = None"
| "batch_execute (Suc fuel) b fpu it ot now s =
     (case single_cycle b fpu it ot now fuel default_option s of
        None \<Rightarrow> None
      | Some (Ok r, s') \<Rightarrow>
          (case flow_exit_code r of
             Some c \<Rightarrow>
               if is_success c then Some (Ok (), s')
               else (case get_error_msg s' of
                  Some how \<Rightarrow>
                    Some (Err (Message (''simulator returns an error: '' @ how
                       @ ''. try executing process with --interactive to debug.'')), s')
                | None \<Rightarrow> Some (Panic UnwrapFailed, s'))
           | None \<Rightarrow> batch_execute fuel b fpu it ot now s')
      | Some (Err e, s') \<Rightarrow> Some (Err e, s')
      | Some (Panic p, s') \<Rightarrow> Some (Panic p, s'))"

end
