(* ===== verification/Cpu_Timing.thy ===== *)
theory Cpu_Timing
  imports Cpu
begin

text \<open>
  The clock model of \<^verbatim>\<open>cpu.rs\<close>: the cost of a cycle in closed form, its bounds, and the
  invariant of the five pipeline slots.
\<close>

section \<open>The pipeline slots\<close>

text \<open>Five slots; every instruction in flight spends at least one and at most 90 memory cycles.\<close>

definition slot_ok :: "pipeline_stat option \<Rightarrow> bool" where
  "slot_ok slot = (case slot of None \<Rightarrow> True | Some st \<Rightarrow> 1 \<le> ma_cycles st \<and> ma_cycles st \<le> DDR2_ACCESS_CYCLES)"

definition pipeline_wf :: "pipeline_stat option list \<Rightarrow> bool" where
  "pipeline_wf ps \<longleftrightarrow> length ps = 5 \<and> list_all slot_ok ps"

text \<open>The memory cycles still to be paid for the instruction in the first slot.\<close>

definition pending :: "pipeline_stat option list \<Rightarrow> usize" where
  "pending ps = (case hd ps of Some st \<Rightarrow> ma_cycles st | None \<Rightarrow> 1)"

lemma pipeline_wf_Nil [simp]: "pipeline_wf ps \<Longrightarrow> ps \<noteq> []"
  by (auto simp: pipeline_wf_def)

lemma pending_bounds:
  assumes "pipeline_wf ps"
  shows "1 \<le> pending ps" "pending ps \<le> DDR2_ACCESS_CYCLES"
proof -
  have "slot_ok (hd ps)"
    using assms hd_in_set [OF pipeline_wf_Nil [OF assms]] by (auto simp: pipeline_wf_def list_all_iff)
  then show "1 \<le> pending ps" "pending ps \<le> DDR2_ACCESS_CYCLES"
    by (auto simp: pending_def slot_ok_def DDR2_ACCESS_CYCLES_def split: option.splits)
qed

lemma pipeline_wf_push:
  assumes "pipeline_wf ps" "slot_ok slot"
  shows "pipeline_wf (slot # butlast ps)"
  using assms by (auto simp: pipeline_wf_def list_all_iff dest: in_set_butlastD)

lemma push_eq:
  assumes "pipeline_wf ps"
  shows "push_instr_to_pipeline_and_get_cycles slot ps =
    (Ok (max (case slot of Some st \<Rightarrow> ex_cycles st | None \<Rightarrow> 1) (pending ps)), slot # butlast ps)"
proof -
  have "length ps = 5" "ps \<noteq> []" using assms by (auto simp: pipeline_wf_def)
  then show ?thesis
    by (simp add: push_instr_to_pipeline_and_get_cycles_def act_simps list_index_def pending_def hd_conv_nth Let_def)
qed

lemma pending_push [simp]:
  "pending (None # ps) = 1" "pending (Some st # ps) = ma_cycles st"
  by (simp_all add: pending_def)

text \<open>Bubbles cost one clock each, except that the first one waits for the memory.\<close>

definition bubble_cost :: "usize \<Rightarrow> usize \<Rightarrow> usize" where
  "bubble_cost n p = (if n = 0 then 0 else p + (n - 1))"

definition push_n :: "nat \<Rightarrow> pipeline_stat option list \<Rightarrow> pipeline_stat option list" where
  "push_n n = (\<lambda>ps. None # butlast ps) ^^ n"

lemma push_n_Suc: "push_n (Suc n) ps = push_n n (None # butlast ps)"
  by (simp add: push_n_def funpow_Suc_right del: funpow.simps)

lemma push_n_wf: "pipeline_wf ps \<Longrightarrow> pipeline_wf (push_n n ps)"
  by (induction n) (auto simp: push_n_def intro!: pipeline_wf_push simp: slot_ok_def)

lemma pending_push_n: "pending (push_n n ps) = (if n = 0 then pending ps else 1)"
  by (cases n) (simp_all add: push_n_def)

lemma push_bubbles_eq:
  assumes "pipeline_wf ps"
  shows "(push_bubbles n :: (_, 'e, _) action) ps = (Ok (bubble_cost n (pending ps)), push_n n ps)"
  using assms
proof (induction n arbitrary: ps)
  case 0
  then show ?case by (simp add: act_simps bubble_cost_def push_n_def)
next
  case (Suc n)
  have wf: "pipeline_wf (None # butlast ps)"
    using Suc.prems by (rule pipeline_wf_push) (simp add: slot_ok_def)
  have m: "max 1 (pending ps) = pending ps" using pending_bounds [OF Suc.prems] by simp
  show ?case
    using Suc.prems m
    by (simp add: act_simps push_eq Suc.IH [OF wf] bubble_cost_def push_n_Suc)
qed

section \<open>The cost of an instruction\<close>

definition stall_of :: "decoded_instr \<Rightarrow> pipeline_stat option list \<Rightarrow> usize" where
  "stall_of i ps = max (stall_with_ex i (ps ! 0)) (stall_with_ma i (ps ! 1))"

lemma calc_stall_eq:
  assumes "pipeline_wf ps"
  shows "calc_stall_cycles i ps = Ok (stall_of i ps)"
  using assms by (simp add: pipeline_wf_def calc_stall_cycles_def list_index_def stall_of_def)

lemma stall_of_le: "stall_of i ps \<le> 2"
  by (auto simp: stall_of_def stall_with_ex_def stall_with_ma_def split: option.splits pipeline_stage.splits)

lemma account_cycles_eq:
  assumes "pipeline_wf ps" "slot_ok (Some st)"
  shows "(account_cycles i st flush :: (_, 'e, _) action) ps =
    (Ok (bubble_cost (stall_of i ps) (pending ps)
         + max (ex_cycles st) (if stall_of i ps = 0 then pending ps else 1)
         + (if flush then ma_cycles st + 1 else 0)),
     (if flush then push_n 2 else id) (Some st # butlast (push_n (stall_of i ps) ps)))"
proof -
  note wf = push_n_wf [OF assms(1), of "stall_of i ps"]
  note wf2 = pipeline_wf_push [OF wf assms(2)]
  show ?thesis
    by (simp add: account_cycles_def act_simps calc_stall_eq [OF assms(1)] push_bubbles_eq [OF assms(1)]
        push_eq [OF wf] push_bubbles_eq [OF wf2] pending_push_n)
      (simp add: bubble_cost_def)
qed

lemma account_cycles_wf:
  assumes "pipeline_wf ps" "slot_ok (Some st)"
  shows "pipeline_wf (snd ((account_cycles i st flush :: (_, 'e, _) action) ps))"
  using pipeline_wf_push [OF push_n_wf [OF assms(1)] assms(2)]
  by (auto simp: account_cycles_eq [OF assms] intro: push_n_wf)

lemma account_cost:
  assumes "pipeline_wf ps" "slot_ok (Some st)"
  shows "\<exists>c ps'. account_cycles i st flush ps = (Ok c, ps') \<and> pipeline_wf ps'
    \<and> c = (if stall_of i ps = 0 then max (ex_cycles st) (pending ps)
           else pending ps + (stall_of i ps - 1) + max (ex_cycles st) 1)
        + (if flush then ma_cycles st + 1 else 0)
    \<and> 1 \<le> c \<and> c \<le> 2 * DDR2_ACCESS_CYCLES + 2 + max (ex_cycles st) 1"
proof -
  have "1 \<le> pending ps" "pending ps \<le> DDR2_ACCESS_CYCLES" by (rule pending_bounds [OF assms(1)])+
  moreover have "ma_cycles st \<le> DDR2_ACCESS_CYCLES" using assms(2) by (simp add: slot_ok_def)
  ultimately have bounds: "1 \<le> (if stall_of i ps = 0 then max (ex_cycles st) (pending ps)
           else pending ps + (stall_of i ps - 1) + max (ex_cycles st) 1)
        + (if flush then ma_cycles st + 1 else 0)"
    "(if stall_of i ps = 0 then max (ex_cycles st) (pending ps)
           else pending ps + (stall_of i ps - 1) + max (ex_cycles st) 1)
        + (if flush then ma_cycles st + 1 else 0) \<le> 2 * DDR2_ACCESS_CYCLES + 2 + max (ex_cycles st) 1"
    using stall_of_le [of i ps] by (auto simp: max_def)
  have wf: "pipeline_wf ((if flush then push_n 2 else id) (Some st # butlast (push_n (stall_of i ps) ps)))"
    using pipeline_wf_push [OF push_n_wf [OF assms(1)] assms(2)] push_n_wf by auto
  show ?thesis
    using bounds wf by (auto simp: account_cycles_eq [OF assms] bubble_cost_def)
qed

text \<open>
  C22. The clock cost of one instruction. With \<open>k\<close> stall cycles (two after a load from block RAM
  whose result is needed at once, one for a result needed a stage too early, none otherwise) the
  cost is what the pipeline still owes the memory, plus \<open>k - 1\<close> further bubbles, plus the
  instruction's own execution cycles, plus two bubbles behind a mispredicted branch; so every
  instruction costs at least one clock and the pipeline keeps its five slots.
\<close>
theorem instruction_cost:
  assumes "pipeline_wf ps" "slot_ok (Some st)"
  shows "\<exists>c ps'. account_cycles i st flush ps = (Ok c, ps') \<and> pipeline_wf ps'
    \<and> c = (if stall_of i ps = 0 then max (ex_cycles st) (pending ps)
           else pending ps + (stall_of i ps - 1) + max (ex_cycles st) 1)
        + (if flush then ma_cycles st + 1 else 0)
    \<and> 1 \<le> c \<and> c \<le> 2 * DDR2_ACCESS_CYCLES + 2 + max (ex_cycles st) 1"
  by (rule account_cost [OF assms])

theorem instruction_cost_witness:
  "fst (account_cycles (Instr_R RAdd (RegId 5) (RegId 6) (RegId 7))
      \<lparr>ex_cycles = 1, ma_cycles = 1, result_ready_stage = Some StExecute, write_back_id = Some (RegId 5),
       float_write_back_id = None\<rparr> False
      [Some \<lparr>ex_cycles = 0, ma_cycles = 1, result_ready_stage = Some StWriteBack,
             write_back_id = Some (RegId 6), float_write_back_id = None\<rparr>, None, None, None, None])
   = (Ok 3 :: (unit, usize) outcome)"
proof -
  let ?ps = "[Some \<lparr>ex_cycles = 0, ma_cycles = 1, result_ready_stage = Some StWriteBack,
             write_back_id = Some (RegId 6), float_write_back_id = None\<rparr>, None, None, None, None]"
  let ?st = "\<lparr>ex_cycles = 1, ma_cycles = 1, result_ready_stage = Some StExecute,
       write_back_id = Some (RegId 5), float_write_back_id = None\<rparr>"
  let ?i = "Instr_R RAdd (RegId 5) (RegId 6) (RegId 7)"
  have "pipeline_wf ?ps" "slot_ok (Some ?st)"
    by (simp_all add: pipeline_wf_def slot_ok_def DDR2_ACCESS_CYCLES_def)
  moreover have "stall_of ?i ?ps = 2" "pending ?ps = 1"
    by (simp_all add: stall_of_def stall_with_ex_def stall_with_ma_def hazard_def pending_def)
  ultimately show ?thesis
    using instruction_cost [of ?ps ?st ?i False, where ?'a = unit] by auto
qed

end
