(* ===== verification/Cpu_Invariant.thy ===== *)
theory Cpu_Invariant
  imports Cpu_Timing
begin

text \<open>
  The invariant of the processor and its preservation: in a release build one cycle from a
  well-formed state never panics, except where the decoder's assertion or the unsupported
  \<^verbatim>\<open>ffrac\<close> does, and leaves a well-formed state whether it returns or reports an error.
\<close>

section \<open>Register reads in closed form\<close>

definition touch_i :: "regid \<Rightarrow> reg_file \<Rightarrow> reg_file" where
  "touch_i r rf = snd (reg_get r rf :: (unit, u32) outcome \<times> reg_file)"

definition touch_f :: "fregid \<Rightarrow> reg_file \<Rightarrow> reg_file" where
  "touch_f r rf = snd (reg_get_f r rf :: (unit, f32) outcome \<times> reg_file)"

abbreviation reg_val :: "reg_file \<Rightarrow> regid \<Rightarrow> u32" where
  "reg_val rf r \<equiv> vec_elt (rf_inner rf) (reg_inner r)"

abbreviation freg_val :: "reg_file \<Rightarrow> fregid \<Rightarrow> f32" where
  "freg_val rf r \<equiv> vec_elt (rf_inner_f rf) (freg_inner r)"

lemma touch_reads:
  assumes "reg_file_wf b rf"
  shows "reg_ok b r \<Longrightarrow> reg_get r rf = (Ok (reg_val rf r), touch_i r rf)"
    and "freg_ok b f \<Longrightarrow> reg_get_f f rf = (Ok (freg_val rf f), touch_f f rf)"
  using assms
  by (auto simp: touch_i_def touch_f_def reg_get_def reg_get_f_def act_simps reg_file_wf_def
      reg_ok_def freg_ok_def)

lemma touch_frame:
  assumes "reg_file_wf b rf"
  shows "reg_ok b r \<Longrightarrow> reg_file_wf b (touch_i r rf)" "freg_ok b f \<Longrightarrow> reg_file_wf b (touch_f f rf)"
    "reg_ok b r \<Longrightarrow> rf_inner (touch_i r rf) = rf_inner rf" "reg_ok b r \<Longrightarrow> rf_inner_f (touch_i r rf) = rf_inner_f rf"
    "freg_ok b f \<Longrightarrow> rf_inner (touch_f f rf) = rf_inner rf" "freg_ok b f \<Longrightarrow> rf_inner_f (touch_f f rf) = rf_inner_f rf"
    "reg_ok b r \<Longrightarrow> stat_memregion (touch_i r rf) = stat_memregion rf"
    "freg_ok b f \<Longrightarrow> stat_memregion (touch_f f rf) = stat_memregion rf"
  using assms
  by (auto simp: touch_i_def touch_f_def reg_get_def reg_get_f_def act_simps reg_file_wf_def
      reg_ok_def freg_ok_def)

text \<open>
  Register read replaces every source register by its content and keeps everything else, and
  counts the reads.
\<close>

definition same_values :: "reg_file \<Rightarrow> reg_file \<Rightarrow> bool" where
  "same_values rf rf' \<longleftrightarrow> rf_inner rf' = rf_inner rf \<and> rf_inner_f rf' = rf_inner_f rf
     \<and> stat_memregion rf' = stat_memregion rf"

definition read_operands :: "reg_file \<Rightarrow> decoded_instr \<Rightarrow> fetched_instr" where
  "read_operands rf = map_instr (reg_val rf) id (freg_val rf) id"

lemma fetch_finstr_eq:
  assumes "reg_file_wf b rf" and "operands_ok b (Instr_F f)"
  shows "\<exists>rf'. fetch_finstr f rf = (Ok (map_finstr (reg_val rf) id (freg_val rf) id f), rf')
    \<and> reg_file_wf b rf' \<and> same_values rf rf'"
  using assms
  by (cases f) (auto simp: operands_ok_def act_simps touch_reads [of b] touch_frame [of b] same_values_def)

lemma fetch_instr_eq:
  assumes "reg_file_wf b rf" and "operands_ok b i"
  shows "\<exists>rf'. (fetch_instr i :: (reg_file, 'e, _) action) rf = (Ok (read_operands rf i), rf') \<and> reg_file_wf b rf' \<and> same_values rf rf'"
proof (cases i)
  case (Instr_F f)
  obtain rf' where "(fetch_finstr f :: (reg_file, 'e, _) action) rf = (Ok (map_finstr (reg_val rf) id (freg_val rf) id f), rf')"
    "reg_file_wf b rf'" "same_values rf rf'"
    using fetch_finstr_eq [OF assms(1)] assms(2) Instr_F by blast
  then show ?thesis by (simp add: Instr_F act_simps read_operands_def)
next
  case (Instr_IO io)
  then show ?thesis
    using assms by (cases io) (auto simp: operands_ok_def act_simps touch_reads [of b] touch_frame [of b] same_values_def read_operands_def)
next
  case (Instr_Misc m)
  then show ?thesis
    using assms by (cases m) (auto simp: act_simps same_values_def read_operands_def)
qed (use assms in \<open>auto simp: operands_ok_def act_simps touch_reads [of b] touch_frame [of b] same_values_def read_operands_def\<close>)

section \<open>The invariant\<close>

definition cpu_wf :: "build \<Rightarrow> ('i, 'o) cpu \<Rightarrow> bool" where
  "cpu_wf b s \<longleftrightarrow>
     reg_file_wf b (cpu_reg_file s) \<and> memory_wf RAM_BYTE_SIZE (cpu_memory s)
     \<and> vec_len (cpu_cache s) = CACHE_NUM_LINES \<and> vec_len (cpu_branch_predictor s) = NUM_COUNTERS
     \<and> pipeline_wf (pipeline_state s) \<and> vec_len (i_stat s) = instr_id_max"

text \<open>Words on which the decoder and the executor are total.\<close>

definition safe_instr :: "(_, _, _, _) instr \<Rightarrow> bool" where
  "safe_instr i \<longleftrightarrow> (\<forall>rd rs1. i \<noteq> Instr_F (FInstr_H Ffrac rd rs1))"

definition safe_word :: "build \<Rightarrow> u32 \<Rightarrow> bool" where
  "safe_word b w \<longleftrightarrow> \<not> is_panic (decode_from b w) \<and> (\<forall>i. decode_from b w = Ok i \<longrightarrow> safe_instr i)"

definition fetch_safe :: "build \<Rightarrow> ('i, 'o) cpu \<Rightarrow> bool" where
  "fetch_safe b s \<longleftrightarrow> (\<forall>w. get_from_pc (cpu_memory s) (cpu_pc s) = Ok w \<longrightarrow> safe_word b w)"

definition runnable :: "build \<Rightarrow> fetched_instr \<Rightarrow> bool" where
  "runnable b i \<longleftrightarrow>
     instr_in_build b i \<and> pred_instr (\<lambda>_. True) (reg_ok b) (\<lambda>_. True) (freg_ok b) i \<and> safe_instr i"

lemma finstr_in_build_map [simp]: "finstr_in_build b (map_finstr f g h k i) = finstr_in_build b i"
  by (cases i) simp_all

lemma instr_in_build_map [simp]: "instr_in_build b (map_instr f g h k i) = instr_in_build b i"
  by (cases i) simp_all

lemma safe_instr_map [simp]: "safe_instr (map_instr f g h k i) = safe_instr i"
proof (cases i)
  case (Instr_F x)
  then show ?thesis by (cases x) (auto simp: safe_instr_def)
qed (auto simp: safe_instr_def)

lemma runnable_read_operands:
  assumes "instr_in_build b i" "operands_ok b i" "safe_instr i"
  shows "runnable b (read_operands rf i)"
  using assms
  by (auto simp: runnable_def read_operands_def operands_ok_def instr.pred_map comp_def id_def
      intro: instr.pred_mono_strong)

definition wb_ok :: "build \<Rightarrow> write_back_input option \<Rightarrow> bool" where
  "wb_ok b wb = (case wb of None \<Rightarrow> True | Some (WbI r _) \<Rightarrow> reg_ok b r | Some (WbF r _) \<Rightarrow> freg_ok b r)"

lemma wb_ok_simps [simp]:
  "wb_ok b None" "wb_ok b (Some (WbI r v)) = reg_ok b r" "wb_ok b (Some (WbF f x)) = freg_ok b f"
  by (simp_all add: wb_ok_def)

definition ma_ok :: "build \<Rightarrow> memory_access_input \<Rightarrow> bool" where
  "ma_ok b ma =
     (case ma of MaI a _ \<Rightarrow> a < 2 ^ 32 | MaF a _ \<Rightarrow> a < 2 ^ 32
      | MaIMem r a \<Rightarrow> a < 2 ^ 32 \<and> reg_ok b r | MaFMem r a \<Rightarrow> a < 2 ^ 32 \<and> freg_ok b r)"

definition eo_ok :: "build \<Rightarrow> execute_output \<Rightarrow> bool" where
  "eo_ok b eo \<longleftrightarrow> wb_ok b (eo_wb_in eo) \<and> (\<forall>ma. eo_ma_in eo = Some ma \<longrightarrow> ma_ok b ma) \<and> eo_cycles eo \<le> 11"

lemma unat_u32_less [simp]: "unat (w :: u32) < 4294967296"
  using unsigned_less [of w] by simp

lemma eo_ok_defaults [simp]:
  "eo_ok b (execute_output_default\<lparr>eo_cycles := c\<rparr>) \<longleftrightarrow> c \<le> 11"
  by (simp add: eo_ok_def execute_output_default_def wb_ok_def)

section \<open>Stages\<close>

lemma get_from_pc_eq:
  assumes "memory_wf sz m"
  shows "get_from_pc m p =
    (if fst (instr_mem_range m) \<le> pc_into_usize p \<and> pc_into_usize p < snd (instr_mem_range m)
     then Ok (u32_from_le_bytes (map (vec_elt (mem_inner m)) [pc_into_usize p..<pc_into_usize p + 4]))
     else Err (PcOutOfBounds (pc_into_usize p)))"
  using assms by (auto simp: get_from_pc_def get_raw_addr_def memory_wf_def Let_def)

lemma fetch_inv:
  assumes "\<not> debug_assertions b"
  shows "hoare (\<lambda>s. cpu_wf b s \<and> fetch_safe b s) (instr_fetch b)
    (\<lambda>f s. cpu_wf b s \<and> safe_word b (id_bin (if_id_in f))) (\<lambda>e s. cpu_wf b s)"
proof (rule hoareI, elim conjE)
  fix s :: "('i, 'o) cpu"
  assume wf: "cpu_wf b s" and safe: "fetch_safe b s"
  then have "memory_wf RAM_BYTE_SIZE (cpu_memory s)" by (simp add: cpu_wf_def)
  note fetch = get_from_pc_eq [OF this, of "cpu_pc s"]
  from wf safe show "case instr_fetch b s of
      (Ok f, s') \<Rightarrow> cpu_wf b s' \<and> safe_word b (id_bin (if_id_in f)) | (Err e, s') \<Rightarrow> cpu_wf b s'
    | (Panic p, s') \<Rightarrow> False"
    using assms
    by (auto simp: instr_fetch_def act_simps fetch pc_incr_def add_u32_def fetch_safe_def cpu_wf_def)
qed

lemma decode_inv:
  assumes "safe_word b (id_bin d)"
  shows "hoare (cpu_wf b) (act_lift (instr_decode b d))
    (\<lambda>i s. cpu_wf b s \<and> instr_in_build b i \<and> operands_ok b i \<and> safe_instr i) (\<lambda>e. cpu_wf b)"
  using assms decode_from_cases [of b "id_bin d"]
  by (intro hoare_lift) (auto simp: instr_decode_def safe_word_def split: outcome.splits)

lemma encounter_inv:
  assumes "instr_in_build b i"
  shows "hoare (cpu_wf b) (zoom i_stat (\<lambda>v s. s\<lparr>i_stat := v\<rparr>) (encounter_instr b i))
    (\<lambda>_. cpu_wf b) (\<lambda>_ _. False)"
proof -
  have "unat (id_inner (id_of_instr b i)) < instr_id_max"
    using id_ok_instr [OF assms] by (simp add: id_ok_def)
  then show ?thesis
    by (auto simp: hoare_def encounter_instr_def act_simps cpu_wf_def)
qed

lemma reg_fetch_inv:
  assumes "instr_in_build b (rf_instr r)" "operands_ok b (rf_instr r)" "safe_instr (rf_instr r)"
  shows "hoare (cpu_wf b) (reg_fetch r) (\<lambda>x s. cpu_wf b s \<and> runnable b (ex_instr x)) (\<lambda>_ _. False)"
proof (rule hoareI)
  fix s :: "('i, 'o) cpu"
  assume wf: "cpu_wf b s"
  then obtain rf' where "(fetch_instr (rf_instr r) :: (reg_file, runtime_error, _) action) (cpu_reg_file s)
      = (Ok (read_operands (cpu_reg_file s) (rf_instr r)), rf')" "reg_file_wf b rf'"
    using fetch_instr_eq [of b "cpu_reg_file s" "rf_instr r"] assms(2) by (auto simp: cpu_wf_def)
  then show "case reg_fetch r s of (Ok x, s') \<Rightarrow> cpu_wf b s' \<and> runnable b (ex_instr x)
      | (Err e, s') \<Rightarrow> False | (Panic p, s') \<Rightarrow> False"
    using wf runnable_read_operands [OF assms] by (simp add: reg_fetch_def act_simps cpu_wf_def)
qed

lemma branch_eq:
  assumes "cpu_wf b s"
  shows "exec_branch old_pc imm cond s =
    (let p = pc_into_usize (cpu_pc s);
         pred = 2 \<le> counter_value (vec_elt (cpu_branch_predictor s) (p mod NUM_COUNTERS)) in
     (Ok (execute_output_default\<lparr>eo_new_pc := (if cond then Some (unat (old_pc + imm)) else None),
            eo_flush := (pred \<noteq> cond), eo_cycles := 1\<rparr>),
      s\<lparr>cpu_branch_predictor := Vec NUM_COUNTERS ((vec_elt (cpu_branch_predictor s))
            (p mod NUM_COUNTERS := step_counter cond (vec_elt (cpu_branch_predictor s) (p mod NUM_COUNTERS)))),
        b_stat := branch_update_stat pred cond (b_stat s)\<rparr>))"
proof -
  have "vec_len (cpu_branch_predictor s) = NUM_COUNTERS" "0 < NUM_COUNTERS"
    using assms by (simp_all add: cpu_wf_def NUM_COUNTERS_def)
  then show ?thesis
    by (simp add: exec_branch_def Let_def act_simps predict_eq update_state_eq)
qed

lemma branch_inv: "hoare (cpu_wf b) (exec_branch old_pc imm cond) (\<lambda>eo s. cpu_wf b s \<and> eo_ok b eo) (\<lambda>_. cpu_wf b)"
  by (rule hoareI)
    (simp add: branch_eq Let_def, simp add: cpu_wf_def eo_ok_def execute_output_default_def wb_ok_def)

lemma exec_R_inv:
  assumes "\<not> debug_assertions b" "reg_ok b rd"
  shows "hoare (cpu_wf b) (act_lift (exec_R b i rd x y)) (\<lambda>eo s. cpu_wf b s \<and> eo_ok b eo) (\<lambda>_. cpu_wf b)"
  using assms
  by (intro hoare_lift; cases i)
    (auto simp: exec_R_def shl_u32_def shr_u32_def eo_ok_def execute_output_default_def wb_ok_def)

lemma exec_I_inv:
  assumes "\<not> debug_assertions b" "reg_ok b rd"
  shows "hoare (cpu_wf b) (act_lift (exec_I b i rd x y p)) (\<lambda>eo s. cpu_wf b s \<and> eo_ok b eo) (\<lambda>_. cpu_wf b)"
  using assms
  by (intro hoare_lift; cases i)
    (auto simp: exec_I_def Let_def shl_u32_def eo_ok_def execute_output_default_def wb_ok_def ma_ok_def)

lemma exec_F_inv:
  assumes "runnable b (Instr_F f)"
  shows "hoare (cpu_wf b) (exec_F b fpu f old_pc) (\<lambda>eo s. cpu_wf b s \<and> eo_ok b eo) (\<lambda>_. cpu_wf b)"
proof (cases f)
  case (FInstr_E i rd rs1 rs2)
  then show ?thesis using assms
    by (cases i) (auto simp: exec_F_def exec_E_def runnable_def eo_ok_def execute_output_default_def wb_ok_def
        intro!: hoare_ret)
next
  case (FInstr_G i rd rs1 rs2 rs3)
  then have "isa_2nd b" using assms by (auto simp: runnable_def ginstr_variants_def split: if_splits)
  then show ?thesis using assms FInstr_G
    by (auto simp: exec_F_def exec_G_def runnable_def eo_ok_def execute_output_default_def wb_ok_def
        intro!: hoare_lift)
next
  case (FInstr_H i rd rs1)
  then show ?thesis using assms
    by (cases i) (auto simp: exec_F_def exec_H_def runnable_def safe_instr_def eo_ok_def
        execute_output_default_def wb_ok_def intro!: hoare_lift)
next
  case (FInstr_Y i rd rs1)
  then show ?thesis using assms
    by (cases i) (auto simp: exec_F_def exec_Y_def Let_def runnable_def eo_ok_def execute_output_default_def
        wb_ok_def intro!: hoare_ret)
next
  case (FInstr_W i rs1 rs2 imm)
  then show ?thesis by (simp add: exec_F_def exec_W_def branch_inv)
next
  case (FInstr_V i rs1 imm)
  then show ?thesis by (simp add: exec_F_def exec_V_def branch_inv)
qed (use assms in \<open>auto simp: exec_F_def exec_K_def exec_X_def exec_Flw_def exec_Fsw_def Let_def runnable_def
      eo_ok_def execute_output_default_def wb_ok_def ma_ok_def intro!: hoare_ret\<close>)

section \<open>Devices\<close>

text \<open>
  What the processor needs of its devices: they may refuse, but they do not panic.
\<close>

locale total_devices =
  fixes it :: "'i input_trait" and ot :: "'o output_trait"
  assumes inw_total: "\<not> is_panic (fst (inw it d))"
    and finw_total: "\<not> is_panic (fst (finw it d))"
    and outb_total: "\<not> is_panic (fst (outb ot c d'))"
begin

lemma exec_IO_inv:
  assumes "runnable b (Instr_IO io)"
  shows "hoare (cpu_wf b) (exec_IO it ot io) (\<lambda>eo s. cpu_wf b s \<and> eo_ok b eo) (\<lambda>_. cpu_wf b)"
proof (rule hoareI)
  fix s :: "('i, 'o) cpu"
  assume wf: "cpu_wf b s"
  have upd: "cpu_wf b (s\<lparr>cpu_input := d\<rparr>)" "cpu_wf b (s\<lparr>cpu_output := d'\<rparr>)" for d d'
    using wf by (simp_all add: cpu_wf_def)
  show "case exec_IO it ot io s of (Ok eo, s') \<Rightarrow> cpu_wf b s' \<and> eo_ok b eo | (Err e, s') \<Rightarrow> cpu_wf b s'
      | (Panic p, s') \<Rightarrow> False"
  proof (cases io)
    case (Outb x)
    then show ?thesis
      using upd outb_total [of "ucast x" "cpu_output s"]
      by (cases "outb ot (ucast x) (cpu_output s)"; cases "fst (outb ot (ucast x) (cpu_output s))")
        (auto simp: exec_IO_def act_simps)
  next
    case (Inw rd)
    then show ?thesis
      using assms upd inw_total [of "cpu_input s"]
      by (cases "inw it (cpu_input s)"; cases "fst (inw it (cpu_input s))")
        (auto simp: exec_IO_def act_simps runnable_def eo_ok_def execute_output_default_def wb_ok_def)
  next
    case (Finw rd)
    then show ?thesis
      using assms upd finw_total [of "cpu_input s"]
      by (cases "finw it (cpu_input s)"; cases "fst (finw it (cpu_input s))")
        (auto simp: exec_IO_def act_simps runnable_def eo_ok_def execute_output_default_def wb_ok_def)
  qed
qed

lemma execute_inv:
  assumes "\<not> debug_assertions b" "runnable b (ex_instr x)"
  shows "hoare (cpu_wf b) (execute b fpu it ot x) (\<lambda>eo s. cpu_wf b s \<and> eo_ok b eo) (\<lambda>_. cpu_wf b)"
proof (cases "ex_instr x")
  case (Instr_R i rd rs1 rs2)
  then show ?thesis using assms by (simp add: execute_def exec_R_inv runnable_def)
next
  case (Instr_I i rd rs1 imm)
  then show ?thesis using assms by (simp add: execute_def exec_I_inv runnable_def)
next
  case (Instr_S i rs1 rs2 imm)
  then show ?thesis
    by (cases i) (auto simp: execute_def exec_S_def Let_def eo_ok_def execute_output_default_def wb_ok_def ma_ok_def
        intro!: hoare_ret)
next
  case (Instr_B i rs1 rs2 imm)
  then show ?thesis by (simp add: execute_def exec_B_def branch_inv)
next
  case (Instr_P i rs1 imm imm2)
  then have "isa_2nd b" using assms by (auto simp: runnable_def pinstr_variants_def split: if_splits)
  then show ?thesis using Instr_P by (simp add: execute_def exec_P_def branch_inv)
next
  case (Instr_J i rd imm)
  then show ?thesis using assms
    by (cases i) (auto simp: execute_def exec_J_def runnable_def eo_ok_def execute_output_default_def wb_ok_def
        intro!: hoare_ret)
next
  case (Instr_IO io)
  then show ?thesis using assms by (simp add: execute_def exec_IO_inv)
next
  case (Instr_F f)
  then show ?thesis using assms by (simp add: execute_def exec_F_inv)
next
  case (Instr_Misc m)
  then show ?thesis
    by (cases m) (auto simp: execute_def eo_ok_def execute_output_default_def wb_ok_def intro!: hoare_ret)
qed

end

interpretation empty_devices: total_devices empty_input empty_output
  by unfold_locales (simp_all add: empty_input_def empty_output_def empty_inw_def empty_finw_def
      empty_outb_def act_simps)

interpretation binary_out_devices: total_devices empty_input binary_output_trait
  by unfold_locales (simp_all add: empty_input_def binary_output_trait_def empty_inw_def empty_finw_def
      binary_outb_def act_simps)

section \<open>Memory access, write back, accounting\<close>

definition access_total :: "(memory_region_stat_builder \<Rightarrow> 'a access) \<Rightarrow> bool" where
  "access_total acc \<longleftrightarrow>
     (\<forall>rg. hoare (\<lambda>(m, sp). memory_wf RAM_BYTE_SIZE m) (acc rg) (\<lambda>_ (m, sp). memory_wf RAM_BYTE_SIZE m)
        (\<lambda>_ (m, sp). memory_wf RAM_BYTE_SIZE m))"

lemma access_cases:
  assumes "memory_wf sz m" "\<not> debug_assertions b" "a < 2 ^ 32"
  shows "access_ok b sz rg m a \<or> \<not> accessible sz m a"
  using assms by (auto simp: access_ok_def region_known_def)

lemma access_totalI:
  assumes "\<not> debug_assertions b" "a < 2 ^ 32"
    and ok: "\<And>rg m sp. access_ok b RAM_BYTE_SIZE rg m a \<Longrightarrow> memory_wf RAM_BYTE_SIZE m \<Longrightarrow>
      case acc rg (m, sp) of (Panic p, s') \<Rightarrow> False | (_, m', sp') \<Rightarrow> memory_wf RAM_BYTE_SIZE m'"
    and out: "\<And>rg m sp. \<not> accessible RAM_BYTE_SIZE m a \<Longrightarrow> \<exists>e. acc rg (m, sp) = (Err e, (m, sp))"
  shows "access_total acc"
  unfolding access_total_def
proof (intro allI hoareI)
  fix rg and s :: "memory \<times> spied"
  assume wf: "case s of (m, sp) \<Rightarrow> memory_wf RAM_BYTE_SIZE m"
  obtain m sp where s: "s = (m, sp)" by (cases s)
  have "access_ok b RAM_BYTE_SIZE rg m a \<or> \<not> accessible RAM_BYTE_SIZE m a"
    using access_cases wf s assms(1,2) by auto
  then show "case acc rg s of (Ok v, s') \<Rightarrow> (case s' of (m, sp) \<Rightarrow> memory_wf RAM_BYTE_SIZE m)
      | (Err e, s') \<Rightarrow> (case s' of (m, sp) \<Rightarrow> memory_wf RAM_BYTE_SIZE m) | (Panic p, s') \<Rightarrow> False"
    using ok [of rg m sp] out [of m rg sp] wf s by (auto split: prod.splits outcome.splits)
qed

lemma access_total_ops:
  assumes "\<not> debug_assertions b" "a < 2 ^ 32"
  shows "access_total (\<lambda>rg. mem_set b RAM_BYTE_SIZE rg a v)"
    "access_total (\<lambda>rg. mem_set_f b RAM_BYTE_SIZE rg a x)"
    "access_total (\<lambda>rg. mem_get_i b RAM_BYTE_SIZE rg a)"
    "access_total (\<lambda>rg. mem_get_f b RAM_BYTE_SIZE rg a)"
  by (rule access_totalI [OF assms];
      simp add: mem_set_eq mem_set_f_eq mem_get_i_eq mem_get_f_eq Let_def access_out_of_bounds)+

abbreviation wf_pair :: "build \<Rightarrow> ('i, 'o) cpu \<times> spied \<Rightarrow> bool" where
  "wf_pair b \<equiv> \<lambda>(s, sp). cpu_wf b s"

lemma on_memory_inv:
  assumes "access_total acc"
  shows "hoare (wf_pair b) (on_memory acc) (\<lambda>_. wf_pair b) (\<lambda>_. wf_pair b)"
proof (rule hoareI)
  fix s :: "('i, 'o) cpu \<times> spied"
  assume wf: "wf_pair b s"
  obtain c sp where s: "s = (c, sp)" by (cases s)
  have "memory_wf RAM_BYTE_SIZE (cpu_memory c)" using wf s by (simp add: cpu_wf_def)
  then have "case acc (stat_memregion (cpu_reg_file c)) (cpu_memory c, sp) of
      (Ok a, s') \<Rightarrow> (\<lambda>(m, sp). memory_wf RAM_BYTE_SIZE m) s'
    | (Err e, s') \<Rightarrow> (\<lambda>(m, sp). memory_wf RAM_BYTE_SIZE m) s' | (Panic p, s') \<Rightarrow> False"
    using assms hoareD [of "\<lambda>(m, sp). memory_wf RAM_BYTE_SIZE m"
        "acc (stat_memregion (cpu_reg_file c))" _ _ "(cpu_memory c, sp)"]
    by (simp add: access_total_def)
  then show "case on_memory acc s of (Ok a, s') \<Rightarrow> wf_pair b s' | (Err e, s') \<Rightarrow> wf_pair b s'
      | (Panic p, s') \<Rightarrow> False"
    using wf s by (auto simp: on_memory_def act_simps cpu_wf_def split: prod.splits outcome.splits)
qed

lemma ma_cache_inv:
  "hoare (wf_pair b) (ma_cache a) (\<lambda>r s. wf_pair b s \<and> mo_wb_in r = None) (\<lambda>_. wf_pair b)"
proof (rule hoareI)
  fix s :: "('i, 'o) cpu \<times> spied"
  assume wf: "wf_pair b s"
  obtain c sp where s: "s = (c, sp)" by (cases s)
  have "vec_len (cpu_cache c) = CACHE_NUM_LINES" "0 < CACHE_NUM_LINES"
    using wf s by (simp_all add: cpu_wf_def CACHE_NUM_LINES_def)
  then show "case ma_cache a s of (Ok r, s') \<Rightarrow> wf_pair b s' \<and> mo_wb_in r = None
      | (Err e, s') \<Rightarrow> wf_pair b s' | (Panic p, s') \<Rightarrow> False"
    using wf s
    by (auto simp: ma_cache_def act_simps Let_def access_cache_eq memory_access_output_default_def cpu_wf_def)
qed

definition mo_ok :: "build \<Rightarrow> memory_access_output \<Rightarrow> bool" where
  "mo_ok b mo \<longleftrightarrow> wb_ok b (mo_wb_in mo) \<and> 1 \<le> mo_cycles mo \<and> mo_cycles mo \<le> DDR2_ACCESS_CYCLES"

lemma ma_finish_inv:
  assumes "wb_ok b (mo_wb_in r)"
  shows "hoare (wf_pair b) (ma_finish r) (\<lambda>mo s. wf_pair b s \<and> mo_ok b mo) (\<lambda>_. wf_pair b)"
  by (rule hoareI)
    (use assms in \<open>auto simp: ma_finish_def act_simps mo_ok_def DDR2_ACCESS_CYCLES_def cpu_wf_def\<close>)

lemma ma_step_inv:
  fixes k :: "memory_access_output \<Rightarrow> 'a \<Rightarrow> memory_access_output"
  assumes "access_total acc" "\<And>r v. mo_wb_in r = None \<Longrightarrow> wb_ok b (mo_wb_in (k r v))"
  shows "hoare (wf_pair b) (act_bind (ma_cache a) (\<lambda>r. act_bind (on_memory acc) (\<lambda>v. act_ret (k r v))))
      (\<lambda>r s. wf_pair b s \<and> wb_ok b (mo_wb_in r)) (\<lambda>_. wf_pair b)"
proof (rule hoare_bind_pure [OF ma_cache_inv])
  fix r :: memory_access_output
  assume r: "mo_wb_in r = None"
  show "hoare (wf_pair b) (act_bind (on_memory acc) (\<lambda>v. act_ret (k r v)))
      (\<lambda>r s. wf_pair b s \<and> wb_ok b (mo_wb_in r)) (\<lambda>_. wf_pair b)"
    by (rule hoare_bind [OF on_memory_inv [OF assms(1)]]) (use assms(2) [OF r] in \<open>auto intro!: hoare_ret\<close>)
qed

lemma ma_arm_inv:
  assumes "\<not> debug_assertions b" "ma_ok b ma"
  shows "hoare (wf_pair b) (ma_arm b ma) (\<lambda>r s. wf_pair b s \<and> wb_ok b (mo_wb_in r)) (\<lambda>_. wf_pair b)"
  using assms(2) access_total_ops [OF assms(1)]
  by (cases ma) (auto simp: ma_arm_def ma_ok_def intro!: ma_step_inv)

lemma memory_access_inv:
  assumes "\<not> debug_assertions b" "ma_ok b ma"
  shows "hoare (wf_pair b) (memory_access b ma) (\<lambda>mo s. wf_pair b s \<and> mo_ok b mo) (\<lambda>_. wf_pair b)"
  unfolding memory_access_def by (rule hoare_bind_pure [OF ma_arm_inv [OF assms] ma_finish_inv])

lemma write_back_inv:
  assumes "wb_ok b (Some wb)"
  shows "hoare (cpu_wf b) (write_back wb) (\<lambda>_. cpu_wf b) (\<lambda>_. cpu_wf b)"
proof (rule hoareI)
  fix s :: "('i, 'o) cpu"
  assume wf: "cpu_wf b s"
  then have "reg_file_wf b (cpu_reg_file s)" by (simp add: cpu_wf_def)
  note ok = bank_write_ok [OF this]
  show "case write_back wb s of (Ok a, s') \<Rightarrow> cpu_wf b s' | (Err e, s') \<Rightarrow> cpu_wf b s' | (Panic p, s') \<Rightarrow> False"
  proof (cases wb)
    case (WbI r v)
    then obtain rf where "(reg_set r v :: (reg_file, runtime_error, unit) action) (cpu_reg_file s) = (Ok (), rf)" "reg_file_wf b rf"
      using ok(1) [of r v] assms by (auto simp: wb_ok_def reg_ok_def)
    then show ?thesis using wf WbI by (simp add: write_back_def act_simps cpu_wf_def)
  next
    case (WbF r v)
    then obtain rf where "(reg_set_f r v :: (reg_file, runtime_error, unit) action) (cpu_reg_file s) = (Ok (), rf)" "reg_file_wf b rf"
      using ok(2) [of r v] assms by (auto simp: wb_ok_def freg_ok_def)
    then show ?thesis using wf WbF by (simp add: write_back_def act_simps cpu_wf_def)
  qed
qed

lemma account_inv:
  assumes "slot_ok (Some st)"
  shows "hoare (cpu_wf b) (zoom pipeline_state (\<lambda>ps s. s\<lparr>pipeline_state := ps\<rparr>) (account_cycles i st fl))
    (\<lambda>c s. cpu_wf b s \<and> 1 \<le> c \<and> c \<le> 2 * DDR2_ACCESS_CYCLES + 2 + max (ex_cycles st) 1) (\<lambda>_. cpu_wf b)"
proof (rule hoareI)
  fix s :: "('i, 'o) cpu"
  assume wf: "cpu_wf b s"
  then have ps: "pipeline_wf (pipeline_state s)" by (simp add: cpu_wf_def)
  obtain c ps' where "(account_cycles i st fl :: (_, 'e, _) action) (pipeline_state s) = (Ok c, ps')" "pipeline_wf ps'"
      "1 \<le> c" "c \<le> 2 * DDR2_ACCESS_CYCLES + 2 + max (ex_cycles st) 1"
    using account_cost [OF ps assms] by blast
  then show "case zoom pipeline_state (\<lambda>ps s. s\<lparr>pipeline_state := ps\<rparr>) (account_cycles i st fl :: (_, 'e, _) action) s of
      (Ok c, s') \<Rightarrow> cpu_wf b s' \<and> 1 \<le> c \<and> c \<le> 2 * DDR2_ACCESS_CYCLES + 2 + max (ex_cycles st) 1
    | (Err e, s') \<Rightarrow> cpu_wf b s' | (Panic p, s') \<Rightarrow> False"
    using wf by (simp add: act_simps cpu_wf_def)
qed

section \<open>One cycle\<close>

definition mem_post :: "build \<Rightarrow> usize \<times> pipeline_stage \<times> write_back_input option \<times> cpu_control_flow \<Rightarrow> bool" where
  "mem_post b = (\<lambda>(c, stage, wb, flow). wb_ok b wb \<and> 1 \<le> c \<and> c \<le> DDR2_ACCESS_CYCLES \<and> flow \<noteq> CpuExit)"

lemma cycle_memory_inv:
  assumes "\<not> debug_assertions b" "eo_ok b eo"
  shows "hoare (cpu_wf b) (cycle_memory b eo) (\<lambda>r s. cpu_wf b s \<and> mem_post b r) (\<lambda>_. cpu_wf b)"
proof (cases "eo_ma_in eo")
  case None
  then show ?thesis
    using assms(2)
    by (auto simp: cycle_memory_def eo_ok_def mem_post_def DDR2_ACCESS_CYCLES_def intro!: hoare_ret)
next
  case (Some ma)
  then have ma: "ma_ok b ma" using assms(2) by (simp add: eo_ok_def)
  have "hoare (cpu_wf b) (with_local None (memory_access b ma)) (\<lambda>(mo, sp) s. cpu_wf b s \<and> mo_ok b mo) (\<lambda>_. cpu_wf b)"
    by (rule hoare_with_local, rule hoare_conseq [OF memory_access_inv [OF assms(1) ma]]) auto
  then show ?thesis
    unfolding cycle_memory_def Let_def Some option.case
  proof (rule hoare_bind)
    fix x :: "memory_access_output \<times> spied"
    show "hoare (case x of (mo, sp) \<Rightarrow> \<lambda>s. cpu_wf b s \<and> mo_ok b mo)
      (case x of (ma_out, sp) \<Rightarrow>
         if mo_wb_in ma_out \<noteq> None
         then act_ret (mo_cycles ma_out, if mo_use_bram ma_out then StWriteBack else StMemoryAccess,
           mo_wb_in ma_out, case sp of None \<Rightarrow> CpuContinue | Some r \<Rightarrow> CpuBreak (CpuSpy r))
         else act_ret (mo_cycles ma_out, if eo_use_fpu eo then StMemoryAccess else StExecute,
           eo_wb_in eo, case sp of None \<Rightarrow> CpuContinue | Some r \<Rightarrow> CpuBreak (CpuSpy r)))
      (\<lambda>r s. cpu_wf b s \<and> mem_post b r) (\<lambda>_. cpu_wf b)"
      using assms(2)
      by (cases x) (auto simp: mem_post_def mo_ok_def eo_ok_def intro!: hoare_if hoare_ret split: option.split)
  qed
qed

text \<open>What every returned cycle satisfies: exit, or between 1 and 193 clocks.\<close>

definition cycle_post :: "cycle_result \<Rightarrow> bool" where
  "cycle_post res \<longleftrightarrow> (if cr_flow res = CpuExit then cr_cycles res = 0 else 1 \<le> cr_cycles res \<and> cr_cycles res \<le> 193)"

lemma set_pc_inv:
  "hoare (cpu_wf b) (case n of Some val \<Rightarrow> act_modify (\<lambda>s. s\<lparr>cpu_pc := Pc (word_of_nat val)\<rparr>) | None \<Rightarrow> act_ret ())
     (\<lambda>_. cpu_wf b) (\<lambda>_. cpu_wf b)"
  by (cases n) (auto simp: cpu_wf_def intro!: hoare_ret hoare_modify)

lemma retire_inv:
  assumes "\<not> debug_assertions b" "eo_ok b eo" "cr_cycles res = 0"
  shows "hoare (cpu_wf b) (cycle_retire b i eo res) (\<lambda>r s. cpu_wf b s \<and> cycle_post r) (\<lambda>_. cpu_wf b)"
  unfolding cycle_retire_def
proof (rule hoare_bind [OF set_pc_inv], rule hoare_bind_pure [OF cycle_memory_inv [OF assms(1,2)]])
  fix r :: "usize \<times> pipeline_stage \<times> write_back_input option \<times> cpu_control_flow"
  assume post: "mem_post b r"
  obtain c stage wb flow where r: "r = (c, stage, wb, flow)" by (cases r)
  let ?st = "\<lparr>ex_cycles = eo_cycles eo, ma_cycles = c, result_ready_stage = Some stage,
            write_back_id = (case wb of Some (WbI r _) \<Rightarrow> Some r | _ \<Rightarrow> None),
            float_write_back_id = (case wb of Some (WbF r _) \<Rightarrow> Some r | _ \<Rightarrow> None)\<rparr>"
  have st: "slot_ok (Some ?st)" using post r by (simp add: slot_ok_def mem_post_def)
  have wb: "hoare (cpu_wf b) (case wb of Some w \<Rightarrow> write_back w | None \<Rightarrow> act_ret ())
     (\<lambda>_. cpu_wf b) (\<lambda>_. cpu_wf b)"
    using post r by (cases wb) (auto simp: mem_post_def intro!: hoare_ret write_back_inv)
  have fin: "hoare (\<lambda>s. cpu_wf b s \<and> 1 \<le> n \<and> n \<le> 2 * DDR2_ACCESS_CYCLES + 2 + max (ex_cycles ?st) 1)
      (act_ret (res\<lparr>cr_cycles := cr_cycles res + n, cr_flow := flow\<rparr>))
      (\<lambda>r s. cpu_wf b s \<and> cycle_post r) (\<lambda>_. cpu_wf b)" for n
    using post r assms(2,3)
    by (auto simp: cycle_post_def mem_post_def DDR2_ACCESS_CYCLES_def eo_ok_def intro!: hoare_ret)
  show "hoare (cpu_wf b)
     (case r of (ma_cyc, stage, wb_in, flow) \<Rightarrow>
        act_bind (case wb_in of Some wb \<Rightarrow> write_back wb | None \<Rightarrow> act_ret ()) (\<lambda>_.
        act_bind (zoom pipeline_state (\<lambda>ps s. s\<lparr>pipeline_state := ps\<rparr>)
          (account_cycles i
            \<lparr>ex_cycles = eo_cycles eo, ma_cycles = ma_cyc, result_ready_stage = Some stage,
             write_back_id = (case wb_in of Some (WbI r _) \<Rightarrow> Some r | _ \<Rightarrow> None),
             float_write_back_id = (case wb_in of Some (WbF r _) \<Rightarrow> Some r | _ \<Rightarrow> None)\<rparr>
            (eo_flush eo))) (\<lambda>cycles.
        act_ret (res\<lparr>cr_cycles := cr_cycles res + cycles, cr_flow := flow\<rparr>))))
     (\<lambda>r s. cpu_wf b s \<and> cycle_post r) (\<lambda>_. cpu_wf b)"
    unfolding r prod.case
    by (rule hoare_bind [OF wb], rule hoare_bind [OF account_inv [OF st]], rule fin)
qed

context total_devices
begin

lemma run_inv:
  assumes "\<not> debug_assertions b" "instr_in_build b (rf_instr r)" "operands_ok b (rf_instr r)"
    "safe_instr (rf_instr r)" "cr_cycles res = 0"
  shows "hoare (cpu_wf b)
     (act_bind (reg_fetch r) (\<lambda>x. act_bind (execute b fpu it ot x) (\<lambda>eo.
        if eo_end eo then act_ret (res\<lparr>cr_flow := CpuExit\<rparr>) else cycle_retire b i eo res)))
     (\<lambda>r s. cpu_wf b s \<and> cycle_post r) (\<lambda>_. cpu_wf b)"
proof (rule hoare_bind_pure [OF hoare_no_err [OF reg_fetch_inv [OF assms(2-4)]]],
    rule hoare_bind_pure [OF execute_inv [OF assms(1)]])
  fix eo :: execute_output
  assume eo: "eo_ok b eo"
  show "hoare (cpu_wf b) (if eo_end eo then act_ret (res\<lparr>cr_flow := CpuExit\<rparr>) else cycle_retire b i eo res)
     (\<lambda>r s. cpu_wf b s \<and> cycle_post r) (\<lambda>_. cpu_wf b)"
    using assms(5) retire_inv [OF assms(1) eo assms(5)]
    by (auto simp: cycle_post_def intro!: hoare_if hoare_ret)
qed

lemma cycle_inv:
  assumes "\<not> debug_assertions b"
  shows "hoare (\<lambda>s. cpu_wf b s \<and> fetch_safe b s) (cycle_one_full b fpu it ot tr)
    (\<lambda>r s. cpu_wf b s \<and> cycle_post r) (\<lambda>_. cpu_wf b)"
  unfolding cycle_one_full_def Let_def
  by (rule hoare_bind_pure [OF fetch_inv [OF assms]], rule hoare_bind_pure [OF decode_inv], assumption,
      elim conjE, rule hoare_bind [OF hoare_no_err [OF encounter_inv]], assumption,
      rule run_inv [OF assms]) (simp_all add: cycle_result_default_def)

end

end
