(* ===== verification/Build_Agreement.thy ===== *)
theory Build_Agreement
  imports Cpu_Invariant
begin

text \<open>
  Debug and release builds: a debug build computes what the release build computes, or panics
  on an arithmetic overflow. Everything proved of release builds carries over to debug builds
  up to that panic.
\<close>

section \<open>Agreement up to overflow panics\<close>

definition agrees_out :: "('e, 'a) outcome \<Rightarrow> ('e, 'a) outcome \<Rightarrow> bool" where
  "agrees_out x y \<longleftrightarrow> x = Panic ArithmeticOverflow \<or> x = y"

definition agrees :: "('s, 'e, 'a) action \<Rightarrow> ('s, 'e, 'a) action \<Rightarrow> bool" where
  "agrees m n \<longleftrightarrow> (\<forall>s. fst (m s) = Panic ArithmeticOverflow \<or> m s = n s)"

named_theorems agree_intro "rules for the agreement of two builds"

lemma agrees_refl [agree_intro]: "agrees m m"
  by (simp add: agrees_def)

lemma agrees_out_refl [agree_intro]: "agrees_out x x"
  by (simp add: agrees_out_def)

lemma agreesD:
  assumes "agrees m n" and "m s = (r, s')"
  shows "r = Panic ArithmeticOverflow \<or> n s = (r, s')"
  using assms by (metis agrees_def fst_conv)

lemma agreesI:
  assumes "\<And>s r s'. m s = (r, s') \<Longrightarrow> r = Panic ArithmeticOverflow \<or> n s = (r, s')"
  shows "agrees m n"
  unfolding agrees_def using assms by (metis surjective_pairing)

lemma agrees_bind [agree_intro]:
  assumes "agrees m n" and "\<And>a. agrees (f a) (g a)"
  shows "agrees (act_bind m f) (act_bind n g)"
proof (rule agreesI)
  fix s r s'
  assume run: "act_bind m f s = (r, s')"
  obtain x s1 where m: "m s = (x, s1)" by (cases "m s")
  from agreesD [OF assms(1) m] show "r = Panic ArithmeticOverflow \<or> act_bind n g s = (r, s')"
  proof
    assume "x = Panic ArithmeticOverflow"
    then show ?thesis using run m by (simp add: act_bind_def)
  next
    assume n: "n s = (x, s1)"
    show ?thesis
    proof (cases x)
      case (Ok a)
      then show ?thesis using run m n agreesD [OF assms(2), of a s1 r s'] by (simp add: act_bind_def)
    qed (use run m n in \<open>simp_all add: act_bind_def\<close>)
  qed
qed

lemma agrees_out_bind [agree_intro]:
  assumes "agrees_out x y" and "\<And>a. agrees_out (f a) (g a)"
  shows "agrees_out (bind_out x f) (bind_out y g)"
proof (cases x)
  case (Ok a)
  then show ?thesis using assms(1) assms(2) [of a] by (auto simp: agrees_out_def)
qed (use assms(1) in \<open>auto simp: agrees_out_def\<close>)

lemma agrees_lift [agree_intro]: "agrees_out x y \<Longrightarrow> agrees (act_lift x) (act_lift y)"
  by (auto simp: agrees_def agrees_out_def act_lift_def)

lemma agrees_read [agree_intro]: "(\<And>s. agrees_out (f s) (g s)) \<Longrightarrow> agrees (act_read f) (act_read g)"
  by (auto simp: agrees_def agrees_out_def act_read_def)

lemma agrees_try [agree_intro]:
  assumes "\<And>s. agrees_out (f s) (g s)"
  shows "agrees (act_try f) (act_try g)"
  unfolding agrees_def
proof
  fix s
  show "fst (act_try f s) = Panic ArithmeticOverflow \<or> act_try f s = act_try g s"
    using assms [of s] by (auto simp: agrees_out_def act_try_def)
qed

lemma agrees_zoom [agree_intro]:
  assumes "agrees m n"
  shows "agrees (zoom gt pt m) (zoom gt pt n)"
  unfolding agrees_def
proof
  fix s
  obtain r t where m: "m (gt s) = (r, t)" by (cases "m (gt s)")
  show "fst (zoom gt pt m s) = Panic ArithmeticOverflow \<or> zoom gt pt m s = zoom gt pt n s"
    using agreesD [OF assms m] m by (auto simp: zoom_def)
qed

lemma agrees_map_err [agree_intro]:
  assumes "agrees m n"
  shows "agrees (act_map_err g m) (act_map_err g n)"
  unfolding agrees_def
proof
  fix s
  obtain r t where m: "m s = (r, t)" by (cases "m s")
  show "fst (act_map_err g m s) = Panic ArithmeticOverflow \<or> act_map_err g m s = act_map_err g n s"
    using agreesD [OF assms m] m by (auto simp: act_map_err_def)
qed

lemma agrees_with_local [agree_intro]:
  assumes "agrees m n"
  shows "agrees (with_local t m) (with_local t n)"
  unfolding agrees_def
proof
  fix s
  obtain r u where m: "m (s, t) = (r, u)" by (cases "m (s, t)")
  show "fst (with_local t m s) = Panic ArithmeticOverflow \<or> with_local t m s = with_local t n s"
    using agreesD [OF assms m] m by (auto simp: with_local_def split: prod.split)
qed

lemma agrees_out_if [agree_intro]:
  "agrees_out x y \<Longrightarrow> agrees_out x' y' \<Longrightarrow> agrees_out (if c then x else x') (if c then y else y')"
  by simp

lemma agrees_if [agree_intro]: "agrees m n \<Longrightarrow> agrees m' n' \<Longrightarrow> agrees (if c then m else m') (if c then n else n')"
  by simp

section \<open>Builds that differ in the overflow checks\<close>

definition release :: "build \<Rightarrow> build" where
  "release b = b\<lparr>debug_assertions := False\<rparr>"

lemma release_simps [simp]: "\<not> debug_assertions (release b)" "isa_2nd (release b) = isa_2nd b"
  by (simp_all add: release_def)

lemma arith_agrees [agree_intro]:
  "agrees_out (add_u32 b x y) (add_u32 (release b) x y)" "agrees_out (sub_u32 b x y) (sub_u32 (release b) x y)"
  "agrees_out (shl_u32 b x y) (shl_u32 (release b) x y)" "agrees_out (shr_u32 b x y) (shr_u32 (release b) x y)"
  by (simp_all add: agrees_out_def add_u32_def sub_u32_def shl_u32_def shr_u32_def)

lemma registers_release [simp]:
  "reg_bit_width (release b) = reg_bit_width b" "max_reg_id (release b) = max_reg_id b"
  by (simp_all add: reg_bit_width_def max_reg_id_def)

text \<open>
  The range check of register numbers is compiled in debug builds only, but it never fires on the
  register fields of a machine word.
\<close>

lemma decode_release_1st:
  "decode_R (release b) w = decode_R b w" "decode_I (release b) w = decode_I b w"
  "decode_load (release b) w = decode_load b w" "decode_jalr (release b) w = decode_jalr b w"
  "decode_S (release b) w = decode_S b w" "decode_B (release b) w = decode_B b w"
  "decode_jal (release b) w = decode_jal b w" "decode_inw (release b) w = decode_inw b w"
  "decode_outb (release b) w = decode_outb b w" "decode_finw (release b) w = decode_finw b w"
  "decode_F (release b) w = decode_F b w" "decode_VW (release b) w = decode_VW b w"
  "decode_flw (release b) w = decode_flw b w" "decode_fsw (release b) w = decode_fsw b w"
  by (simp_all add: decode_arms_defs Let_def cong: if_cong)

lemma decode_release_2nd:
  assumes "isa_2nd b"
  shows "decode2_R (release b) w = decode2_R b w" "decode2_I (release b) w = decode2_I b w"
    "decode2_load (release b) w = decode2_load b w" "decode2_jalr (release b) w = decode2_jalr b w"
    "decode2_S (release b) w = decode2_S b w" "decode2_B (release b) w = decode2_B b w"
    "decode2_P (release b) w = decode2_P b w" "decode2_jal (release b) w = decode2_jal b w"
    "decode2_IO (release b) w = decode2_IO b w" "decode2_F (release b) w = decode2_F b w"
    "decode2_VW (release b) w = decode2_VW b w" "decode2_flw (release b) w = decode2_flw b w"
    "decode2_fsw (release b) w = decode2_fsw b w"
  using assms by (simp_all add: decode2_arms_defs Let_def cong: if_cong)

lemma decode_release [simp]: "decode_from (release b) w = decode_from b w"
  by (simp add: decode_from_def decode_from_1st_def decode_from_2nd_def decode_release_1st decode_release_2nd
      Let_def cong: if_cong)

lemma variants_release [simp]:
  "rinstr_variants (release b) = rinstr_variants b" "iinstr_variants (release b) = iinstr_variants b"
  "sinstr_variants (release b) = sinstr_variants b" "binstr_variants (release b) = binstr_variants b"
  "pinstr_variants (release b) = pinstr_variants b" "jinstr_variants (release b) = jinstr_variants b"
  "einstr_variants (release b) = einstr_variants b" "ginstr_variants (release b) = ginstr_variants b"
  "hinstr_variants (release b) = hinstr_variants b" "kinstr_variants (release b) = kinstr_variants b"
  "xinstr_variants (release b) = xinstr_variants b" "yinstr_variants (release b) = yinstr_variants b"
  "winstr_variants (release b) = winstr_variants b" "vinstr_variants (release b) = vinstr_variants b"
  by (simp_all add: variants_defs)

lemma id_release [simp]: "id_of_instr (release b) i = id_of_instr b i"
proof (cases i)
  case (Instr_F f)
  then show ?thesis by (cases f) simp_all
next
  case (Instr_Misc m)
  then show ?thesis by (cases m) simp
qed simp_all

section \<open>The processor\<close>

lemma get_region_agrees [agree_intro]: "agrees_out (get_region b r a) (get_region (release b) r a)"
  unfolding get_region_def by (intro agree_intro)

lemma on_read_agrees [agree_intro]: "agrees (on_read b rg a) (on_read (release b) rg a)"
  unfolding on_read_def by (intro agree_intro)

lemma on_write_agrees [agree_intro]: "agrees (on_write b rg a v) (on_write (release b) rg a v)"
  unfolding on_write_def by (intro agree_intro)

lemma mem_agrees [agree_intro]:
  "agrees (mem_get_i b sz rg a) (mem_get_i (release b) sz rg a)"
  "agrees (mem_get_f b sz rg a) (mem_get_f (release b) sz rg a)"
  "agrees (mem_set b sz rg a w) (mem_set (release b) sz rg a w)"
  "agrees (mem_set_f b sz rg a x) (mem_set_f (release b) sz rg a x)"
  unfolding mem_get_i_def mem_get_f_def mem_set_def mem_set_f_def by (intro agree_intro)+

lemma on_memory_agrees [agree_intro]:
  "(\<And>rg. agrees (acc rg) (acc' rg)) \<Longrightarrow> agrees (on_memory acc) (on_memory acc')"
  unfolding on_memory_def by (intro agree_intro) blast

lemma memory_access_agrees [agree_intro]: "agrees (memory_access b ma) (memory_access (release b) ma)"
proof -
  have "agrees (ma_arm b ma) (ma_arm (release b) ma)"
    by (cases ma) (simp_all add: ma_arm_def agree_intro)
  then show ?thesis unfolding memory_access_def by (intro agree_intro)
qed

lemma alu_R_agrees: "agrees_out (exec_R b i rd x y) (exec_R (release b) i rd x y)"
  unfolding exec_R_def by (intro agree_intro, cases i) (simp_all add: agree_intro)

lemma exec_I_agrees: "agrees_out (exec_I b i rd x y p) (exec_I (release b) i rd x y p)"
  by (cases i) (simp_all add: exec_I_def Let_def agree_intro)

lemma exec_F_agrees: "agrees (exec_F b fpu f p) (exec_F (release b) fpu f p)"
  by (cases f) (simp_all add: exec_F_def exec_G_def agree_intro)

lemma execute_agrees [agree_intro]: "agrees (execute b fpu it ot x) (execute (release b) fpu it ot x)"
proof (cases "ex_instr x")
  case (Instr_Misc m)
  then show ?thesis by (cases m) (simp add: execute_def agree_intro)
qed (simp_all add: execute_def exec_P_def exec_F_agrees agree_intro agrees_lift [OF alu_R_agrees]
      agrees_lift [OF exec_I_agrees])

lemma cycle_memory_agrees [agree_intro]: "agrees (cycle_memory b eo) (cycle_memory (release b) eo)"
  by (cases "eo_ma_in eo") (auto simp: cycle_memory_def Let_def intro!: agree_intro)

lemma retire_agrees [agree_intro]: "agrees (cycle_retire b i eo res) (cycle_retire (release b) i eo res)"
  unfolding cycle_retire_def by (intro agree_intro) 

lemma instr_fetch_agrees [agree_intro]: "agrees (instr_fetch b) (instr_fetch (release b))"
  unfolding instr_fetch_def pc_incr_def by (intro agree_intro)

lemma cycle_agrees: "agrees (cycle_one_full b fpu it ot tr) (cycle_one_full (release b) fpu it ot tr)"
  unfolding cycle_one_full_def instr_decode_def encounter_instr_def Let_def decode_release id_release
  by (intro agree_intro)

text \<open>
  C18. Debug and release builds agree: from any state at all, one cycle of a debug build either
  panics on an arithmetic overflow check or does exactly what the release build does, result,
  error and final state alike.
\<close>
theorem debug_release_agree:
  "fst (cycle_one_full b fpu it ot tr s) = Panic ArithmeticOverflow
   \<or> cycle_one_full b fpu it ot tr s = cycle_one_full (release b) fpu it ot tr s"
  using cycle_agrees [of b fpu it ot tr] by (simp add: agrees_def)

lemma wf_release [simp]: "cpu_wf (release b) s = cpu_wf b s" "fetch_safe (release b) s = fetch_safe b s"
  by (simp_all add: cpu_wf_def reg_file_wf_def stat_wf_def fetch_safe_def safe_word_def)

lemma any_build_cycle_inv:
  assumes "total_devices it ot" "cpu_wf b s" "fetch_safe b s"
  shows "case cycle_one_full b fpu it ot tr s of
      (Ok res, s') \<Rightarrow> cpu_wf b s' \<and> cycle_post res
    | (Err e, s') \<Rightarrow> cpu_wf b s'
    | (Panic p, s') \<Rightarrow> debug_assertions b \<and> p = ArithmeticOverflow"
proof (cases "debug_assertions b")
  case True
  have rel: "case cycle_one_full (release b) fpu it ot tr s of
      (Ok res, s') \<Rightarrow> cpu_wf b s' \<and> cycle_post res | (Err e, s') \<Rightarrow> cpu_wf b s' | (Panic p, s') \<Rightarrow> False"
    using total_devices.cycle_inv [OF assms(1), of "release b" fpu tr, THEN hoareD, of s] assms(2,3)
    by (auto split: prod.splits outcome.splits)
  show ?thesis
    using agreesD [OF cycle_agrees, of b fpu it ot tr s] rel True
    by (auto split: prod.splits outcome.splits)
next
  case False
  then show ?thesis
    using total_devices.cycle_inv [OF assms(1) False, of fpu tr, THEN hoareD, of s] assms(2,3)
    by (auto split: prod.splits outcome.splits)
qed

end
