(* ===== verification/Encode_Instr.thy ===== *)
theory Encode_Instr
  imports Decode_Instr
begin

text \<open>
  A reference assembler for the first instruction set, written from the field layout of the
  formats and not from the decoder, and the round trip: decoding the encoding of an encodable
  instruction gives that instruction back.
\<close>

section \<open>Immediates, bit by bit\<close>

lemma bit_i_imm:
  "bit (i_imm (d_sign w) (d_imm w)) n \<longleftrightarrow> n < 32 \<and> bit w (if n < 12 then n + 20 else 31)"
  by (auto simp: i_imm_def d_sign_def d_imm_def bit_sign_extend bit_extract ac_simps
      dest: bit_imp_le_length)

lemma bit_s_imm:
  "bit (s_imm w (d_sign w)) n \<longleftrightarrow>
     n < 32 \<and> bit w (if n < 5 then n + 7 else if n < 12 then n + 20 else 31)"
proof -
  have "n < 5 \<or> (5 \<le> n \<and> n < 12) \<or> 12 \<le> n" by auto
  then show ?thesis
    by (auto simp: s_imm_def d_sign_def bit_sign_extend bit_extract bit_simps ac_simps
        dest: bit_imp_le_length)
qed

lemma bit_b_imm:
  "bit (b_imm w (d_sign w)) n \<longleftrightarrow>
     n < 32 \<and> n \<noteq> 0 \<and>
     bit w (if n < 5 then n + 7 else if n < 11 then n + 20 else if n = 11 then 7 else 31)"
proof -
  consider "n = 0" | "1 \<le> n" "n < 5" | "5 \<le> n" "n < 11" | "n = 11" | "12 \<le> n" by linarith
  then show ?thesis
    by cases
      (auto simp: b_imm_def d_sign_def at_bit_eq bit_sign_extend bit_extract bit_simps ac_simps
        dest: bit_imp_le_length)
qed

lemma bit_j_imm:
  "bit (j_imm w (d_sign w)) n \<longleftrightarrow>
     n < 32 \<and> n \<noteq> 0 \<and>
     bit w (if n < 11 then n + 20 else if n = 11 then 20 else if n < 20 then n else 31)"
proof -
  consider "n = 0" | "1 \<le> n" "n < 11" | "n = 11" | "12 \<le> n" "n < 20" | "20 \<le> n" by linarith
  then show ?thesis
    by cases
      (auto simp: j_imm_def d_sign_def at_bit_eq bit_sign_extend bit_extract bit_simps ac_simps
        dest: bit_imp_le_length)
qed

section \<open>The assembler\<close>

definition asm :: "u32 \<Rightarrow> u32 \<Rightarrow> u32 \<Rightarrow> u32 \<Rightarrow> u32 \<Rightarrow> u32 \<Rightarrow> u32" where
  "asm f7 rs2 rs1 f3 rd op =
     push_bit 25 f7 OR push_bit 20 rs2 OR push_bit 15 rs1 OR push_bit 12 f3 OR push_bit 7 rd OR op"

definition fits :: "nat \<Rightarrow> u32 \<Rightarrow> bool" where
  "fits k x \<longleftrightarrow> take_bit k x = x"

lemma fits_bit: "fits k x \<Longrightarrow> bit x n \<Longrightarrow> n < k"
  by (metis bit_take_bit_iff fits_def)

lemma fitsI: "(\<And>n. bit x n \<Longrightarrow> n < k) \<Longrightarrow> fits k x"
  unfolding fits_def by (rule bit_word_eqI) (auto simp: bit_take_bit_iff)

lemma fits_bit_le: "fits (Suc k) x \<Longrightarrow> bit x n \<Longrightarrow> n \<le> k"
  by (drule (1) fits_bit) simp

lemma bit_asm:
  assumes "fits 7 f7" "fits 5 rs2" "fits 5 rs1" "fits 3 f3" "fits 5 rd" "fits 7 op"
  shows "bit (asm f7 rs2 rs1 f3 rd op) n \<longleftrightarrow>
    (if n < 7 then bit op n else if n < 12 then bit rd (n - 7) else if n < 15 then bit f3 (n - 12)
     else if n < 20 then bit rs1 (n - 15) else if n < 25 then bit rs2 (n - 20) else bit f7 (n - 25))"
proof -
  have out: "\<not> bit f7 (n - 25)" if "32 \<le> n" using fits_bit [OF assms(1), of "n - 25"] that by auto
  show ?thesis
    using assms(1) [THEN fits_bit, of "n - 25"]
      assms(2) [THEN fits_bit, of "n - 20"] assms(3) [THEN fits_bit, of "n - 15"]
      assms(4) [THEN fits_bit, of "n - 12"] assms(5) [THEN fits_bit, of "n - 7"]
      assms(6) [THEN fits_bit, of n] out
    by (auto simp: asm_def bit_simps)
qed

lemma d_fields_asm [simp]:
  assumes "fits 7 f7" "fits 5 rs2" "fits 5 rs1" "fits 3 f3" "fits 5 rd" "fits 7 op"
  shows "d_opcode (asm f7 rs2 rs1 f3 rd op) = op" "d_rd (asm f7 rs2 rs1 f3 rd op) = rd"
    "d_funct3 (asm f7 rs2 rs1 f3 rd op) = f3" "d_rs1 (asm f7 rs2 rs1 f3 rd op) = rs1"
    "d_rs2 (asm f7 rs2 rs1 f3 rd op) = rs2" "d_funct7 (asm f7 rs2 rs1 f3 rd op) = f7"
  using assms
  by (auto intro!: bit_word_eqI dest: fits_bit fits_bit_le [of 6, simplified]
      simp: d_opcode_def d_rd_def d_funct3_def d_rs1_def d_rs2_def d_funct7_def mask_lower_eq
        bit_extract bit_take_bit_iff bit_asm)

lemma asm_nonzero:
  assumes "fits 7 f7" "fits 5 rs2" "fits 5 rs1" "fits 3 f3" "fits 5 rd" "fits 7 op" "op \<noteq> 0"
  shows "asm f7 rs2 rs1 f3 rd op \<noteq> 0"
proof
  assume "asm f7 rs2 rs1 f3 rd op = 0"
  then have "d_opcode (asm f7 rs2 rs1 f3 rd op) = 0" by (simp add: d_opcode_def mask_lower_def)
  with assms show False by simp
qed

fun reg_word :: "regid \<Rightarrow> u32" where
  "reg_word (RegId n) = ucast n"

fun freg_word :: "fregid \<Rightarrow> u32" where
  "freg_word (FRegId n) = ucast n"

definition imm_lo5 :: "u32 \<Rightarrow> u32" where "imm_lo5 imm = take_bit 5 imm"
definition imm_hi7 :: "u32 \<Rightarrow> u32" where "imm_hi7 imm = take_bit 7 (drop_bit 5 imm)"

definition b_lo5 :: "u32 \<Rightarrow> u32" where
  "b_lo5 imm = (if bit imm 11 then set_bit 0 (take_bit 5 imm) else unset_bit 0 (take_bit 5 imm))"

definition b_hi7 :: "u32 \<Rightarrow> u32" where
  "b_hi7 imm = (let m = take_bit 6 (drop_bit 5 imm) in if bit imm 12 then set_bit 6 m else m)"

definition j_hi7 :: "u32 \<Rightarrow> u32" where
  "j_hi7 imm = (let m = take_bit 6 (drop_bit 5 imm) in if bit imm 20 then set_bit 6 m else m)"

lemma bit_imm_parts:
  "bit (imm_lo5 imm) n \<longleftrightarrow> n < 5 \<and> bit imm n"
  "bit (imm_hi7 imm) n \<longleftrightarrow> n < 7 \<and> bit imm (n + 5)"
  "bit (b_lo5 imm) n \<longleftrightarrow> (if n = 0 then bit imm 11 else n < 5 \<and> bit imm n)"
  "bit (b_hi7 imm) n \<longleftrightarrow> (if n = 6 then bit imm 12 else n < 6 \<and> bit imm (n + 5))"
  "bit (j_hi7 imm) n \<longleftrightarrow> (if n = 6 then bit imm 20 else n < 6 \<and> bit imm (n + 5))"
  by (auto simp: imm_lo5_def imm_hi7_def b_lo5_def b_hi7_def j_hi7_def Let_def bit_simps ac_simps
      dest: bit_imp_le_length)

fun r_functs :: "rinstr \<Rightarrow> u32 \<times> u32" where
  "r_functs RAdd = (0, 0)" | "r_functs RSub = (0, 0x20)" | "r_functs RXor = (4, 0)"
| "r_functs ROr = (6, 0)" | "r_functs RAnd = (7, 0)" | "r_functs RSll = (1, 0)"
| "r_functs RSra = (5, 0x20)" | "r_functs RSlt = (2, 0)" | "r_functs _ = (0, 0)"

fun i_code :: "iinstr \<Rightarrow> u32 \<times> u32" where
  "i_code Addi = (0, 0b0010011)" | "i_code Xori = (4, 0b0010011)" | "i_code Ori = (6, 0b0010011)"
| "i_code Andi = (7, 0b0010011)" | "i_code Slli = (1, 0b0010011)" | "i_code Lw = (2, 0b0000011)"
| "i_code Jalr = (0, 0b1100111)" | "i_code Slti = (2, 0b0010011)"

fun b_funct3 :: "binstr \<Rightarrow> u32" where
  "b_funct3 Beq = 0" | "b_funct3 Bne = 1" | "b_funct3 Blt = 4" | "b_funct3 Bge = 5"
| "b_funct3 _ = 0"

fun e_funct7 :: "einstr \<Rightarrow> u32" where
  "e_funct7 Fadd = 0b0000" | "e_funct7 Fsub = 0b0100" | "e_funct7 Fmul = 0b1000"
| "e_funct7 Fdiv = 0b1100" | "e_funct7 Fsgnj = 0b11000" | "e_funct7 Fsgnjn = 0b11100"
| "e_funct7 Fsgnjx = 0b100000"

fun h_funct7 :: "hinstr \<Rightarrow> u32" where
  "h_funct7 Fsqrt = 0b10000" | "h_funct7 Fhalf = 0b10100" | "h_funct7 Ffloor = 0b1000000"
| "h_funct7 _ = 0"

fun y_functs :: "yinstr \<Rightarrow> u32 \<times> u32" where
  "y_functs Fftoi = (0, 0b1000101)" | "y_functs Fiszero = (0b100, 0b1010001)"
| "y_functs Fispos = (0b101, 0b1010001)" | "y_functs Fisneg = (0b110, 0b1010001)"

fun encode_F :: "(regid, regid, fregid, fregid) finstr \<Rightarrow> u32" where
  "encode_F (FInstr_E i rd rs1 rs2) =
     asm (e_funct7 i) (freg_word rs2) (freg_word rs1) 0 (freg_word rd) 0b1010011"
| "encode_F (FInstr_G i rd rs1 rs2 rs3) = 0"
| "encode_F (FInstr_H i rd rs1) = asm (h_funct7 i) 0 (freg_word rs1) 0 (freg_word rd) 0b1010011"
| "encode_F (FInstr_K i rd rs1 rs2) =
     asm 0b1010001 (freg_word rs2) (freg_word rs1) 1 (reg_word rd) 0b1010011"
| "encode_F (FInstr_X i rd rs1) = asm 0b0100110 0 (reg_word rs1) 0 (freg_word rd) 0b1010011"
| "encode_F (FInstr_Y i rd rs1) =
     asm (snd (y_functs i)) 0 (freg_word rs1) (fst (y_functs i)) (reg_word rd) 0b1010011"
| "encode_F (FInstr_W i rs1 rs2 imm) =
     asm (b_hi7 imm) (freg_word rs2) (freg_word rs1) (case i of Fblt \<Rightarrow> 1 | Fbge \<Rightarrow> 2) (b_lo5 imm)
       0b1010111"
| "encode_F (FInstr_V i rs1 imm) =
     asm (b_hi7 imm) 0 (freg_word rs1) (case i of Fbeqz \<Rightarrow> 4 | Fbnez \<Rightarrow> 7) (b_lo5 imm) 0b1010111"
| "encode_F (Flw rd rs1 imm) =
     asm (imm_hi7 imm) (imm_lo5 imm) (reg_word rs1) 0 (freg_word rd) 0b0000111"
| "encode_F (Fsw rs2 rs1 imm) =
     asm (imm_hi7 imm) (freg_word rs2) (reg_word rs1) 0 (imm_lo5 imm) 0b0100111"

fun encode :: "decoded_instr \<Rightarrow> u32" where
  "encode (Instr_R i rd rs1 rs2) =
     asm (snd (r_functs i)) (reg_word rs2) (reg_word rs1) (fst (r_functs i)) (reg_word rd) 0b0110011"
| "encode (Instr_I i rd rs1 imm) =
     asm (imm_hi7 imm) (imm_lo5 imm) (reg_word rs1) (fst (i_code i)) (reg_word rd) (snd (i_code i))"
| "encode (Instr_S i rs1 rs2 imm) =
     asm (imm_hi7 imm) (reg_word rs2) (reg_word rs1) 2 (imm_lo5 imm) 0b0100011"
| "encode (Instr_B i rs1 rs2 imm) =
     asm (b_hi7 imm) (reg_word rs2) (reg_word rs1) (b_funct3 i) (b_lo5 imm) 0b1100011"
| "encode (Instr_P i rs1 imm imm2) = 0"
| "encode (Instr_J i rd imm) =
     asm (j_hi7 imm) (b_lo5 imm) (take_bit 5 (drop_bit 15 imm)) (take_bit 3 (drop_bit 12 imm))
       (reg_word rd) 0b1101111"
| "encode (Instr_IO (Outb rs)) = asm 0 0 (reg_word rs) 0 0 0b0101011"
| "encode (Instr_IO (Inw rd)) = asm 0 0 0 0 (reg_word rd) 0b0001011"
| "encode (Instr_IO (Finw rd)) = asm 0 0 0 0 (freg_word rd) 0b0001111"
| "encode (Instr_F f) = encode_F f"
| "encode (Instr_Misc End) = 0"

text \<open>
  The instructions the format can hold: operands are registers, the variant exists in the build
  and has an encoding, immediates fit their field (12 bits, or an even number of 13 or 21 bits,
  or a shift amount below 32).
\<close>

definition imm_ok :: "nat \<Rightarrow> u32 \<Rightarrow> bool" where
  "imm_ok k imm \<longleftrightarrow> signed_take_bit (k - 1) imm = imm"

definition branch_imm_ok :: "nat \<Rightarrow> u32 \<Rightarrow> bool" where
  "branch_imm_ok k imm \<longleftrightarrow> imm_ok k imm \<and> \<not> bit imm 0"

fun imms_ok_F :: "(regid, regid, fregid, fregid) finstr \<Rightarrow> bool" where
  "imms_ok_F (FInstr_W _ _ _ imm) = branch_imm_ok 13 imm"
| "imms_ok_F (FInstr_V _ _ imm) = branch_imm_ok 13 imm"
| "imms_ok_F (Flw _ _ imm) = imm_ok 12 imm"
| "imms_ok_F (Fsw _ _ imm) = imm_ok 12 imm"
| "imms_ok_F _ = True"

fun imms_ok :: "decoded_instr \<Rightarrow> bool" where
  "imms_ok (Instr_I i _ _ imm) =
     (if i = Slli then imm < 32 else i \<noteq> Slti \<and> imm_ok 12 imm)"
| "imms_ok (Instr_S _ _ _ imm) = imm_ok 12 imm"
| "imms_ok (Instr_B _ _ _ imm) = branch_imm_ok 13 imm"
| "imms_ok (Instr_J _ _ imm) = branch_imm_ok 21 imm"
| "imms_ok (Instr_F f) = imms_ok_F f"
| "imms_ok _ = True"

definition encodable :: "build \<Rightarrow> decoded_instr \<Rightarrow> bool" where
  "encodable b i \<longleftrightarrow> \<not> isa_2nd b \<and> instr_in_build b i \<and> operands_ok b i \<and> imms_ok i"

section \<open>Round trip\<close>

lemma unat_ucast_u32: "unat (ucast n :: u32) = unat n" for n :: u8
proof -
  have "unat n < 2 ^ 32" using unsigned_less [of n, where ?'a = nat] by simp
  then show ?thesis by (simp add: unsigned_ucast_eq take_bit_nat_eq_self)
qed

lemma fits_5_iff: "fits 5 (ucast n) \<longleftrightarrow> unat n < 32" for n :: u8
  unfolding fits_def word_unat_eq_iff
  by (simp add: unsigned_take_bit_eq unat_ucast_u32 take_bit_nat_eq_self_iff)

lemma reg_ok_fits:
  assumes "\<not> isa_2nd b"
  shows "reg_ok b r \<longleftrightarrow> fits 5 (reg_word r)" "freg_ok b f \<longleftrightarrow> fits 5 (freg_word f)"
  using assms
  by (cases r, simp add: reg_ok_def max_reg_id_def reg_bit_width_def fits_5_iff)
    (cases f, use assms in \<open>simp add: freg_ok_def max_reg_id_def reg_bit_width_def fits_5_iff\<close>)

lemma ucast_reg_word [simp]: "RegId (ucast (reg_word r)) = r" "FRegId (ucast (freg_word f)) = f"
proof -
  have id: "ucast (ucast n :: u32) = (n :: u8)" for n
    by (rule bit_word_eqI) (simp add: bit_simps)
  show "RegId (ucast (reg_word r)) = r" by (cases r) (simp add: id)
  show "FRegId (ucast (freg_word f)) = f" by (cases f) (simp add: id)
qed

lemma fits_imm [simp]:
  "fits 5 (imm_lo5 imm)" "fits 7 (imm_hi7 imm)" "fits 5 (b_lo5 imm)" "fits 7 (b_hi7 imm)"
  "fits 7 (j_hi7 imm)" "fits 5 (take_bit 5 w)" "fits 3 (take_bit 3 w)"
  by (auto intro!: fitsI simp: bit_imm_parts bit_simps split: if_splits)

lemma fits_numeral [simp]:
  "fits k 0" "fits 3 1" "fits 3 2" "fits 3 4" "fits 3 5" "fits 3 6" "fits 3 7"
  by (simp_all add: fits_def)

lemma fits_functs [simp]:
  "fits 3 (fst (r_functs r))" "fits 7 (snd (r_functs r))" "fits 3 (fst (i_code i))"
  "fits 7 (snd (i_code i))" "fits 3 (b_funct3 n)" "fits 7 (e_funct7 e)" "fits 7 (h_funct7 h)"
  "fits 3 (fst (y_functs y))" "fits 7 (snd (y_functs y))"
proof -
  show "fits 3 (fst (r_functs r))" "fits 7 (snd (r_functs r))" by (cases r; simp add: fits_def)+
  show "fits 3 (fst (i_code i))" "fits 7 (snd (i_code i))" by (cases i; simp add: fits_def)+
  show "fits 3 (b_funct3 n)" by (cases n) (simp_all add: fits_def)
  show "fits 7 (e_funct7 e)" by (cases e) (simp_all add: fits_def)
  show "fits 7 (h_funct7 h)" by (cases h) (simp_all add: fits_def)
  show "fits 3 (fst (y_functs y))" "fits 7 (snd (y_functs y))" by (cases y; simp add: fits_def)+
qed

lemma imm_ok_high:
  assumes "imm_ok k imm" "n < 32" "k \<le> n"
  shows "bit imm n = bit imm (k - 1)"
proof -
  have "bit imm n = bit (signed_take_bit (k - 1) imm) n" using assms(1) by (simp add: imm_ok_def)
  also have "\<dots> = bit imm (min (k - 1) n)" using assms(2) by (simp add: bit_simps)
  finally show ?thesis using assms(3) by (simp add: min_def split: if_splits)
qed

lemma i_imm_asm:
  assumes "imm_ok 12 imm" "fits 5 rs1" "fits 3 f3" "fits 5 rd" "fits 7 op"
  shows "i_imm (d_sign (asm (imm_hi7 imm) (imm_lo5 imm) rs1 f3 rd op))
           (d_imm (asm (imm_hi7 imm) (imm_lo5 imm) rs1 f3 rd op)) = imm"
proof (rule bit_word_eqI)
  fix n assume n: "n < LENGTH(32)"
  have hi: "12 \<le> n \<Longrightarrow> bit imm n = bit imm 11" using imm_ok_high [OF assms(1), of n] n by simp
  consider "n < 5" | "5 \<le> n" "n < 12" | "12 \<le> n" by linarith
  then show "bit (i_imm (d_sign (asm (imm_hi7 imm) (imm_lo5 imm) rs1 f3 rd op))
           (d_imm (asm (imm_hi7 imm) (imm_lo5 imm) rs1 f3 rd op))) n = bit imm n"
    using assms(2-) n hi by cases (simp_all add: bit_i_imm bit_asm bit_imm_parts less_diff_conv2)
qed

lemma s_imm_asm:
  assumes "imm_ok 12 imm" "fits 5 rs2" "fits 5 rs1" "fits 3 f3" "fits 7 op"
  shows "s_imm (asm (imm_hi7 imm) rs2 rs1 f3 (imm_lo5 imm) op)
           (d_sign (asm (imm_hi7 imm) rs2 rs1 f3 (imm_lo5 imm) op)) = imm"
proof (rule bit_word_eqI)
  fix n assume n: "n < LENGTH(32)"
  have hi: "12 \<le> n \<Longrightarrow> bit imm n = bit imm 11" using imm_ok_high [OF assms(1), of n] n by simp
  consider "n < 5" | "5 \<le> n" "n < 12" | "12 \<le> n" by linarith
  then show "bit (s_imm (asm (imm_hi7 imm) rs2 rs1 f3 (imm_lo5 imm) op)
           (d_sign (asm (imm_hi7 imm) rs2 rs1 f3 (imm_lo5 imm) op))) n = bit imm n"
    using assms(2-) n hi by cases (simp_all add: bit_s_imm bit_asm bit_imm_parts less_diff_conv2)
qed

lemma b_imm_asm:
  assumes "branch_imm_ok 13 imm" "fits 5 rs2" "fits 5 rs1" "fits 3 f3" "fits 7 op"
  shows "b_imm (asm (b_hi7 imm) rs2 rs1 f3 (b_lo5 imm) op)
           (d_sign (asm (b_hi7 imm) rs2 rs1 f3 (b_lo5 imm) op)) = imm"
proof (rule bit_word_eqI)
  fix n assume n: "n < LENGTH(32)"
  have *: "imm_ok 13 imm" "\<not> bit imm 0" using assms(1) by (simp_all add: branch_imm_ok_def)
  have hi: "13 \<le> n \<Longrightarrow> bit imm n = bit imm 12" using imm_ok_high [OF *(1), of n] n by simp
  consider "n = 0" | "1 \<le> n" "n < 5" | "5 \<le> n" "n < 11" | "n = 11" | "n = 12" | "13 \<le> n"
    by linarith
  then show "bit (b_imm (asm (b_hi7 imm) rs2 rs1 f3 (b_lo5 imm) op)
           (d_sign (asm (b_hi7 imm) rs2 rs1 f3 (b_lo5 imm) op))) n = bit imm n"
    using assms(2-) n *(2) hi
    by cases (auto simp: bit_b_imm bit_asm bit_imm_parts less_diff_conv2)
qed

lemma j_imm_asm:
  fixes imm defines "w rd \<equiv> asm (j_hi7 imm) (b_lo5 imm) (take_bit 5 (drop_bit 15 imm))
       (take_bit 3 (drop_bit 12 imm)) rd 0b1101111"
  assumes "branch_imm_ok 21 imm" "fits 5 rd"
  shows "j_imm (w rd) (d_sign (w rd)) = imm"
proof (rule bit_word_eqI)
  fix n assume n: "n < LENGTH(32)"
  have *: "imm_ok 21 imm" "\<not> bit imm 0" using assms(2) by (simp_all add: branch_imm_ok_def)
  have hi: "21 \<le> n \<Longrightarrow> bit imm n = bit imm 20" using imm_ok_high [OF *(1), of n] n by simp
  have op: "fits 7 (0b1101111 :: u32)" by (simp add: fits_def)
  consider "n = 0" | "1 \<le> n" "n < 5" | "5 \<le> n" "n < 11" | "n = 11" | "12 \<le> n" "n < 15"
    | "15 \<le> n" "n < 20" | "n = 20" | "21 \<le> n" by linarith
  then show "bit (j_imm (w rd) (d_sign (w rd))) n = bit imm n"
    using assms(3) op *(2) n hi unfolding w_def
    by cases (auto simp: bit_j_imm bit_asm bit_imm_parts bit_take_bit_iff bit_drop_bit_eq
        less_diff_conv2)
qed

lemma shift_amount_bits:
  fixes imm :: u32
  assumes "imm < 32" "bit imm n"
  shows "n < 5"
proof -
  have "take_bit 5 imm = imm"
    using assms(1) unfolding word_unat_eq_iff word_less_nat_alt
    by (simp add: unsigned_take_bit_eq take_bit_nat_eq_self)
  then show ?thesis using assms(2) by (metis bit_take_bit_iff)
qed

lemma imm_hi7_shift: "imm < 32 \<Longrightarrow> imm_hi7 imm = 0"
  by (rule bit_word_eqI) (auto simp: bit_imm_parts dest: shift_amount_bits)

lemma slli_imm_asm:
  assumes "imm < 32" "fits 5 rs1" "fits 3 f3" "fits 5 rd" "fits 7 op"
  shows "i_imm (d_sign (asm 0 (imm_lo5 imm) rs1 f3 rd op))
           (mask_bin (d_imm (asm 0 (imm_lo5 imm) rs1 f3 rd op)) 0 4) = imm"
  using assms(2-)
  by (intro bit_word_eqI)
    (auto simp: i_imm_def bit_sign_extend d_sign_def bit_mask_bin d_imm_def bit_extract bit_asm
      bit_imm_parts dest: shift_amount_bits [OF assms(1)])

lemma regid_try_from_word [simp]:
  "fits 5 (reg_word r) \<Longrightarrow> regid_try_from b (reg_word r) = Ok r"
  "fits 5 (freg_word f) \<Longrightarrow> fregid_try_from b (freg_word f) = Ok f"
proof -
  have "fits 5 (reg_word r) \<Longrightarrow> unat (reg_word r) < max_reg_id b"
    using max_reg_id_ge [of b] by (cases r) (simp add: fits_5_iff unat_ucast_u32)
  then show "fits 5 (reg_word r) \<Longrightarrow> regid_try_from b (reg_word r) = Ok r" by simp
  have "fits 5 (freg_word f) \<Longrightarrow> unat (freg_word f) < max_reg_id b"
    using max_reg_id_ge [of b] by (cases f) (simp add: fits_5_iff unat_ucast_u32)
  then show "fits 5 (freg_word f) \<Longrightarrow> fregid_try_from b (freg_word f) = Ok f" by simp
qed

lemma fits_ops [simp]:
  "fits 7 51" "fits 7 19" "fits 7 3" "fits 7 103" "fits 7 35" "fits 7 99" "fits 7 111" "fits 7 11"
  "fits 7 43" "fits 7 15" "fits 7 83" "fits 7 87" "fits 7 7" "fits 7 39" "fits 7 81" "fits 7 38"
  "fits 7 4" "fits 7 8" "fits 7 12" "fits 7 24" "fits 7 28" "fits 7 32" "fits 7 16" "fits 7 20"
  "fits 7 64" "fits 7 69"
  by (simp_all add: fits_def)

lemma decode_dispatch:
  assumes "bin \<noteq> 0"
  shows "d_opcode bin = 51 \<Longrightarrow> decode_from_1st b bin = decode_R b bin"
    "d_opcode bin = 19 \<Longrightarrow> decode_from_1st b bin = decode_I b bin"
    "d_opcode bin = 3 \<Longrightarrow> decode_from_1st b bin = decode_load b bin"
    "d_opcode bin = 103 \<Longrightarrow> decode_from_1st b bin = decode_jalr b bin"
    "d_opcode bin = 35 \<Longrightarrow> decode_from_1st b bin = decode_S b bin"
    "d_opcode bin = 99 \<Longrightarrow> decode_from_1st b bin = decode_B b bin"
    "d_opcode bin = 111 \<Longrightarrow> decode_from_1st b bin = decode_jal b bin"
    "d_opcode bin = 11 \<Longrightarrow> decode_from_1st b bin = decode_inw b bin"
    "d_opcode bin = 43 \<Longrightarrow> decode_from_1st b bin = decode_outb b bin"
    "d_opcode bin = 15 \<Longrightarrow> decode_from_1st b bin = decode_finw b bin"
    "d_opcode bin = 83 \<Longrightarrow> decode_from_1st b bin = decode_F b bin"
    "d_opcode bin = 87 \<Longrightarrow> decode_from_1st b bin = decode_VW b bin"
    "d_opcode bin = 7 \<Longrightarrow> decode_from_1st b bin = decode_flw b bin"
    "d_opcode bin = 39 \<Longrightarrow> decode_from_1st b bin = decode_fsw b bin"
  using assms by (simp_all add: decode_from_1st_def)

lemma encodableD:
  assumes "encodable b i"
  shows "\<not> isa_2nd b" "instr_in_build b i" "operands_ok b i" "imms_ok i"
  using assms by (simp_all add: encodable_def)

lemma decode_encode_F:
  assumes "encodable b (Instr_F f)"
  shows "decode_from_1st b (encode_F f) = Ok (Instr_F f)"
proof (cases f)
  case (FInstr_E i rd rs1 rs2)
  then show ?thesis using encodableD [OF assms]
    by (cases i) (simp_all add: operands_ok_def reg_ok_fits [OF encodableD(1) [OF assms]]
        decode_dispatch asm_nonzero decode_F_def
        decode_F_E_def)
next
  case (FInstr_G i rd rs1 rs2 rs3)
  then show ?thesis using encodableD [OF assms] by (simp add: ginstr_variants_def)
next
  case (FInstr_H i rd rs1)
  then show ?thesis using encodableD [OF assms]
    by (cases i) (simp_all add: operands_ok_def reg_ok_fits [OF encodableD(1) [OF assms]]
        decode_dispatch asm_nonzero decode_F_def
        decode_F_H_def hinstr_variants_def)
next
  case (FInstr_K i rd rs1 rs2)
  then show ?thesis using encodableD [OF assms]
    by (cases i) (simp add: operands_ok_def reg_ok_fits [OF encodableD(1) [OF assms]]
        decode_dispatch asm_nonzero decode_F_def
        decode_F_funct3_def)
next
  case (FInstr_X i rd rs1)
  then show ?thesis using encodableD [OF assms]
    by (cases i) (simp add: operands_ok_def reg_ok_fits [OF encodableD(1) [OF assms]]
        decode_dispatch asm_nonzero decode_F_def)
next
  case (FInstr_Y i rd rs1)
  then show ?thesis using encodableD [OF assms]
    by (cases i) (simp_all add: operands_ok_def reg_ok_fits [OF encodableD(1) [OF assms]]
        decode_dispatch asm_nonzero decode_F_def
        decode_F_funct3_def)
next
  case (FInstr_W i rs1 rs2 imm)
  then show ?thesis using encodableD [OF assms]
    by (cases i) (simp_all add: operands_ok_def reg_ok_fits [OF encodableD(1) [OF assms]]
        decode_dispatch asm_nonzero decode_VW_def
        b_imm_asm)
next
  case (FInstr_V i rs1 imm)
  then show ?thesis using encodableD [OF assms]
    by (cases i) (simp_all add: operands_ok_def reg_ok_fits [OF encodableD(1) [OF assms]]
        decode_dispatch asm_nonzero decode_VW_def
        b_imm_asm)
next
  case (Flw rd rs1 imm)
  then show ?thesis using encodableD [OF assms]
    by (simp add: operands_ok_def reg_ok_fits [OF encodableD(1) [OF assms]]
        decode_dispatch asm_nonzero decode_flw_def i_imm_asm)
next
  case (Fsw rs2 rs1 imm)
  then show ?thesis using encodableD [OF assms]
    by (simp add: operands_ok_def reg_ok_fits [OF encodableD(1) [OF assms]]
        decode_dispatch asm_nonzero decode_fsw_def s_imm_asm)
qed

lemma decode_encode_I:
  assumes "encodable b (Instr_I i rd rs1 imm)"
  shows "decode_from_1st b (encode (Instr_I i rd rs1 imm)) = Ok (Instr_I i rd rs1 imm)"
proof (cases "i = Slli")
  case True
  then show ?thesis using encodableD [OF assms]
    by (simp add: operands_ok_def reg_ok_fits [OF encodableD(1) [OF assms]]
        decode_dispatch asm_nonzero decode_I_def
        imm_hi7_shift slli_imm_asm)
next
  case False
  then show ?thesis using encodableD [OF assms]
    by (cases i) (simp_all add: operands_ok_def reg_ok_fits [OF encodableD(1) [OF assms]]
        decode_dispatch asm_nonzero decode_I_def
        decode_load_def decode_jalr_def i_imm_asm)
qed

lemma decode_encode:
  assumes "encodable b i"
  shows "decode_from_1st b (encode i) = Ok i"
proof (cases i)
  case (Instr_R r rd rs1 rs2)
  then show ?thesis using encodableD [OF assms]
    by (cases r) (simp_all add: operands_ok_def reg_ok_fits [OF encodableD(1) [OF assms]]
        decode_dispatch asm_nonzero decode_R_def
        rinstr_variants_def)
next
  case (Instr_I r rd rs1 imm)
  then show ?thesis using assms decode_encode_I by simp
next
  case (Instr_S r rs1 rs2 imm)
  then show ?thesis using encodableD [OF assms]
    by (cases r) (simp add: operands_ok_def reg_ok_fits [OF encodableD(1) [OF assms]]
        decode_dispatch asm_nonzero decode_S_def
        s_imm_asm)
next
  case (Instr_B r rs1 rs2 imm)
  then show ?thesis using encodableD [OF assms]
    by (cases r) (simp_all add: operands_ok_def reg_ok_fits [OF encodableD(1) [OF assms]]
        decode_dispatch asm_nonzero decode_B_def
        b_imm_asm binstr_variants_def)
next
  case (Instr_P r rs1 imm imm2)
  then show ?thesis using encodableD [OF assms] by (simp add: pinstr_variants_def)
next
  case (Instr_J r rd imm)
  then show ?thesis using encodableD [OF assms]
    by (cases r) (simp add: operands_ok_def reg_ok_fits [OF encodableD(1) [OF assms]]
        decode_dispatch asm_nonzero decode_jal_def
        j_imm_asm)
next
  case (Instr_IO io)
  then show ?thesis using encodableD [OF assms]
    by (cases io) (simp_all add: operands_ok_def reg_ok_fits [OF encodableD(1) [OF assms]]
        decode_dispatch asm_nonzero
        decode_inw_def decode_outb_def decode_finw_def)
next
  case (Instr_F f)
  then show ?thesis using assms decode_encode_F by simp
next
  case (Instr_Misc m)
  then show ?thesis by (cases m) (simp add: decode_from_1st_def)
qed

section \<open>What the decoder can produce\<close>

lemma imm_okI:
  assumes "0 < k" and "\<And>n. n < 32 \<Longrightarrow> k \<le> n \<Longrightarrow> bit imm n = bit imm (k - 1)"
  shows "imm_ok k imm"
  unfolding imm_ok_def
proof (rule bit_word_eqI)
  fix n assume "n < LENGTH(32)"
  then show "bit (signed_take_bit (k - 1) imm) n = bit imm n"
    using assms(2) [of n] assms(1)
    by (cases "k \<le> n") (simp_all add: bit_simps min_absorb1 min_absorb2)
qed

lemma imm_ok_fields [simp]:
  "imm_ok 12 (i_imm (d_sign w) (d_imm w))" "imm_ok 12 (s_imm w (d_sign w))"
  "branch_imm_ok 13 (b_imm w (d_sign w))" "branch_imm_ok 21 (j_imm w (d_sign w))"
  by (auto intro!: imm_okI simp: branch_imm_ok_def bit_i_imm bit_s_imm bit_b_imm bit_j_imm)

lemma slli_imm_small [simp]:
  assumes "d_funct7 w = 0"
  shows "i_imm (d_sign w) (mask_bin (d_imm w) 0 4) < 32"
proof -
  have "\<not> bit w 31"
    using assms [THEN arg_cong [where f = "\<lambda>x. bit x 6"]] by (simp add: d_funct7_def bit_extract)
  then have "take_bit 5 (i_imm (d_sign w) (mask_bin (d_imm w) 0 4)) = i_imm (d_sign w) (mask_bin (d_imm w) 0 4)"
    by (intro bit_word_eqI)
      (auto simp: i_imm_def bit_sign_extend bit_mask_bin bit_take_bit_iff d_imm_def d_sign_def bit_extract)
  then have "unat (i_imm (d_sign w) (mask_bin (d_imm w) 0 4)) < 2 ^ 5"
    by (metis take_bit_nat_less_exp unsigned_take_bit_eq)
  then show ?thesis by (simp add: word_less_nat_alt)
qed

lemma decode_encodable_F:
  assumes "\<not> isa_2nd b" and "decode_F b w = Ok i"
  shows "imms_ok i"
  using assms
  by (auto simp: decode_F_def decode_F_E_def decode_F_H_def decode_F_funct3_def Let_def
      split: if_splits)

lemma decode_encodable:
  assumes "\<not> isa_2nd b" and "decode_from_1st b w = Ok i"
  shows "encodable b i"
proof -
  have nas: "\<not> decode_asserts w" using decode_from_1st_asserts [of w b] assms(2) by auto
  have "imms_ok i"
    using assms decode_encodable_F [OF assms(1), of w i]
    by (auto simp: decode_from_1st_def decode_R_def decode_I_def decode_load_def decode_jalr_def
        decode_S_def decode_B_def decode_jal_def decode_inw_def decode_outb_def decode_finw_def
        decode_VW_def decode_flw_def decode_fsw_def Let_def split: if_splits)
  then show ?thesis
    using decode_from_1st_well [OF assms(1) nas] assms by (simp add: encodable_def decodes_well_def)
qed

text \<open>
  C1. The decoder of the first instruction set inverts the assembler: an instruction is the
  decoding of its machine word exactly when it is encodable (its variant has an encoding in the
  build, registers are in range, immediates fit their field), and those are all the instructions
  the decoder ever produces.
\<close>
theorem decode_encode_iff:
  assumes "\<not> isa_2nd b"
  shows "(decode_from_1st b (encode i) = Ok i \<longleftrightarrow> encodable b i)
    \<and> ((\<exists>w. decode_from_1st b w = Ok i) \<longleftrightarrow> encodable b i)"
  using decode_encode decode_encodable [OF assms] by blast

theorem decode_encode_iff_witness:
  "decode_from_1st \<lparr>debug_assertions = True, isa_2nd = False\<rparr>
     (encode (Instr_B Bge (RegId 10) (RegId 11) (- 8))) = Ok (Instr_B Bge (RegId 10) (RegId 11) (- 8))
   \<and> encode (Instr_B Bge (RegId 10) (RegId 11) (- 8)) = 0xFEB55CE3
   \<and> (\<nexists>w. decode_from_1st \<lparr>debug_assertions = True, isa_2nd = False\<rparr> w
           = Ok (Instr_I Slti (RegId 1) (RegId 1) 0))"
  using decode_encode_iff
      [of "\<lparr>debug_assertions = True, isa_2nd = False\<rparr>" "Instr_B Bge (RegId 10) (RegId 11) (- 8)"]
    decode_encode_iff
      [of "\<lparr>debug_assertions = True, isa_2nd = False\<rparr>" "Instr_I Slti (RegId 1) (RegId 1) 0"]
  by (simp add: encodable_def binstr_variants_def operands_ok_def reg_ok_def max_reg_id_def
      reg_bit_width_def branch_imm_ok_def imm_ok_def asm_def b_hi7_def b_lo5_def)

end
