(* ===== verification/Cpu_Boot.thy ===== *)
theory Cpu_Boot
  imports Build_Agreement Encode_Instr
begin

text \<open>
  Loading an image: \<^verbatim>\<open>Cpu::new\<close> from a well-formed image gives a well-formed processor whose
  program counter is at the first instruction, and the words of the image are fetched from its
  code.
\<close>

section \<open>Register initialisation\<close>

lemma init_regs_ok:
  "\<exists>rf. cpu_init_regs b hp (reg_file_new b) = (Ok (), rf) \<and> reg_file_wf b rf
     \<and> reg_val rf (RegId 4) = hp \<and> reg_val rf (RegId 2) = 249999 \<and> freg_val rf (FRegId 1) = f32_one
     \<and> stat_memregion rf = \<lparr>hp_min = hp, sp_min = 249999, sp_max = 249999\<rparr>"
proof -
  have m: "4 < max_reg_id b" using max_reg_id_ge [of b] by simp
  have one: "fregid_try_from b 1 = Ok (FRegId 1)"
    using regid_try_from_field(2) [of "1 :: u32" b] m by simp
  have wf: "reg_file_wf b (reg_file_new b)" by (rule reg_file_new_wf)
  show ?thesis
    using m wf
    by (simp add: cpu_init_regs_def set_hp_def set_sp_def set_inner_def act_simps one reg_set_f_def end_init_def
        region_init_def reg_file_new_def reg_file_wf_def RAM_BYTE_SIZE_def
        encounter_simps [of b] reg_file_stat_new_def stat_wf_def)
qed

section \<open>Loading an image\<close>

text \<open>
  An image the simulator can hold: a header, a body that fits the memory, and section lengths
  whose end leaves three spare bytes, so that a fetch at the last code byte stays inside.
\<close>

definition data_words :: "u8 list \<Rightarrow> nat" where
  "data_words img = unat (u32_from_le_bytes (take 4 img))"

definition text_words :: "u8 list \<Rightarrow> nat" where
  "text_words img = unat (u32_from_le_bytes (take 4 (drop 4 img)))"

definition image_ok :: "u8 list \<Rightarrow> bool" where
  "image_ok img \<longleftrightarrow>
     8 \<le> length img \<and> length img - 8 \<le> RAM_BYTE_SIZE
     \<and> 4 * (data_words img + text_words img) + 3 \<le> RAM_BYTE_SIZE"

lemma push_bit_2_unat: "4 * unat (w :: u32) < 2 ^ 32 \<Longrightarrow> unat (push_bit 2 w) = 4 * unat w"
  by (simp add: push_bit_eq_mult unat_mult_lem [THEN iffD1] mult.commute)

lemma add_u32_no_overflow:
  assumes "unat x + unat y < 2 ^ 32"
  shows "add_u32 b x y = Ok (x + y)" "unat (x + y) = unat x + unat y"
  using assms by (simp_all add: add_u32_def unat_add_lem [THEN iffD1])

text \<open>What the loaded processor looks like.\<close>

definition booted :: "build \<Rightarrow> u8 list \<Rightarrow> ('i, 'o) cpu \<Rightarrow> bool" where
  "booted b img s \<longleftrightarrow>
     cpu_wf b s \<and> code_aligned (cpu_memory s)
     \<and> instr_mem_range (cpu_memory s) = (4 * data_words img, 4 * (data_words img + text_words img))
     \<and> pc_into_usize (cpu_pc s) = 4 * data_words img
     \<and> (\<forall>i < length img - 8. vec_elt (mem_inner (cpu_memory s)) i = img ! (i + 8))
     \<and> unat (reg_val (cpu_reg_file s) (RegId 4)) = data_words img + text_words img
     \<and> reg_val (cpu_reg_file s) (RegId 2) = 249999 \<and> freg_val (cpu_reg_file s) (FRegId 1) = f32_one
     \<and> (\<forall>k. mem_tag (cpu_memory s) k = Unknown)"

lemma boot:
  assumes "image_ok img"
  shows "\<exists>s. (cpu_new b img i o' :: ('e, ('i, 'o) cpu) outcome) = Ok s \<and> booted b img s \<and> cpu_input s = i \<and> cpu_output s = o'"
proof -
  let ?d = "u32_from_le_bytes (take 4 img)" and ?t = "u32_from_le_bytes (take 4 (drop 4 img))"
  have len: "8 \<le> length img" "length img - 8 \<le> RAM_BYTE_SIZE" "4 * (unat ?d + unat ?t) + 3 \<le> RAM_BYTE_SIZE"
    using assms by (simp_all add: image_ok_def data_words_def text_words_def)
  then have small: "4 * (unat ?d + unat ?t) < 2 ^ 32" by (simp add: RAM_BYTE_SIZE_def)
  have d: "unat (push_bit 2 ?d) = 4 * unat ?d" and t: "unat (push_bit 2 ?t) = 4 * unat ?t"
    by (rule push_bit_2_unat, use small in simp)+
  have hp: "unat ?d + unat ?t < 2 ^ 32" and te: "unat (push_bit 2 ?d) + unat (push_bit 2 ?t) < 2 ^ 32"
    using small d t by simp_all
  obtain rf where rf: "(cpu_init_regs b (?d + ?t) :: (reg_file, 'e, unit) action) (reg_file_new b) = (Ok (), rf)"
    "reg_file_wf b rf" "reg_val rf (RegId 4) = ?d + ?t" "reg_val rf (RegId 2) = 249999"
    "freg_val rf (FRegId 1) = f32_one"
    using init_regs_ok by blast
  have ram: "RAM_BYTE_SIZE mod 4 = 0" "RAM_BYTE_SIZE < 4294967296" by (simp_all add: RAM_BYTE_SIZE_def)
  show ?thesis
    using len rf d t ram add_u32_no_overflow(2) [OF hp] add_u32_no_overflow(2) [OF te]
    by (simp add: cpu_new_def get_data_and_text_len_def add_u32_no_overflow(1) [OF hp]
        add_u32_no_overflow(1) [OF te] init_from_slice_def act_simps vec_write_def memory_new_def
        booted_def cpu_wf_def memory_wf_def code_aligned_def data_words_def text_words_def
        cache_new_def branch_predictor_new_def instr_stat_new_def pipeline_wf_def slot_ok_def
        pc_into_usize_def add.commute)
qed

text \<open>
  C17. Loading: from any image the memory can hold, in any build, the processor comes up
  well-formed with the program counter on the first instruction, the code range exactly the text
  section and aligned, the body of the image in memory byte for byte, every word of unknown type,
  the heap pointer behind the program, the stack pointer on the last word and \<open>f1 = 1.0\<close>.
\<close>
theorem cpu_new_boots:
  assumes "image_ok img"
  shows "\<exists>s. (cpu_new b img i o' :: ('e, ('i, 'o) cpu) outcome) = Ok s \<and> booted b img s \<and> cpu_input s = i \<and> cpu_output s = o'"
  by (rule boot [OF assms])

text \<open>A two-instruction program: \<^verbatim>\<open>addi t0, zero, 5\<close> and the end marker.\<close>

definition demo_image :: "u8 list" where
  "demo_image = [0, 0, 0, 0, 2, 0, 0, 0] @ u32_to_le_bytes 0x00500293 @ u32_to_le_bytes 0"

lemma demo_image_ok: "image_ok demo_image" "data_words demo_image = 0" "text_words demo_image = 2"
  by (simp_all add: image_ok_def demo_image_def data_words_def text_words_def u32_from_le_bytes_def
      u32_to_le_bytes_def RAM_BYTE_SIZE_def)

theorem cpu_new_boots_witness:
  "\<exists>s. cpu_new \<lparr>debug_assertions = True, isa_2nd = False\<rparr> demo_image () () = (Ok s :: (unit, _) outcome)
     \<and> instr_mem_range (cpu_memory s) = (0, 8)"
  using cpu_new_boots [OF demo_image_ok(1), of "\<lparr>debug_assertions = True, isa_2nd = False\<rparr>" "()" "()", where ?'e = unit]
  by (auto simp: booted_def demo_image_ok)

section \<open>The code of a loaded image\<close>

lemma booted_fetch:
  assumes "booted b img s" "data_words img + k < data_words img + text_words img"
    "8 + 4 * (data_words img + text_words img) \<le> length img"
  shows "get_from_pc (cpu_memory s) (Pc (word_of_nat (4 * (data_words img + k)))) =
    Ok (u32_from_le_bytes (take 4 (drop (8 + 4 * (data_words img + k)) img)))"
proof -
  let ?a = "4 * (data_words img + k)"
  have wf: "memory_wf RAM_BYTE_SIZE (cpu_memory s)" using assms(1) by (simp add: booted_def cpu_wf_def)
  have rng: "instr_mem_range (cpu_memory s) = (4 * data_words img, 4 * (data_words img + text_words img))"
    using assms(1) by (simp add: booted_def)
  then have le: "4 * (data_words img + text_words img) + 3 \<le> RAM_BYTE_SIZE"
    using wf by (simp add: memory_wf_def)
  then have a: "pc_into_usize (Pc (word_of_nat ?a)) = ?a"
    using assms(2) by (simp add: pc_into_usize_def unsigned_of_nat take_bit_nat_eq_self RAM_BYTE_SIZE_def
        del: of_nat_add of_nat_mult)
  have bytes: "\<forall>i < length img - 8. vec_elt (mem_inner (cpu_memory s)) i = img ! (i + 8)"
    using assms(1) by (simp add: booted_def)
  have "map (vec_elt (mem_inner (cpu_memory s))) [?a..<?a + 4] = take 4 (drop (8 + ?a) img)"
    by (rule nth_equalityI) (use assms(2,3) bytes in \<open>auto simp: add.commute add.left_commute\<close>)
  then show ?thesis
    using assms(2) rng unfolding get_from_pc_eq [OF wf] a by simp
qed

abbreviation release_1st :: build where
  "release_1st \<equiv> \<lparr>debug_assertions = False, isa_2nd = False\<rparr>"

lemma demo_decode: "decode_from release_1st 0x00500293 = Ok (Instr_I Addi (RegId 5) (RegId 0) 5)"
proof -
  have "encodable release_1st (Instr_I Addi (RegId 5) (RegId 0) 5)"
    by (simp add: encodable_def iinstr_variants_def operands_ok_def reg_ok_def max_reg_id_def
        reg_bit_width_def imm_ok_def)
  moreover have "encode (Instr_I Addi (RegId 5) (RegId 0) 5) = 0x00500293"
    by (simp add: asm_def imm_hi7_def imm_lo5_def)
  ultimately show ?thesis
    using decode_encode [of release_1st "Instr_I Addi (RegId 5) (RegId 0) 5"] by (simp add: decode_from_def)
qed

lemma demo_fetch:
  assumes "booted release_1st demo_image s"
  shows "get_from_pc (cpu_memory s) (cpu_pc s) = Ok 0x00500293"
proof -
  have "cpu_pc s = Pc 0"
    using assms by (cases "cpu_pc s") (auto simp: booted_def pc_into_usize_def demo_image_ok unsigned_eq_0_iff)
  moreover have "u32_from_le_bytes (take 4 (drop 8 demo_image)) = 0x00500293"
    by (simp add: demo_image_def)
  ultimately show ?thesis
    using booted_fetch [OF assms, of 0] by (simp add: demo_image_ok) (simp add: demo_image_def)
qed

text \<open>A floating-point unit for the demonstration, which never calls it.\<close>

definition demo_fpu :: binding where
  "demo_fpu = \<lparr>c_fmul = f32_mul, c_fdiv = (\<lambda>x y. f32_nan), c_fsqrt = (\<lambda>x. f32_nan), c_fcvtsw = Bits,
     c_fcvtws = to_bits, c_ffloor = id\<rparr>"

end
