(* ===== verification/Disasm.thy ===== *)
theory Disasm
  imports Sim Cpu_Boot
begin

text \<open>
  The disassembler of \<^verbatim>\<open>core_sim/src/sim.rs\<close>: the instructions around an address, folded to
  a window, with the symbol they belong to. Arithmetic on \<^verbatim>\<open>u32\<close> is checked in debug builds.
\<close>

section \<open>Pretty instructions\<close>

datatype pretty_instr = Sugared string | Unsugared decoded_instr

definition show_pretty_instr :: "build \<Rightarrow> pretty_instr \<Rightarrow> ('e, string) outcome" where
  "show_pretty_instr b p = (case p of Sugared s \<Rightarrow> Ok s | Unsugared i \<Rightarrow> show_decoded_instr b i)"

definition neg_i32 :: "build \<Rightarrow> u32 \<Rightarrow> ('e, int) outcome" where
  "neg_i32 b w =
     (if sint w = - (2 ^ 31) then (if debug_assertions b then Panic ArithmeticOverflow else Ok (sint w))
      else Ok (- sint w))"

text \<open>The guards of the match, in order.\<close>

definition pretty_instr_of :: "build \<Rightarrow> decoded_instr \<Rightarrow> ('e, pretty_instr) outcome" where
  "pretty_instr_of b i =
     (case i of
        Instr_I Addi rd rs1 imm \<Rightarrow>
          if reg_is_zero rs1 then
            if imm = 0 then
              if reg_is_zero rd then Ok (Sugared ''nop'')
              else bind_out (show_regid b rd) (\<lambda>d. bind_out (show_regid b rs1) (\<lambda>s.
                   Ok (Sugared (''mv '' @ d @ '', '' @ s))))
            else bind_out (show_regid b rd) (\<lambda>d. Ok (Sugared (''li '' @ d @ '', '' @ show_u32 imm)))
          else if sint imm < 0 then
            bind_out (neg_i32 b imm) (\<lambda>k.
            bind_out (show_regid b rd) (\<lambda>d. bind_out (show_regid b rs1) (\<lambda>s.
            Ok (Sugared (''subi '' @ d @ '', '' @ s @ '', '' @ show_int k)))))
          else Ok (Unsugared i)
      | Instr_I Xori rd rs1 imm \<Rightarrow>
          if imm = 1 then
            bind_out (show_regid b rd) (\<lambda>d. bind_out (show_regid b rs1) (\<lambda>s.
            Ok (Sugared (''not '' @ d @ '', '' @ s))))
          else Ok (Unsugared i)
      | _ \<Rightarrow> Ok (Unsugared i))"

section \<open>Rows\<close>

record assembly_row =
  ar_special :: "string option"
  ar_addr :: pc
  ar_bin :: u32
  ar_decoded :: "pretty_instr option"

record assembly =
  as_label :: string
  as_label_addr :: pc
  omitted_head :: bool
  as_rows :: "assembly_row list"
  omitted_tail :: bool

definition did_omit_output :: "assembly \<Rightarrow> bool" where
  "did_omit_output a \<longleftrightarrow> omitted_head a \<or> omitted_tail a"

definition show_assembly_row :: "build \<Rightarrow> assembly_row \<Rightarrow> ('e, string) outcome" where
  "show_assembly_row b r =
     bind_out (case ar_decoded r of
                 Some p \<Rightarrow> show_pretty_instr b p | None \<Rightarrow> Ok ''???? (failed to decode)'') (\<lambda>d.
     Ok (pad_left 7 (case ar_special r of Some s \<Rightarrow> s | None \<Rightarrow> []) @ '' '' @ show_pc (ar_addr r) @ ''  ''
         @ show_hex_010 (unat (ar_bin r)) @ ''    '' @ d))"

fun show_rows :: "build \<Rightarrow> assembly_row list \<Rightarrow> ('e, string) outcome" where
  "show_rows b [] = Ok []"
| "show_rows b (r # rs) =
     bind_out (show_assembly_row b r) (\<lambda>x. bind_out (show_rows b rs) (\<lambda>y. Ok (x @ nl @ y)))"

definition show_assembly :: "build \<Rightarrow> assembly \<Rightarrow> ('e, string) outcome" where
  "show_assembly b a =
     (let omitted = replicate 8 (CHR '' '') @ ''... /* omitted */'' @ nl in
      bind_out (show_rows b (as_rows a)) (\<lambda>rows.
      Ok (as_label a @ '': /* '' @ show_pc (as_label_addr a) @ '' */'' @ nl
          @ (if omitted_head a then omitted else []) @ rows @ (if omitted_tail a then omitted else []))))"

section \<open>Disassembly\<close>

definition mul_u32 :: "build \<Rightarrow> u32 \<Rightarrow> u32 \<Rightarrow> ('e, u32) outcome" where
  "mul_u32 b x y =
     (if debug_assertions b \<and> unat x * unat y \<ge> 2 ^ 32 then Panic ArithmeticOverflow else Ok (x * y))"

record disassemble_option =
  do_addr :: "pc option"
  do_fold :: bool
  window_size_half :: "u32 option"

definition disassemble_option_default :: disassemble_option where
  "disassemble_option_default = \<lparr>do_addr = None, do_fold = False, window_size_half = None\<rparr>"

definition sim_get_mem_pc :: "('i, 'o) simulator \<Rightarrow> pc \<Rightarrow> (runtime_error, u32) outcome" where
  "sim_get_mem_pc s p = cpu_get_mem_pc (sim_cpu s) p"

text \<open>The loop over the rows; it ends early when an address is outside the code.\<close>

fun disassemble_rows ::
  "build \<Rightarrow> ('i, 'o) simulator \<Rightarrow> pc \<Rightarrow> u32 \<Rightarrow> nat list \<Rightarrow> ('e, assembly_row list) outcome" where
  "disassemble_rows b s cursor begin [] = Ok []"
| "disassemble_rows b s cursor begin (disp # disps) =
     bind_out (add_u32 b begin (push_bit 2 (word_of_nat disp))) (\<lambda>a.
     case sim_get_mem_pc s (Pc a) of
       Ok bin \<Rightarrow>
         bind_out (case (decode_from b bin :: (anyhow_error, decoded_instr) outcome) of
             Ok i \<Rightarrow> bind_out (pretty_instr_of b i) (\<lambda>p. Ok (Some p))
           | Err e \<Rightarrow> Ok None
           | Panic p \<Rightarrow> Panic p) (\<lambda>instr.
         bind_out (disassemble_rows b s cursor begin disps) (\<lambda>rows.
         Ok (\<lparr>ar_special = (if cursor = Pc a then Some ''***'' else None), ar_addr = Pc a, ar_bin = bin,
              ar_decoded = instr\<rparr> # rows)))
     | Err e \<Rightarrow> Ok []
     | Panic p \<Rightarrow> Panic p)"

definition disassemble_near ::
  "build \<Rightarrow> disassemble_option \<Rightarrow> ('i, 'o) simulator \<Rightarrow> (anyhow_error, assembly) outcome" where
  "disassemble_near b opt s =
     (let half = push_bit 2 (case window_size_half opt of Some h \<Rightarrow> h | None \<Rightarrow> 4) in
      bind_out (mul_u32 b half 2) (\<lambda>w.
      bind_out (add_u32 b w 4) (\<lambda>window_size.
      let cursor = (case do_addr opt of Some p \<Rightarrow> p | None \<Rightarrow> cpu_pc (sim_cpu s));
          pc_addr = word_of_nat (addr_inner (pc_into_addr cursor)) :: u32 in
      bind_out (get_nearest_symbol_addr (sim_debug_symbol s) pc_addr) (\<lambda>index.
      bind_out (get_symbol b (sim_debug_symbol s) index) (\<lambda>d.
      let def_addr = sym_addr (sd_raw d) in
      bind_out (if do_fold opt then bind_out (add_u32 b def_addr half) (\<lambda>x. Ok (x < pc_addr)) else Ok False) (\<lambda>head.
      bind_out (if head then sub_u32 b pc_addr half else Ok def_addr) (\<lambda>begin.
      bind_out (case sd_size d of Some n \<Rightarrow> Ok n | None \<Rightarrow> add_u32 b window_size 1) (\<lambda>len.
      bind_out (add_u32 b def_addr len) (\<lambda>end_addr.
      bind_out (if do_fold opt then bind_out (add_u32 b begin window_size) (\<lambda>x. Ok (x < end_addr)) else Ok False) (\<lambda>tail.
      bind_out (if tail then Ok window_size else sub_u32 b end_addr begin) (\<lambda>len.
      bind_out (disassemble_rows b s cursor begin [0..<unat (drop_bit 2 len)]) (\<lambda>rows.
      Ok \<lparr>as_label = sym_label (sd_raw d), as_label_addr = Pc def_addr, omitted_head = head, as_rows = rows,
          omitted_tail = tail\<rparr>))))))))))))"

section \<open>What is shown\<close>

lemma decoded_operands:
  assumes "decode_from b w = Ok i"
  shows "operands_ok b i"
proof (cases "isa_2nd b")
  case True
  then show ?thesis using decode_from_2nd_well [of b w] assms by (simp add: decode_from_def)
next
  case False
  then show ?thesis
    using decode_from_1st_well [of b w] decode_from_1st_asserts [of w b] assms
    by (cases "decode_asserts w") (auto simp: decode_from_def)
qed

lemma table_length: "length (abiname_table b) = max_reg_id b"
  by (simp add: abiname_table_def max_reg_id_def reg_bit_width_def)

lemma pretty_instr_total:
  assumes "operands_ok b i" "\<not> debug_assertions b"
  shows "\<exists>p. pretty_instr_of b i = (Ok p :: ('e, _) outcome)"
proof -
  have reg: "reg_ok b r \<Longrightarrow> \<exists>n. show_regid b r = (Ok n :: ('e, _) outcome)" for r
    by (simp add: reg_ok_def show_regid_def table_length)
  have neg: "\<exists>k. neg_i32 b w = (Ok k :: ('e, _) outcome)" for w
    using assms(2) by (simp add: neg_i32_def)
  show ?thesis
  proof (cases i)
    case (Instr_I j rd rs1 imm)
    then obtain n m where "show_regid b rd = (Ok n :: ('e, _) outcome)" "show_regid b rs1 = (Ok m :: ('e, _) outcome)"
      using assms(1) reg by (auto simp: operands_ok_def) metis
    then show ?thesis
      using Instr_I neg [of imm] by (cases j) (auto simp: pretty_instr_of_def)
  qed (simp_all add: pretty_instr_of_def)
qed

text \<open>The row for an address, and the rows from an address on.\<close>

definition row_at :: "build \<Rightarrow> ('i, 'o) simulator \<Rightarrow> pc \<Rightarrow> u32 \<Rightarrow> assembly_row \<Rightarrow> bool" where
  "row_at b s cursor a r \<longleftrightarrow>
     ar_addr r = Pc a \<and> (ar_special r \<noteq> None \<longleftrightarrow> cursor = Pc a)
     \<and> get_from_pc (cpu_memory (sim_cpu s)) (Pc a) = Ok (ar_bin r)
     \<and> (ar_decoded r = None \<longleftrightarrow> (\<exists>e. decode_from b (ar_bin r) = Err e))"

definition listable :: "build \<Rightarrow> ('i, 'o) simulator \<Rightarrow> bool" where
  "listable b s \<longleftrightarrow>
     cpu_wf b (sim_cpu s) \<and> \<not> debug_assertions b
     \<and> (\<forall>a w. get_from_pc (cpu_memory (sim_cpu s)) (Pc a) = Ok w \<longrightarrow> \<not> is_panic (decode_from b w))"

lemma disassemble_row:
  assumes "listable b s" "get_from_pc (cpu_memory (sim_cpu s)) (Pc (begin + push_bit 2 (word_of_nat k))) = Ok w"
    "disassemble_rows b s cursor begin ks = (Ok rs :: ('e, _) outcome)"
  shows "\<exists>r. disassemble_rows b s cursor begin (k # ks) = (Ok (r # rs) :: ('e, _) outcome)
    \<and> row_at b s cursor (begin + push_bit 2 (word_of_nat k)) r"
proof (cases "decode_from b w")
  case (Ok i)
  obtain p where "pretty_instr_of b i = (Ok p :: ('e, _) outcome)"
    using pretty_instr_total [OF decoded_operands [OF Ok]] assms(1) by (auto simp: listable_def)
  then show ?thesis
    using assms Ok by (simp add: add_u32_def listable_def sim_get_mem_pc_def cpu_get_mem_pc_def row_at_def)
next
  case (Panic p)
  then show ?thesis using assms(1,2) unfolding listable_def by (metis is_panic.simps(1))
qed (use assms in \<open>simp add: add_u32_def listable_def sim_get_mem_pc_def cpu_get_mem_pc_def row_at_def\<close>)

lemma disassemble_rows_ok:
  assumes "listable b s"
  shows "\<exists>rs. disassemble_rows b s cursor begin [m..<n] = (Ok rs :: ('e, _) outcome) \<and> length rs \<le> n - m
    \<and> (\<forall>k < length rs. row_at b s cursor (begin + push_bit 2 (word_of_nat (m + k))) (rs ! k))
    \<and> (\<forall>j. (\<forall>k. m \<le> k \<and> k \<le> j \<longrightarrow> (\<exists>w. get_from_pc (cpu_memory (sim_cpu s)) (Pc (begin + push_bit 2 (word_of_nat k))) = Ok w))
         \<and> m \<le> j \<and> j < n \<longrightarrow> j - m < length rs)"
proof (induction "n - m" arbitrary: m)
  case (Suc d)
  let ?a = "begin + push_bit 2 (word_of_nat m)"
  have d: "d = n - Suc m" using Suc.hyps(2) by simp
  have upt: "[m..<n] = m # [Suc m..<n]" using Suc.hyps(2) by (simp add: upt_conv_Cons)
  obtain rs where rs: "disassemble_rows b s cursor begin [Suc m..<n] = (Ok rs :: ('e, _) outcome)" "length rs \<le> n - Suc m"
    "\<forall>k < length rs. row_at b s cursor (begin + push_bit 2 (word_of_nat (Suc m + k))) (rs ! k)"
    "\<forall>j. (\<forall>k. Suc m \<le> k \<and> k \<le> j \<longrightarrow> (\<exists>w. get_from_pc (cpu_memory (sim_cpu s)) (Pc (begin + push_bit 2 (word_of_nat k))) = Ok w))
         \<and> Suc m \<le> j \<and> j < n \<longrightarrow> j - Suc m < length rs"
    using Suc.hyps(1) [OF d] by blast
  show ?case
  proof (cases "get_from_pc (cpu_memory (sim_cpu s)) (Pc ?a)")
    case (Ok w)
    obtain r where r: "disassemble_rows b s cursor begin [m..<n] = (Ok (r # rs) :: ('e, _) outcome)" "row_at b s cursor ?a r"
      using disassemble_row [OF assms Ok rs(1)] upt by auto
    have "row_at b s cursor (begin + push_bit 2 (word_of_nat (m + k))) ((r # rs) ! k)" if "k < length (r # rs)" for k
      using that r(2) rs(3) by (cases k) auto
    moreover have "j - m < length (r # rs)"
      if "\<forall>k. m \<le> k \<and> k \<le> j \<longrightarrow> (\<exists>w. get_from_pc (cpu_memory (sim_cpu s)) (Pc (begin + push_bit 2 (word_of_nat k))) = Ok w)"
        "m \<le> j" "j < n" for j
      using that rs(4) [rule_format, of j] by (cases "j = m") auto
    ultimately show ?thesis using r(1) rs(2) Suc.hyps(2) by (intro exI [of _ "r # rs"]) auto
  next
    case (Err e)
    then have "disassemble_rows b s cursor begin [m..<n] = (Ok [] :: ('e, _) outcome)"
      using assms upt by (simp add: add_u32_def listable_def sim_get_mem_pc_def cpu_get_mem_pc_def)
    then show ?thesis using Err by auto
  next
    case (Panic p)
    then show ?thesis
      using assms get_from_pc_eq [of RAM_BYTE_SIZE "cpu_memory (sim_cpu s)" "Pc ?a"]
      by (auto simp: listable_def cpu_wf_def split: if_splits)
  qed
qed simp

text \<open>
  The part of the symbol that is listed: all of it, or the default window around the program
  counter when the output is folded.
\<close>

lemma listed_window:
  fixes da pc_addr size :: u32
  assumes "unat da \<le> unat pc_addr" "unat pc_addr + 4 \<le> unat da + unat size" "unat da + unat size + 36 < 2 ^ 32"
    and "(unat pc_addr - unat da) mod 4 = 0"
    and bg: "bgn = (if fd \<and> da + 16 < pc_addr then pc_addr - 16 else da)"
    and len: "len = (if fd \<and> bgn + 36 < da + size then 36 else da + size - bgn)"
  shows "\<exists>j. j < unat (drop_bit 2 len) \<and> unat pc_addr = unat bgn + 4 * j
    \<and> (fd \<longrightarrow> unat (drop_bit 2 len) \<le> 9) \<and> unat da \<le> unat bgn"
proof -
  define D P S where "D = unat da" and "P = unat pc_addr" and "S = unat size"
  note le = assms(1-4) [folded D_def P_def S_def]
  have B: "unat bgn = (if fd \<and> D + 16 < P then P - 16 else D)"
    using le unfolding bg D_def P_def S_def
    by (simp add: word_less_nat_alt unat_word_ariths unat_sub_if')
  have E: "unat (da + size) = D + S" using le unfolding D_def S_def by (simp add: unat_word_ariths)
  have B36: "unat (bgn + 36) = unat bgn + 36" using le B by (simp add: unat_word_ariths split: if_splits)
  have L: "unat len = (if fd \<and> unat bgn + 36 < D + S then 36 else D + S - unat bgn)"
    using le B E B36 unfolding len by (auto simp: word_less_nat_alt unat_sub_if' word_le_nat_alt)
  have "(P - unat bgn) mod 4 = 0" "unat bgn \<le> P" "fd \<longrightarrow> P - unat bgn \<le> 16" "D \<le> unat bgn"
    using le B by (auto split: if_splits)
  moreover have "unat (drop_bit 2 len) = unat len div 4"
    by (simp only: unat_drop_bit_eq) (simp add: drop_bit_eq_div)
  ultimately show ?thesis
    using le L by (intro exI [of _ "(P - unat bgn) div 4"]) (auto simp: P_def D_def split: if_splits)
qed

lemma shift_nat:
  assumes "unat (w :: u32) + 4 * j < 2 ^ 32"
  shows "unat (w + push_bit 2 (word_of_nat j)) = unat w + 4 * j"
  using assms by (simp add: push_bit_eq_mult unat_word_ariths unsigned_of_nat take_bit_eq_mod mult.commute)



end
