(* ===== verification/Float64.thy ===== *)
theory Float64
  imports Float32
begin

text \<open>
  The part of IEEE 754 binary64 the program uses: positive finite values as mantissa and exponent
  of two. Every operation rounds once, to nearest with ties to even. The statistics and the tables
  of the floating-point unit stay far from the limits of the exponent, so overflow and subnormal
  values do not occur.
\<close>

section \<open>Representation and arithmetic\<close>

type_synonym f64 = "nat \<times> int"

definition f64_ratio :: "nat \<Rightarrow> nat \<Rightarrow> f64" where
  "f64_ratio p q =
     (let sh = 55 + int (bit_length q) - int (bit_length p);
          num = p * 2 ^ nat sh; den = q * 2 ^ nat (- sh);
          n = 2 * (num div den) + (if num mod den = 0 then 0 else 1);
          t = bit_length n - 53
      in (round_half_even n t, int t - 1 - sh))"

definition f64_of_nat :: "nat \<Rightarrow> f64" where
  "f64_of_nat n = f64_ratio n 1"

text \<open>The value as a quotient of natural numbers.\<close>

definition f64_num :: "f64 \<Rightarrow> nat" where
  "f64_num x = fst x * 2 ^ nat (snd x)"

definition f64_den :: "f64 \<Rightarrow> nat" where
  "f64_den x = 2 ^ nat (- snd x)"

definition f64_mul :: "f64 \<Rightarrow> f64 \<Rightarrow> f64" where
  "f64_mul x y = f64_ratio (f64_num x * f64_num y) (f64_den x * f64_den y)"

definition f64_div :: "f64 \<Rightarrow> f64 \<Rightarrow> f64" where
  "f64_div x y = f64_ratio (f64_num x * f64_den y) (f64_den x * f64_num y)"

definition f64_add :: "f64 \<Rightarrow> f64 \<Rightarrow> f64" where
  "f64_add x y = f64_ratio (f64_num x * f64_den y + f64_num y * f64_den x) (f64_den x * f64_den y)"

definition f64_sub :: "f64 \<Rightarrow> f64 \<Rightarrow> f64" where
  "f64_sub x y = f64_ratio (f64_num x * f64_den y - f64_num y * f64_den x) (f64_den x * f64_den y)"

section \<open>Square root\<close>

text \<open>The integer square root, one binary digit at a time, base four.\<close>

fun isqrt :: "nat \<Rightarrow> nat" where
  "isqrt n =
     (if n = 0 then 0
      else let r = 2 * isqrt (n div 4) in if (r + 1) * (r + 1) \<le> n then r + 1 else r)"

declare isqrt.simps [simp del]

text \<open>
  \<^verbatim>\<open>sqrt\<close> of \<^verbatim>\<open>math.h\<close> is correctly rounded. The root of the value times \<open>4\<close> to the power \<open>60\<close>
  has more than 54 bits for the arguments between 1 and 4 it is called with; the last bit is sticky.
\<close>

definition f64_sqrt :: "f64 \<Rightarrow> f64" where
  "f64_sqrt x =
     (let n = f64_num x * 4 ^ 60; q = n div f64_den x; r = isqrt q;
          m = 2 * r + (if r * r * f64_den x = n then 0 else 1); t = bit_length m - 53
      in (round_half_even m t, int t - 61))"

section \<open>Conversion to single precision\<close>

definition f64_to_f32 :: "f64 \<Rightarrow> f32" where
  "f64_to_f32 x = f32_make False (round_bits (nat (- snd x) - 149) (fst x * 2 ^ (149 - nat (- snd x)) * 2 ^ nat (snd x)))"

end
