(* ===== verification/Stat_View.thy ===== *)
theory Stat_View
  imports Display Sim Cpu_Boot Float64
begin

text \<open>
  \<^verbatim>\<open>core_sim/src/stat.rs\<close> and the statistics views of \<^verbatim>\<open>cpu.rs\<close>, \<^verbatim>\<open>memory.rs\<close>,
  \<^verbatim>\<open>reg_file.rs\<close> and \<^verbatim>\<open>sim.rs\<close>. A boxed \<^verbatim>\<open>dyn Stat\<close> is a case of the datatype
  \<open>stat\<close>; a view is its header, its width and its text.
\<close>

section \<open>Percentages\<close>

text \<open>\<^verbatim>\<open>{:.6}\<close>: six decimals of the exact value, ties to even.\<close>

definition show_f64_6 :: "f64 \<Rightarrow> string" where
  "show_f64_6 x =
     (let n = f64_num x * 10 ^ 6; k = nat (- snd x); r = round_half_even n k;
          frac = show_nat (r mod 10 ^ 6)
      in show_nat (r div 10 ^ 6) @ ''.'' @ replicate (6 - length frac) (CHR ''0'') @ frac)"

text \<open>\<^verbatim>\<open>100. * n as f64 / total as f64\<close>, which is NaN for a total of zero.\<close>

definition show_percent :: "usize \<Rightarrow> usize \<Rightarrow> string" where
  "show_percent n tot =
     (if tot = 0 then ''NaN''
      else show_f64_6 (f64_div (f64_mul (f64_of_nat 100) (f64_of_nat n)) (f64_of_nat tot)))"

section \<open>Width of tables\<close>

text \<open>
  The loop of \<^verbatim>\<open>Width::chunk_size\<close> with the trait's method as argument, under fuel.
\<close>

fun chunk_size_from :: "nat \<Rightarrow> (usize \<Rightarrow> usize) \<Rightarrow> usize \<Rightarrow> usize \<Rightarrow> usize option" where
  "chunk_size_from 0 width max_width c = None"
| "chunk_size_from (Suc fuel) width max_width c =
     (if width c > max_width then Some (c - 1) else chunk_size_from fuel width max_width (c + 1))"

definition chunk_size :: "nat \<Rightarrow> (usize \<Rightarrow> usize) \<Rightarrow> usize \<Rightarrow> usize option" where
  "chunk_size fuel width max_width = chunk_size_from fuel width max_width 2"

definition reg_file_stat_width :: "usize \<Rightarrow> usize" where
  "reg_file_stat_width c = c * 31 + (c - 1) * 2 + 2"

definition instr_stat_width :: "usize \<Rightarrow> usize" where
  "instr_stat_width c = c * 21 + (c - 1) * 2 + 2"

section \<open>Views\<close>

record stat_view =
  sv_header :: string
  sv_width :: usize
  sv_text :: string

datatype stat =
    StSim sim_stat
  | StMemory memory_stat
  | StRegion memory_region_stat
  | StRegFile reg_file_stat reg_file_stat
  | StInstr instr_stat
  | StBranch branch_stat
  | StCache cache_stat

definition stat_fmt_inner :: "usize \<Rightarrow> string list \<Rightarrow> ('e, string) outcome" where
  "stat_fmt_inner c cells =
     bind_out (chunks c cells) (\<lambda>rows. Ok (concat (map (\<lambda>row. ''  '' @ join '', '' row @ nl) rows)))"

definition CPU_CLOCK_FREQ :: usize where "CPU_CLOCK_FREQ = 183333333"
definition CPU_BAUDRATE :: usize where "CPU_BAUDRATE = 2304000"

definition show_sim_stat :: "build \<Rightarrow> sim_stat \<Rightarrow> ('e, string) outcome" where
  "show_sim_stat b s =
     (if debug_assertions b \<and> unat (st_instr_file_len s) * 10 \<ge> 2 ^ 32 then Panic ArithmeticOverflow
      else
        let input_time = f64_div (f64_of_nat (unat (st_instr_file_len s * 10))) (f64_of_nat CPU_BAUDRATE);
            cpu_time = f64_div (f64_of_nat (st_elapsed_clocks s)) (f64_of_nat CPU_CLOCK_FREQ)
        in Ok (''  elapsed total: '' @ pad_left 9 (show_nat (st_elapsed s) @ '' ms'') @ nl
            @ ''  cycles total: '' @ pad_left 10 (''#'' @ show_nat (st_cycle s)) @ nl
            @ ''  clocks total: '' @ pad_left 10 (''#'' @ show_nat (st_elapsed_clocks s)) @ nl
            @ ''  estimated CPU time: '' @ pad_left 9 (show_f64_6 (f64_add input_time cpu_time) @ '' s'') @ nl))"

definition show_reg_file_stat :: "usize \<Rightarrow> reg_file_stat \<Rightarrow> ('e, string) outcome" where
  "show_reg_file_stat c st =
     stat_fmt_inner c
       (map (\<lambda>((n, r), w). pad_left 6 n @ '':'' @ pad_left 11 (show_nat r) @ '' /'' @ pad_left 11 (show_nat w))
          (zip (zip (rs_abiname_table st) (vec_to_list (rs_read st))) (vec_to_list (rs_write st))))"

text \<open>Indices that are no instruction identifier are skipped.\<close>

fun instr_stat_cells :: "build \<Rightarrow> instr_stat \<Rightarrow> nat list \<Rightarrow> ('e, string list) outcome" where
  "instr_stat_cells b st [] = Ok []"
| "instr_stat_cells b st (i # is) =
     (case instr_id_try_from b (word_of_nat i) of
        Ok k \<Rightarrow>
          bind_out (show_instr_id b k) (\<lambda>str.
          bind_out (vec_get st i) (\<lambda>count.
          bind_out (instr_stat_cells b st is) (\<lambda>cells.
          Ok ((pad_left 8 str @ '': '' @ pad_left 11 (show_nat count)) # cells))))
      | Err _ \<Rightarrow> instr_stat_cells b st is
      | Panic p \<Rightarrow> Panic p)"

definition show_instr_stat :: "build \<Rightarrow> usize \<Rightarrow> instr_stat \<Rightarrow> ('e, string) outcome" where
  "show_instr_stat b c st = bind_out (instr_stat_cells b st [0..<instr_id_max]) (stat_fmt_inner c)"

definition show_branch_stat :: "branch_stat \<Rightarrow> string" where
  "show_branch_stat s =
     (let taken = taken_pred_taken_count s + taken_pred_untaken_count s;
          untaken = untaken_pred_taken_count s + untaken_pred_untaken_count s;
          correct = taken_pred_taken_count s + untaken_pred_untaken_count s;
          total = taken + untaken;
          row = (\<lambda>name n. name @ pad_left 10 (show_nat n) @ '' ('' @ pad_left 8 (show_percent n total) @ ''%)'' @ nl)
      in row ''         taken: '' taken @ row ''       untaken: '' untaken @ row ''  pred correct: '' correct)"

definition show_cache_stat :: "cache_stat \<Rightarrow> string" where
  "show_cache_stat s =
     (let total = hit_count s + miss_count s;
          row = (\<lambda>name n. name @ pad_left 10 (show_nat n) @ '' ('' @ pad_left 8 (show_percent n total) @ ''%)'' @ nl)
      in row ''      hit: '' (hit_count s) @ row ''     miss: '' (miss_count s))"

text \<open>
  \<^verbatim>\<open>Stat::view\<close>: the result is \<open>None\<close> only if the fuel of the width loop runs out.
\<close>

definition view_of :: "string \<Rightarrow> usize \<Rightarrow> ('e, string) outcome \<Rightarrow> ('e, stat_view) outcome" where
  "view_of header width text = bind_out text (\<lambda>t. Ok \<lparr>sv_header = header, sv_width = width, sv_text = t\<rparr>)"

definition sim_stat_view :: "build \<Rightarrow> sim_stat \<Rightarrow> ('e, stat_view) outcome" where
  "sim_stat_view b st = view_of ''simulator stat'' 33 (show_sim_stat b st)"

definition memory_stat_view :: "memory_stat \<Rightarrow> ('e, stat_view) outcome" where
  "memory_stat_view st =
     view_of ''access count of memory region (format: `# of read / # of write`)'' 40 (Ok (show_memory_stat st))"

definition region_stat_view :: "build \<Rightarrow> memory_region_stat \<Rightarrow> ('e, stat_view) outcome" where
  "region_stat_view b st = view_of ''used memory'' 24 (show_memory_region_stat b st)"

definition reg_file_stat_view :: "nat \<Rightarrow> usize \<Rightarrow> reg_file_stat \<Rightarrow> reg_file_stat \<Rightarrow> ('e, stat_view) outcome option" where
  "reg_file_stat_view fuel max_width si sf =
     map_option (\<lambda>c. view_of ''register load (format: `# of read / # of write`)'' (reg_file_stat_width c)
        (bind_out (show_reg_file_stat c si) (\<lambda>x. bind_out (show_reg_file_stat c sf) (\<lambda>y. Ok (x @ y)))))
       (chunk_size fuel reg_file_stat_width max_width)"

definition instr_stat_view :: "nat \<Rightarrow> build \<Rightarrow> usize \<Rightarrow> instr_stat \<Rightarrow> ('e, stat_view) outcome option" where
  "instr_stat_view fuel b max_width st =
     map_option (\<lambda>c. view_of ''executed instructions'' (instr_stat_width c) (show_instr_stat b c st))
       (chunk_size fuel instr_stat_width max_width)"

definition branch_stat_view :: "branch_stat \<Rightarrow> ('e, stat_view) outcome" where
  "branch_stat_view st = view_of ''branch count'' 33 (Ok (show_branch_stat st))"

definition cache_stat_view :: "cache_stat \<Rightarrow> ('e, stat_view) outcome" where
  "cache_stat_view st = view_of ''cache stat'' 33 (Ok (show_cache_stat st))"

fun view :: "nat \<Rightarrow> build \<Rightarrow> usize \<Rightarrow> stat \<Rightarrow> ('e, stat_view) outcome option" where
  "view fuel b w (StSim st) = Some (sim_stat_view b st)"
| "view fuel b w (StMemory st) = Some (memory_stat_view st)"
| "view fuel b w (StRegion st) = Some (region_stat_view b st)"
| "view fuel b w (StRegFile si sf) = reg_file_stat_view fuel w si sf"
| "view fuel b w (StInstr st) = instr_stat_view fuel b w st"
| "view fuel b w (StBranch st) = Some (branch_stat_view st)"
| "view fuel b w (StCache st) = Some (cache_stat_view st)"

lemmas stat_view_defs = view_of_def sim_stat_view_def memory_stat_view_def region_stat_view_def
  reg_file_stat_view_def instr_stat_view_def branch_stat_view_def cache_stat_view_def

section \<open>All statistics\<close>

definition memory_add_stats :: "memory \<Rightarrow> stat list \<Rightarrow> stat list" where
  "memory_add_stats m buf = buf @ [StMemory (stat_mem m)]"

definition reg_file_add_stats :: "reg_file \<Rightarrow> stat list \<Rightarrow> ('e, stat list) outcome" where
  "reg_file_add_stats r buf =
     bind_out (vec_get (rf_inner r) 4) (\<lambda>hp.
     Ok (buf @ [StRegion (region_finish hp (stat_memregion r)), StRegFile (rf_stat_i r) (rf_stat_f r)]))"

definition cpu_add_stats :: "('i, 'o) cpu \<Rightarrow> stat list \<Rightarrow> ('e, stat list) outcome" where
  "cpu_add_stats c buf =
     bind_out (reg_file_add_stats (cpu_reg_file c) (memory_add_stats (cpu_memory c) buf)) (\<lambda>buf.
     Ok (buf @ [StInstr (i_stat c), StBranch (b_stat c), StCache (c_stat c)]))"

definition sim_add_stats :: "('i, 'o) simulator \<Rightarrow> stat list \<Rightarrow> ('e, stat list) outcome" where
  "sim_add_stats s buf =
     bind_out (stat_finish (stat_builder s)) (\<lambda>st. cpu_add_stats (sim_cpu s) (buf @ [StSim st]))"

definition collect_stat :: "('i, 'o) simulator \<Rightarrow> ('e, stat list) outcome" where
  "collect_stat s = sim_add_stats s []"

fun all_views :: "('e, stat_view) outcome option list \<Rightarrow> ('e, stat_view list) outcome option" where
  "all_views [] = Some (Ok [])"
| "all_views (None # vs) = None"
| "all_views (Some v # vs) =
     map_option (\<lambda>rest. bind_out v (\<lambda>x. bind_out rest (\<lambda>xs. Ok (x # xs)))) (all_views vs)"

definition stats_view :: "nat \<Rightarrow> build \<Rightarrow> usize \<Rightarrow> stat list \<Rightarrow> ('e, stat_view list) outcome option" where
  "stats_view fuel b max_width ss = all_views (map (view fuel b max_width) ss)"

definition pad_center :: "char \<Rightarrow> nat \<Rightarrow> string \<Rightarrow> string" where
  "pad_center c w s =
     (let k = w - length s in replicate (k div 2) c @ s @ replicate (k - k div 2) c)"

text \<open>\<^verbatim>\<open>max().unwrap()\<close> panics when there is no view.\<close>

definition show_stat_all_view :: "stat_view list \<Rightarrow> ('e, string) outcome" where
  "show_stat_all_view vs =
     (if vs = [] then Panic UnwrapFailed
      else let width = Max (set (map (\<lambda>v. max (length (sv_header v)) (sv_width v)) vs))
        in Ok (pad_center (CHR ''-'') width '' statistics '' @ nl
               @ concat (map (\<lambda>v. sv_header v @ '':'' @ nl @ sv_text v @ nl) vs)
               @ replicate width (CHR ''-'')))"

section \<open>Tables fit\<close>

lemma chunk_size_from_spec:
  assumes "\<And>c. c \<le> width c" "max_width < n + c" "0 < c"
  shows "\<exists>d. chunk_size_from (Suc n) width max_width c = Some d \<and> c - 1 \<le> d \<and> (d = c - 1 \<or> width d \<le> max_width)
    \<and> max_width < width (d + 1)"
  using assms(2,3)
proof (induction n arbitrary: c)
  case 0
  then show ?case using assms(1) [of c] by simp
next
  case (Suc n)
  show ?case
  proof (cases "width c > max_width")
    case False
    then obtain d where "chunk_size_from (Suc n) width max_width (c + 1) = Some d" "c \<le> d" "d = c \<or> width d \<le> max_width"
      "max_width < width (d + 1)"
      using Suc.IH [of "c + 1"] Suc.prems by auto
    then show ?thesis using False Suc.prems by auto
  qed (use Suc.prems in simp)
qed

lemma widths: "c \<le> reg_file_stat_width c" "c \<le> instr_stat_width c"
  by (simp_all add: reg_file_stat_width_def instr_stat_width_def)

text \<open>
  The width loop of the tables ends and is right: for either table and any terminal width it
  returns a number of columns, at least one, the largest whose table fits the terminal, or one
  column if not even two fit.
\<close>
lemma chunk_size_fits:
  assumes "w = reg_file_stat_width \<or> w = instr_stat_width" "max_width < fuel"
  shows "\<exists>c. chunk_size fuel w max_width = Some c \<and> 1 \<le> c \<and> (c = 1 \<or> w c \<le> max_width) \<and> max_width < w (c + 1)"
proof -
  obtain n where "fuel = Suc n" "max_width \<le> n" using assms(2) by (cases fuel) auto
  then show ?thesis
    using chunk_size_from_spec [of w max_width n 2] assms(1) widths by (auto simp: chunk_size_def)
qed

section \<open>Statistics are printed\<close>

lemma if_chain:
  "(if P then A else B) \<Longrightarrow> (A \<Longrightarrow> \<exists>str. x = Ok str) \<Longrightarrow> (B \<Longrightarrow> \<exists>str. y = Ok str)
    \<Longrightarrow> \<exists>str. (if P then x else y) = Ok str"
  by (cases P) auto

lemma transmute_shows:
  "unat l < length vs \<Longrightarrow> \<exists>str. bind_out (transmute_from vs l) (\<lambda>v. Ok (f v)) = (Ok str :: ('e, _) outcome)"
  by (simp add: transmute_from_def)

lemma io_shows:
  assumes "unat (l :: u8) < 3"
  shows "\<exists>str. (if l = 0 then Ok a else if l = 1 then Ok c else if l = 2 then Ok d else Panic Unreachable)
    = (Ok str :: ('e, _) outcome)"
proof -
  have "unat l = unat (0 :: u8) \<or> unat l = unat (1 :: u8) \<or> unat l = unat (2 :: u8)"
    using assms by auto
  then show ?thesis by (auto simp only: word_unat_eq_iff [symmetric]) simp_all
qed

lemma if_Ok: "(if P then Ok x else Err e) = Ok k \<Longrightarrow> P \<and> x = k"
  by (simp split: if_splits)

lemma valid_id_shows:
  assumes "instr_id_try_from b v = Ok k"
  shows "\<exists>str. show_instr_id b k = (Ok str :: ('e, string) outcome)"
proof -
  have k: "InstrId v = k"
    using if_Ok [OF assms [unfolded instr_id_try_from_def Let_def]] by blast
  show ?thesis
    using if_Ok [OF assms [unfolded instr_id_try_from_def Let_def], THEN conjunct1]
    unfolding show_instr_id_def Let_def k [symmetric] instr_id.sel
    by (elim if_chain) (simp only: transmute_shows io_shows)+
qed

lemma instr_stat_cells_ok:
  assumes "list_all (\<lambda>i. i < vec_len st) is"
  shows "\<exists>cells. instr_stat_cells b st is = (Ok cells :: ('e, _) outcome)"
  using assms
proof (induction "is")
  case (Cons i "is")
  then obtain cells where cells: "instr_stat_cells b st is = (Ok cells :: ('e, _) outcome)" by auto
  show ?case
  proof (cases "instr_id_try_from b (word_of_nat i)")
    case (Ok k)
    then show ?thesis using valid_id_shows [OF Ok, where ?'e = 'e] Cons.prems cells by auto
  next
    case (Panic p)
    then show ?thesis by (auto simp: instr_id_try_from_def Let_def split: if_splits)
  qed (use cells in simp)
qed simp

lemma fmt_inner_ok: "1 \<le> c \<Longrightarrow> \<exists>t. stat_fmt_inner c cells = (Ok t :: ('e, _) outcome)"
  by (simp add: stat_fmt_inner_def chunks_def)

text \<open>The arithmetic checks of a debug build that viewing a statistic runs into.\<close>

fun view_checks :: "stat \<Rightarrow> bool" where
  "view_checks (StSim st) \<longleftrightarrow> unat (st_instr_file_len st) * 10 < 2 ^ 32"
| "view_checks (StRegion st) \<longleftrightarrow> rg_hp_min st \<le> rg_hp_max st \<and> rg_sp_min st \<le> rg_sp_max st"
| "view_checks _ \<longleftrightarrow> True"

lemma view_ok:
  assumes "debug_assertions b \<longrightarrow> view_checks s" "max_width < fuel" "\<And>st. s = StInstr st \<Longrightarrow> vec_len st = instr_id_max"
  shows "\<exists>v. view fuel b max_width s = Some (Ok v :: ('e, _) outcome)"
proof (cases s)
  case (StRegFile si sf)
  obtain c where c: "chunk_size fuel reg_file_stat_width max_width = Some c" "1 \<le> c"
    using chunk_size_from_spec [of reg_file_stat_width max_width "fuel - 1" 2] widths assms(2) by (auto simp: chunk_size_def)
  obtain x y where "show_reg_file_stat c si = (Ok x :: ('e, _) outcome)" "show_reg_file_stat c sf = (Ok y :: ('e, _) outcome)"
    using fmt_inner_ok [OF c(2)] unfolding show_reg_file_stat_def by metis
  then show ?thesis using StRegFile c by (simp add: stat_view_defs)
next
  case (StInstr st)
  obtain c where c: "chunk_size fuel instr_stat_width max_width = Some c" "1 \<le> c"
    using chunk_size_from_spec [of instr_stat_width max_width "fuel - 1" 2] widths assms(2) by (auto simp: chunk_size_def)
  obtain cells where "instr_stat_cells b st [0..<instr_id_max] = (Ok cells :: ('e, _) outcome)"
    using instr_stat_cells_ok [of st "[0..<instr_id_max]" b, where ?'e = 'e] assms(3) [OF StInstr] by (auto simp: list_all_iff)
  moreover obtain t where "stat_fmt_inner c cells = (Ok t :: ('e, _) outcome)" using fmt_inner_ok [OF c(2)] by blast
  ultimately show ?thesis using StInstr c by (simp add: stat_view_defs show_instr_stat_def)
qed (use assms(1) in \<open>auto simp: stat_view_defs show_sim_stat_def show_memory_region_stat_def sub_u32_def Let_def linorder_not_le\<close>)

lemma all_views_ok:
  assumes "list_all (\<lambda>s. \<exists>v. view fuel b w s = Some (Ok v :: ('e, _) outcome)) ss"
  shows "\<exists>vs. stats_view fuel b w ss = Some (Ok vs :: ('e, _) outcome) \<and> length vs = length ss"
  using assms by (induction ss) (auto simp: stats_view_def)

text \<open>
  C30. After an exit the statistics can be printed: from a well-formed processor with a complete
  statistics builder, collecting the seven statistics, viewing them at any terminal width and
  printing the views all succeed. A debug build checks three arithmetic operations on the way, and
  for it the heap pointer must not be below its initial value, the lowest stack pointer not above
  the initial one, and ten times the length of the program must fit 32 bits.
\<close>
theorem statistics_print:
  assumes "cpu_wf b (sim_cpu s)" "stat_finish (stat_builder s) = (Ok st :: ('e, _) outcome)" "max_width < fuel"
    and "debug_assertions b \<longrightarrow>
      (let r = stat_memregion (cpu_reg_file (sim_cpu s)) in
       hp_min r \<le> reg_val (cpu_reg_file (sim_cpu s)) (RegId 4) \<and> sp_min r \<le> sp_max r
       \<and> unat (st_instr_file_len st) * 10 < 2 ^ 32)"
  shows "\<exists>ss vs text. collect_stat s = (Ok ss :: ('e, _) outcome) \<and> length ss = 7
    \<and> stats_view fuel b max_width ss = Some (Ok vs :: ('e, _) outcome)
    \<and> show_stat_all_view vs = (Ok text :: ('e, _) outcome)"
proof -
  let ?c = "sim_cpu s"
  let ?hp = "vec_elt (rf_inner (cpu_reg_file ?c)) 4"
  let ?ss = "[StSim st, StMemory (stat_mem (cpu_memory ?c)), StRegion (region_finish ?hp (stat_memregion (cpu_reg_file ?c))),
    StRegFile (rf_stat_i (cpu_reg_file ?c)) (rf_stat_f (cpu_reg_file ?c)), StInstr (i_stat ?c), StBranch (b_stat ?c), StCache (c_stat ?c)]"
  have "4 < vec_len (rf_inner (cpu_reg_file ?c))"
    using assms(1) max_reg_id_ge [of b] by (simp add: cpu_wf_def reg_file_wf_def)
  then have ss: "collect_stat s = (Ok ?ss :: ('e, _) outcome)"
    using assms(2) by (simp add: collect_stat_def sim_add_stats_def cpu_add_stats_def reg_file_add_stats_def memory_add_stats_def)
  have "debug_assertions b \<longrightarrow> view_checks x" if "x \<in> set ?ss" for x
    using that assms(4) by (auto simp: region_finish_def Let_def)
  moreover have "vec_len v = instr_id_max" if "StInstr v \<in> set ?ss" for v
    using that assms(1) by (auto simp: cpu_wf_def)
  ultimately have views: "list_all (\<lambda>x. \<exists>v. view fuel b max_width x = Some (Ok v :: ('e, _) outcome)) ?ss"
    unfolding list_all_iff using view_ok [OF _ assms(3)] by blast
  obtain vs where "stats_view fuel b max_width ?ss = Some (Ok vs :: ('e, _) outcome)" "length vs = length ?ss"
    using all_views_ok [OF views] by blast
  then show ?thesis using ss by (intro exI [of _ ?ss]) (auto simp: show_stat_all_view_def Let_def)
qed

theorem statistics_print_witness:
  "\<exists>s :: (unit, unit) simulator. \<exists>ss vs text. collect_stat s = (Ok ss :: (unit, _) outcome) \<and> length ss = 7
     \<and> stats_view 101 \<lparr>debug_assertions = True, isa_2nd = False\<rparr> 100 ss = Some (Ok vs :: (unit, _) outcome)
     \<and> show_stat_all_view vs = (Ok text :: (unit, _) outcome)"
proof -
  let ?b = "\<lparr>debug_assertions = True, isa_2nd = False\<rparr>"
  obtain c :: "(unit, unit) cpu" where c: "booted ?b demo_image c"
    using boot [OF demo_image_ok(1), of ?b "()" "()", where ?'e = unit] by auto
  let ?g = "(cpu_reg_file c)\<lparr>stat_memregion := \<lparr>hp_min = 0, sp_min = 0, sp_max = 0\<rparr>\<rparr>"
  let ?s = "\<lparr>sim_cpu = c\<lparr>cpu_reg_file := ?g\<rparr>, elapsed_clocks = 0, sim_cycle = 0, sim_debug_symbol = debug_symbol_default,
    fatal_error = None,
    stat_builder = \<lparr>sb_begin = 0, sb_instr_file_len = Some 2, sb_elapsed_clocks = Some 9, sb_cycle = Some 2, sb_elapsed = Some 1\<rparr>,
    sim_stdout = []\<rparr>"
  have fin: "stat_finish (stat_builder ?s) =
      (Ok \<lparr>st_instr_file_len = 2, st_elapsed_clocks = 9, st_cycle = 2, st_elapsed = 1\<rparr> :: (unit, _) outcome)"
    by (simp add: stat_finish_def unwrap_def)
  have "cpu_wf ?b (sim_cpu ?s)"
    using c by (simp add: booted_def cpu_wf_def reg_file_wf_def)
  from statistics_print [OF this fin, of 100 101] show ?thesis by (simp add: Let_def) blast
qed

end
