(* ===== verification/Interactive.thy ===== *)
theory Interactive
  imports Command Loops Sim Disasm Stat_View
begin

text \<open>
  The loop of the debugger, \<^verbatim>\<open>execute_interactive\<close> of \<^verbatim>\<open>cli/src/interactive.rs\<close>. A session
  holds the simulator, the options, which register banks are watched, and the lines still to
  come on standard input; what is printed goes to the simulator's \<open>sim_stdout\<close>, in order with the
  trace. The size of the terminal, the message of the parser and the value of the bit mask
  \<^verbatim>\<open>WatchRegFile::all()\<close> come from other packages and are fields of \<open>console\<close>.
\<close>

section \<open>Console and session\<close>

record console =
  terminal_columns :: "16 word option"
  peg_expected :: "debug_symbol \<Rightarrow> string \<Rightarrow> string"
  all_banks :: u8

datatype stdin_line = Line string | ReadFailed string

record ('i, 'o) session =
  ss_sim :: "('i, 'o) simulator"
  ss_opt :: simulation_option
  watching_regfile :: u8
  ss_stdin :: "stdin_line list"

type_synonym ('i, 'o, 'a) act = "(('i, 'o) session, anyhow_error, 'a) action"
type_synonym ('i, 'o, 'a) loop = "(('i, 'o) session, anyhow_error, 'a) looping"

abbreviation on_sim :: "(('i, 'o) simulator, 'e, 'a) action \<Rightarrow> (('i, 'o) session, 'e, 'a) action" where
  "on_sim \<equiv> zoom ss_sim (\<lambda>x s. s\<lparr>ss_sim := x\<rparr>)"

definition on_sim_loop :: "(('i, 'o) simulator, 'e, 'a) looping \<Rightarrow> (('i, 'o) session, 'e, 'a) looping" where
  "on_sim_loop m s = map_option (\<lambda>(r, x). (r, s\<lparr>ss_sim := x\<rparr>)) (m (ss_sim s))"

definition print :: "string \<Rightarrow> ('i, 'o, unit) act" where
  "print t = on_sim (act_modify (\<lambda>x. x\<lparr>sim_stdout := sim_stdout x @ [t]\<rparr>))"

definition println :: "string \<Rightarrow> ('i, 'o, unit) act" where
  "println t = print (t @ nl)"

text \<open>The banks of the bit mask \<^verbatim>\<open>WatchRegFile\<close>.\<close>

definition bank_i :: u8 where "bank_i = 1"
definition bank_f :: u8 where "bank_f = 2"

definition watches_bank :: "u8 \<Rightarrow> u8 \<Rightarrow> bool" where
  "watches_bank w m \<longleftrightarrow> w AND m = m"

definition get_terminal_width :: "build \<Rightarrow> 16 word option \<Rightarrow> ('e, 16 word option) outcome" where
  "get_terminal_width b cols =
     (case cols of
        None \<Rightarrow> Ok None
      | Some w \<Rightarrow> if debug_assertions b \<and> w < 20 then Panic ArithmeticOverflow else Ok (Some (w - 20)))"

definition regfile_chunk_size :: "16 word option \<Rightarrow> usize" where
  "regfile_chunk_size width = max 2 (case width of Some w \<Rightarrow> unat w div 30 | None \<Rightarrow> 2)"

section \<open>Showing\<close>

definition cpu_get_regfile_view :: "show_reg_file_kind \<Rightarrow> usize \<Rightarrow> ('i, 'o) cpu \<Rightarrow> reg_file_view" where
  "cpu_get_regfile_view k chunk c = get_view k chunk (cpu_reg_file c)"

definition get_regfile_view :: "show_reg_file_kind \<Rightarrow> usize \<Rightarrow> ('i, 'o) simulator \<Rightarrow> reg_file_view" where
  "get_regfile_view k chunk s = cpu_get_regfile_view k chunk (sim_cpu s)"

definition print_regfile :: "build \<Rightarrow> usize \<Rightarrow> show_reg_file_kind \<Rightarrow> ('i, 'o, unit) act" where
  "print_regfile b chunk k =
     act_bind (act_read (\<lambda>s. show_reg_file_view b (get_regfile_view k chunk (ss_sim s)))) println"

text \<open>\<^verbatim>\<open>opt.breakpoints\<close> is a hash map; its entries are sorted by address before printing.\<close>

definition sorted_breakpoints :: "simulation_option \<Rightarrow> break_point list" where
  "sorted_breakpoints opt = map (\<lambda>a. the (breakpoints opt a)) (sorted_list_of_set (dom (breakpoints opt)))"

definition show_all_bp :: "('i, 'o, unit) act" where
  "show_all_bp =
     act_bind (act_gets (\<lambda>s. sorted_breakpoints (ss_opt s))) (\<lambda>v.
     if v = [] then println ''no breakpoints set.''
     else act_bind (print ''breakpoints: '') (\<lambda>_.
          println (''['' @ join '', '' (map show_break_point v) @ '']'')))"

text \<open>One section of the list of watched values; the flag is \<^verbatim>\<open>printed\<close>.\<close>

definition print_unless_printed_yet :: "bool \<Rightarrow> ('i, 'o, bool) act" where
  "print_unless_printed_yet printed =
     (if printed then act_ret True else act_bind (println ''watching these values:'') (\<lambda>_. act_ret True))"

definition watch_section :: "bool \<Rightarrow> string \<Rightarrow> (anyhow_error, string) outcome list \<Rightarrow> ('i, 'o, bool) act" where
  "watch_section printed title names =
     (if names = [] then act_ret printed
      else act_bind (print_unless_printed_yet printed) (\<lambda>printed.
           act_bind (print (CHR 0x09 # title)) (\<lambda>_.
           act_bind (act_lift (all_out names)) (\<lambda>xs.
           act_bind (println (join '', '' xs)) (\<lambda>_. act_ret printed)))))"

definition watch_line :: "bool \<Rightarrow> string \<Rightarrow> ('i, 'o, bool) act" where
  "watch_line printed t =
     act_bind (print_unless_printed_yet printed) (\<lambda>printed.
     act_bind (println (CHR 0x09 # t)) (\<lambda>_. act_ret printed))"

definition show_watchings :: "build \<Rightarrow> console \<Rightarrow> ('i, 'o, unit) act" where
  "show_watchings b con =
     act_bind (act_gets (\<lambda>s. (opt_watchings (ss_opt s), watching_regfile s))) (\<lambda>(w, banks).
     act_bind (watch_section False ''registers: '' (map (show_regid b) (w_reg w))) (\<lambda>p1.
     act_bind (watch_section p1 ''floating pointer registers: '' (map (show_fregid b) (w_freg w))) (\<lambda>p2.
     act_bind (watch_section p2 ''memory: '' (map (\<lambda>a. Ok (show_addr a)) (w_memory w))) (\<lambda>p3.
     act_bind (if banks = all_banks con then watch_line p3 ''RegFile (All)''
               else if watches_bank banks bank_i then watch_line p3 ''RegFile (Integer)''
               else if watches_bank banks bank_f then watch_line p3 ''RegFile (Float)''
               else act_ret p3) (\<lambda>p4.
     if \<not> p4 then println ''nothing to watch.'' else act_ret ())))))"

definition show_label_def :: "build \<Rightarrow> bool \<Rightarrow> ('i, 'o, unit) act" where
  "show_label_def b folded =
     act_bind (println ''loading assembly near pc...'') (\<lambda>_.
     act_bind (act_attempt (act_read (\<lambda>s. disassemble_near b (disassemble_option_default\<lparr>do_fold := folded\<rparr>) (ss_sim s)))) (\<lambda>r.
     case r of
       Inr listing \<Rightarrow>
         act_bind (if folded \<and> did_omit_output listing
                   then println ''some output is omitted; type \"show def full\" to full output.'' else act_ret ()) (\<lambda>_.
         act_bind (println []) (\<lambda>_.
         act_bind (act_lift (show_assembly b listing)) println))
     | Inl e \<Rightarrow> println (show_anyhow_error e)))"

definition show_memory :: "build \<Rightarrow> addr \<Rightarrow> ('i, 'o, unit) act" where
  "show_memory b a =
     act_bind (act_attempt (on_sim (sim_get_mem b a))) (\<lambda>r.
     case r of
       Inr v \<Rightarrow> println (''M['' @ show_addr a @ ''] == '' @ show_typed_u32 v)
     | Inl e \<Rightarrow> println (show_anyhow_error e))"

text \<open>The statistics of the processor; the width loop of the tables takes fuel.\<close>

definition show_stat :: "nat \<Rightarrow> build \<Rightarrow> 16 word option \<Rightarrow> ('i, 'o, unit) loop" where
  "show_stat fuel b width s =
     (case cpu_add_stats (sim_cpu (ss_sim s)) [] of
        Ok stats \<Rightarrow>
          (case stats_view fuel b (case width of Some w \<Rightarrow> unat w | None \<Rightarrow> 60) stats of
             None \<Rightarrow> None
           | Some r \<Rightarrow> Some (act_bind (act_lift (bind_out r show_stat_all_view)) println s))
      | Err e \<Rightarrow> Some (Err e, s)
      | Panic p \<Rightarrow> Some (Panic p, s))"

definition show_register_i :: "build \<Rightarrow> regid \<Rightarrow> ('i, 'o, unit) act" where
  "show_register_i b r =
     act_bind (act_lift (show_regid b r)) (\<lambda>n.
     act_bind (print (n @ '' == '')) (\<lambda>_.
     act_bind (on_sim (sim_get_reg r)) (\<lambda>v. println (show_typed_u32 v))))"

definition show_register_f :: "build \<Rightarrow> fregid \<Rightarrow> ('i, 'o, unit) act" where
  "show_register_f b r =
     act_bind (act_lift (show_fregid b r)) (\<lambda>n.
     act_bind (print (n @ '' == '')) (\<lambda>_.
     act_bind (on_sim (sim_get_freg r)) (\<lambda>v. println (show_f32 v))))"

fun show_value :: "nat \<Rightarrow> build \<Rightarrow> console \<Rightarrow> 16 word option \<Rightarrow> show_kind \<Rightarrow> ('i, 'o, unit) loop" where
  "show_value fuel b con width ShowPc =
     once (act_bind (act_gets (\<lambda>s. (cpu_pc (sim_cpu (ss_sim s)), sim_cycle (ss_sim s)))) (\<lambda>(pc, cyc).
           println (''pc: '' @ show_pc pc @ '', cycle #'' @ show_nat cyc)))"
| "show_value fuel b con width IsTraceEnabled =
     once (act_bind (act_gets (\<lambda>s. do_trace (ss_opt s))) (\<lambda>t.
           println (''trace '' @ (if t then ''enabled'' else ''disabled''))))"
| "show_value fuel b con width (ShowStat StatCpu) = show_stat fuel b width"
| "show_value fuel b con width (ShowMemory a) = once (show_memory b a)"
| "show_value fuel b con width (ShowRegFile k) = once (print_regfile b (regfile_chunk_size width) k)"
| "show_value fuel b con width (RegisterI r) = once (show_register_i b r)"
| "show_value fuel b con width (RegisterF r) = once (show_register_f b r)"
| "show_value fuel b con width AllBp = once show_all_bp"
| "show_value fuel b con width ShowWatchings = once (show_watchings b con)"
| "show_value fuel b con width (LabelDefNearPc folded) = once (show_label_def b folded)"
| "show_value fuel b con width (AddedSpy s) =
     once (act_bind (act_lift (show_spy b s)) (\<lambda>t. println (''added spy on '' @ t)))"
| "show_value fuel b con width (RemovedSpy s) =
     once (act_bind (act_lift (show_spy b s)) (\<lambda>t. println (''removed spy on '' @ t)))"

section \<open>Static commands\<close>

definition modify_opt :: "(simulation_option \<Rightarrow> simulation_option) \<Rightarrow> ('i, 'o, unit) act" where
  "modify_opt f = act_modify (\<lambda>s. s\<lparr>ss_opt := f (ss_opt s)\<rparr>)"

definition modify_watchings :: "(watchings \<Rightarrow> watchings) \<Rightarrow> ('i, 'o, unit) act" where
  "modify_watchings f = modify_opt (\<lambda>o'. o'\<lparr>opt_watchings := f (opt_watchings o')\<rparr>)"

definition modify_banks :: "(u8 \<Rightarrow> u8) \<Rightarrow> ('i, 'o, unit) act" where
  "modify_banks f = act_modify (\<lambda>s. s\<lparr>watching_regfile := f (watching_regfile s)\<rparr>)"

definition push_new :: "'a \<Rightarrow> 'a list \<Rightarrow> 'a list" where
  "push_new x xs = (if x \<in> set xs then xs else xs @ [x])"

text \<open>\<^verbatim>\<open>position\<close> and \<^verbatim>\<open>remove\<close>: the first occurrence goes.\<close>

definition remove_watch :: "'a \<Rightarrow> 'a list \<Rightarrow> 'a list" where
  "remove_watch x xs = remove1 x xs"

fun add_watch :: "console \<Rightarrow> watching_kind \<Rightarrow> ('i, 'o, unit) act" where
  "add_watch con (WatchReg r) = modify_watchings (\<lambda>w. w\<lparr>w_reg := push_new r (w_reg w)\<rparr>)"
| "add_watch con (WatchFReg r) = modify_watchings (\<lambda>w. w\<lparr>w_freg := push_new r (w_freg w)\<rparr>)"
| "add_watch con (WatchMemAddr a) = modify_watchings (\<lambda>w. w\<lparr>w_memory := push_new a (w_memory w)\<rparr>)"
| "add_watch con (WatchRegFile RegFileAll) = modify_banks (\<lambda>_. all_banks con)"
| "add_watch con (WatchRegFile RegFileI) = modify_banks (\<lambda>w. w OR bank_i)"
| "add_watch con (WatchRegFile RegFileF) = modify_banks (\<lambda>w. w OR bank_f)"

fun unwatch :: "watching_kind \<Rightarrow> ('i, 'o, unit) act" where
  "unwatch (WatchReg r) = modify_watchings (\<lambda>w. w\<lparr>w_reg := remove_watch r (w_reg w)\<rparr>)"
| "unwatch (WatchFReg r) = modify_watchings (\<lambda>w. w\<lparr>w_freg := remove_watch r (w_freg w)\<rparr>)"
| "unwatch (WatchMemAddr a) = modify_watchings (\<lambda>w. w\<lparr>w_memory := remove_watch a (w_memory w)\<rparr>)"
| "unwatch (WatchRegFile RegFileAll) = modify_banks (\<lambda>_. 0)"
| "unwatch (WatchRegFile RegFileI) = modify_banks (\<lambda>w. w XOR bank_i)"
| "unwatch (WatchRegFile RegFileF) = modify_banks (\<lambda>w. w XOR bank_f)"

definition spy_memory ::
  "(spy_watch_kind \<Rightarrow> spy_unit \<Rightarrow> ('i, 'o) cpu \<Rightarrow> ('i, 'o) cpu) \<Rightarrow> spy \<Rightarrow> ('i, 'o, unit) act" where
  "spy_memory f s =
     (case spy_target s of
        SpyMemory u \<Rightarrow> on_sim (act_modify (\<lambda>x. x\<lparr>sim_cpu := f (spy_watch s) u (sim_cpu x)\<rparr>))
      | _ \<Rightarrow> act_panic NotImplemented)"

text \<open>The result is what to show before the next prompt.\<close>

fun run_static_command :: "console \<Rightarrow> static_command \<Rightarrow> ('i, 'o, show_kind) act" where
  "run_static_command con (Show k) = act_ret k"
| "run_static_command con (SpyCommand Add s) = act_bind (spy_memory add_mem_spy s) (\<lambda>_. act_ret (AddedSpy s))"
| "run_static_command con (SpyCommand Remove s) = act_bind (spy_memory remove_mem_spy s) (\<lambda>_. act_ret (RemovedSpy s))"
| "run_static_command con (UpdateWhetherTrace t) =
     act_bind (modify_opt (\<lambda>o'. o'\<lparr>do_trace := t\<rparr>)) (\<lambda>_. act_ret IsTraceEnabled)"
| "run_static_command con (AddBp bp) =
     act_bind (modify_opt (\<lambda>o'. o'\<lparr>breakpoints := (breakpoints o')(bp_addr bp \<mapsto> bp)\<rparr>)) (\<lambda>_. act_ret AllBp)"
| "run_static_command con (RemoveBp a) =
     act_bind (modify_opt (\<lambda>o'. o'\<lparr>breakpoints := (breakpoints o')(a := None)\<rparr>)) (\<lambda>_. act_ret AllBp)"
| "run_static_command con (Watch Add w) = act_bind (add_watch con w) (\<lambda>_. act_ret ShowWatchings)"
| "run_static_command con (Watch Remove w) = act_bind (unwatch w) (\<lambda>_. act_ret ShowWatchings)"

section \<open>Input\<close>

definition prompt :: "('i, 'o, unit) act" where
  "prompt =
     act_bind (act_gets ss_opt) (\<lambda>opt.
     act_bind (print (case opt_mode opt of
         Run \<Rightarrow> ''run ''
       | SkipUntil pc \<Rightarrow> ''until '' @ show_addr pc @ '' ''
       | RunStep n \<Rightarrow> ''step '' @ show_nat (get_step n) @ '' '')) (\<lambda>_.
     act_bind (if do_trace opt then print ''[trace] '' else act_ret ()) (\<lambda>_. print ''> '')))"

text \<open>\<^verbatim>\<open>read_line\<close>: at the end of the input it returns the empty string.\<close>

definition read_line :: "('i, 'o, string) act" where
  "read_line s =
     (case ss_stdin s of
        [] \<Rightarrow> (Ok [], s)
      | Line l # rest \<Rightarrow> (Ok l, s\<lparr>ss_stdin := rest\<rparr>)
      | ReadFailed m # rest \<Rightarrow> (Err (Message m), s\<lparr>ss_stdin := rest\<rparr>))"

datatype input_step = Again "show_kind option" | Leave "execute_mode option" | Quit

definition read_command :: "build \<Rightarrow> console \<Rightarrow> nat \<Rightarrow> ('i, 'o, input_step) act" where
  "read_command b con now =
     act_bind prompt (\<lambda>_.
     act_bind read_line (\<lambda>str.
     act_bind (act_gets (\<lambda>s. sim_debug_symbol (ss_sim s))) (\<lambda>ds.
     case parse_command b ds str of
       Err _ \<Rightarrow> act_bind (println (''parse error: expected '' @ peg_expected con ds str)) (\<lambda>_. act_ret (Again None))
     | Panic p \<Rightarrow> act_panic p
     | Ok (Dynamic d) \<Rightarrow> act_ret (Leave d)
     | Ok (Static c) \<Rightarrow> act_bind (run_static_command con c) (\<lambda>k. act_ret (Again (Some k)))
     | Ok ExitCommand \<Rightarrow> act_bind (on_sim (act_modify (exit_sim now))) (\<lambda>_. act_ret Quit))))"

fun input_loop ::
  "nat \<Rightarrow> build \<Rightarrow> console \<Rightarrow> 16 word option \<Rightarrow> nat \<Rightarrow> show_kind option \<Rightarrow> ('i, 'o, execute_mode option option) loop" where
  "input_loop 0 b con width now todo = (\<lambda>s. None)"
| "input_loop (Suc fuel) b con width now todo =
     then_do (case todo of Some k \<Rightarrow> show_value fuel b con width k | None \<Rightarrow> once (act_ret ())) (\<lambda>_.
     then_do (once (read_command b con now)) (\<lambda>r.
     case r of
       Again todo \<Rightarrow> input_loop fuel b con width now todo
     | Leave d \<Rightarrow> once (act_ret (Some d))
     | Quit \<Rightarrow> once (act_ret None)))"

section \<open>After a run\<close>

definition hash_index :: "('k \<Rightarrow> 'v option) \<Rightarrow> 'k \<Rightarrow> ('e, 'v) outcome" where
  "hash_index m k = (case m k of Some v \<Rightarrow> Ok v | None \<Rightarrow> Panic UnwrapFailed)"

definition print_reason :: "build \<Rightarrow> break_reason \<Rightarrow> ('i, 'o, unit) act" where
  "print_reason b reason =
     (case reason of
        Reached _ \<Rightarrow> act_ret ()
      | StepEnded \<Rightarrow> act_ret ()
      | BreakPoint a \<Rightarrow> println (''reached '' @ show_addr a)
      | Spy r \<Rightarrow>
          act_bind (act_lift (show_spy_kind b (sr_target r))) (\<lambda>t.
          case sr_kind r of
            ReadResult \<Rightarrow> println (''detect read out of '' @ t)
          | WriteResult before after \<Rightarrow>
              act_bind (println (''detect write to '' @ t)) (\<lambda>_.
              println (CHR 0x09 # ''value updated '' @ show_typed_u32 before @ '' -> '' @ show_typed_u32 after)))
      | CannotRestart \<Rightarrow>
          act_bind (act_read (\<lambda>s. unwrap (get_error_msg (ss_sim s)))) (\<lambda>e.
          println (''cannot restart simulator due to previous error: '' @ e))
      | Failed \<Rightarrow>
          act_bind (act_read (\<lambda>s. unwrap (get_error_msg (ss_sim s)))) (\<lambda>e.
          act_bind (act_gets (\<lambda>s. sim_cycle (ss_sim s))) (\<lambda>cy.
          println (''failed at #'' @ show_nat cy @ '': '' @ e))))"

text \<open>A line of watched values: separated by commas, with a line end unless there are none.\<close>

fun print_values :: "('k \<Rightarrow> (anyhow_error, string) outcome) \<Rightarrow> bool \<Rightarrow> 'k list \<Rightarrow> ('i, 'o, unit) act" where
  "print_values cell showed [] = (if showed then println [] else act_ret ())"
| "print_values cell showed (k # ks) =
     act_bind (if showed then print '', '' else act_ret ()) (\<lambda>_.
     act_bind (act_lift (cell k)) (\<lambda>t.
     act_bind (print t) (\<lambda>_. print_values cell True ks)))"

definition reg_cell :: "build \<Rightarrow> watching_values \<Rightarrow> regid \<Rightarrow> (anyhow_error, string) outcome" where
  "reg_cell b v r =
     bind_out (hash_index (wv_reg_map v) r) (\<lambda>x. bind_out (show_regid b r) (\<lambda>n. Ok (n @ '' == '' @ show_typed_u32 x)))"

definition freg_cell :: "build \<Rightarrow> watching_values \<Rightarrow> fregid \<Rightarrow> (anyhow_error, string) outcome" where
  "freg_cell b v r =
     bind_out (hash_index (wv_freg_map v) r) (\<lambda>x. bind_out (show_fregid b r) (\<lambda>n. Ok (n @ '' == '' @ show_f32 x)))"

definition mem_cell :: "watching_values \<Rightarrow> addr \<Rightarrow> (anyhow_error, string) outcome" where
  "mem_cell v a =
     bind_out (hash_index (wv_memory_map v) a) (\<lambda>x. Ok (''M['' @ show_addr a @ ''] == '' @ show_typed_u32 x))"

definition print_watched :: "build \<Rightarrow> 16 word option \<Rightarrow> watching_values \<Rightarrow> ('i, 'o, unit) act" where
  "print_watched b width v =
     act_bind (act_gets (\<lambda>s. (opt_watchings (ss_opt s), watching_regfile s))) (\<lambda>(w, banks).
     let show_ireg = watches_bank banks bank_i; show_freg = watches_bank banks bank_f;
         regfile = print_regfile b (regfile_chunk_size width) in
     act_bind
       (if show_ireg \<and> show_freg then regfile RegFileAll
        else act_bind (if show_ireg then regfile RegFileI else print_values (reg_cell b v) False (w_reg w)) (\<lambda>_.
             if show_freg then regfile RegFileF else print_values (freg_cell b v) False (w_freg w))) (\<lambda>_.
     print_values (mem_cell v) False (w_memory w)))"

section \<open>The loop\<close>

definition update_mode :: "execute_mode option \<Rightarrow> ('i, 'o, unit) act" where
  "update_mode d =
     (case d of
        Some m \<Rightarrow> act_bind (println (''mode: '' @ show_execute_mode m)) (\<lambda>_. modify_opt (\<lambda>o'. o'\<lparr>opt_mode := m\<rparr>))
      | None \<Rightarrow> act_ret ())"

definition run_command ::
  "nat \<Rightarrow> build \<Rightarrow> binding \<Rightarrow> 'i input_trait \<Rightarrow> 'o output_trait \<Rightarrow> nat \<Rightarrow> ('i, 'o, control_flow) loop" where
  "run_command fuel b fpu it ot now s = on_sim_loop (single_cycle b fpu it ot now fuel (ss_opt s)) s"

definition after_run :: "build \<Rightarrow> 16 word option \<Rightarrow> control_flow \<Rightarrow> ('i, 'o, bool) act" where
  "after_run b width flow =
     (case flow of
        Break ob \<Rightarrow>
          act_bind (print_reason b (ob_reason ob)) (\<lambda>_.
          act_bind (print_watched b width (ob_watchings ob)) (\<lambda>_. act_ret False))
      | Exit \<Rightarrow> act_bind (println ''program halts'') (\<lambda>_. act_ret True))"

fun interactive_loop ::
  "nat \<Rightarrow> build \<Rightarrow> binding \<Rightarrow> 'i input_trait \<Rightarrow> 'o output_trait \<Rightarrow> console \<Rightarrow> 16 word option \<Rightarrow> nat
    \<Rightarrow> ('i, 'o, unit) loop" where
  "interactive_loop 0 b fpu it ot con width now = (\<lambda>s. None)"
| "interactive_loop (Suc fuel) b fpu it ot con width now =
     then_do (input_loop fuel b con width now None) (\<lambda>r.
     case r of
       None \<Rightarrow> once (act_ret ())
     | Some d \<Rightarrow>
         then_do (once (update_mode d)) (\<lambda>_.
         then_do (run_command fuel b fpu it ot now) (\<lambda>flow.
         then_do (once (after_run b width flow)) (\<lambda>stop.
         if stop then once (act_ret ()) else interactive_loop fuel b fpu it ot con width now))))"

definition session_new :: "stdin_line list \<Rightarrow> ('i, 'o) simulator \<Rightarrow> ('i, 'o) session" where
  "session_new lines sim = \<lparr>ss_sim = sim, ss_opt = default_option, watching_regfile = 0, ss_stdin = lines\<rparr>"

definition execute_interactive ::
  "nat \<Rightarrow> build \<Rightarrow> binding \<Rightarrow> 'i input_trait \<Rightarrow> 'o output_trait \<Rightarrow> console \<Rightarrow> nat \<Rightarrow> ('i, 'o, unit) loop" where
  "execute_interactive fuel b fpu it ot con now =
     then_do (once (act_lift (get_terminal_width b (terminal_columns con)))) (\<lambda>width.
     then_do (once (println ''entering interactive.'')) (\<lambda>_.
     then_do (interactive_loop fuel b fpu it ot con width now) (\<lambda>_.
     once (println ''exiting interactive.''))))"

end
