(* ===== verification/Command_Text.thy ===== *)
theory Command_Text
  imports Command
begin

text \<open>
  Properties of the command language: what can be typed for a command and how it is read back,
  which lines make the debugger panic, and that no line removes a spy.
\<close>

section \<open>Reading back what was printed\<close>

lemma hex_digit_cases:
  assumes "d < 16"
  shows "is_hex_digit (hex_digit d)" "digit_value (hex_digit d) = d"
  using assms by (auto simp: hex_digit_def is_hex_digit_def digit_value_def of_char_of take_bit_eq_mod)

lemma radix_value_snoc: "radix_value r (ds @ [c]) = r * radix_value r ds + digit_value c"
  by (simp add: radix_value_def)

lemma show_hex_digits: "c \<in> set (show_hex n) \<Longrightarrow> is_hex_digit c"
proof (induction n rule: show_hex.induct)
  case (1 n)
  then show ?case
    by (cases "n < 16") (auto simp: show_hex.simps [of n] hex_digit_cases)
qed

lemma radix_value_show_hex [simp]: "radix_value 16 (show_hex n) = n"
proof (induction n rule: show_hex.induct)
  case (1 n)
  show ?case
  proof (cases "n < 16")
    case True
    then show ?thesis by (simp add: show_hex.simps [of n] radix_value_def hex_digit_cases)
  next
    case False
    then show ?thesis using 1 by (simp add: show_hex.simps [of n] radix_value_snoc hex_digit_cases)
  qed
qed

lemma radix_value_zeros: "radix_value r (replicate k (CHR ''0'') @ ds) = radix_value r ds"
  by (induction k) (simp_all add: radix_value_def digit_value_def)

lemma takeWhile_all_then:
  assumes "\<forall>c \<in> set xs. P c" "ys = [] \<or> \<not> P (hd ys)"
  shows "takeWhile P (xs @ ys) = xs" "dropWhile P (xs @ ys) = ys"
  using assms by (simp_all add: takeWhile_append2 dropWhile_append2 takeWhile_eq_Nil_iff dropWhile_eq_self_iff)

text \<open>A word ends a token when it is empty or starts with white space.\<close>

definition ends :: "string \<Rightarrow> bool" where
  "ends s \<longleftrightarrow> s = [] \<or> is_ws (hd s)"

lemma ws_no_token:
  assumes "is_ws c"
  shows "\<not> is_hex_digit c" "\<not> is_digit c" "\<not> is_octal_digit c" "\<not> is_ascii_alphabetic c" "c \<noteq> CHR ''_''" "c \<noteq> CHR ''s''"
  using assms by (auto simp: is_ws_def is_hex_digit_def is_digit_def is_octal_digit_def is_ascii_alphabetic_def)

lemma rule_radix_addr:
  assumes "a < 2 ^ 64" "ends s"
  shows "rule_radix (show_hex_010 a @ s) = Matched a s"
proof -
  let ?ds = "replicate (8 - length (show_hex a)) (CHR ''0'') @ show_hex a"
  have ds: "\<forall>c \<in> set ?ds. is_hex_digit c"
    using show_hex_digits by (auto simp: is_hex_digit_def)
  have s: "s = [] \<or> \<not> is_hex_digit (hd s)" using assms(2) ws_no_token by (auto simp: ends_def)
  have ne: "?ds \<noteq> []" by (simp add: show_hex.simps [of a])
  have "many1 is_hex_digit (?ds @ s) = Matched ?ds s"
    using takeWhile_all_then [OF ds s] ne by (simp add: many1_def)
  moreover have "number 16 (2 ^ 64) ?ds s = Matched a s"
    using assms(1) by (simp add: number_def radix_value_zeros)
  ultimately show ?thesis
    by (simp add: rule_radix_def show_hex_010_def peg_or_def peg_seq_def peg_bind_def lit_def char_class_def)
qed

lemma rule_addr_shown:
  assumes "addr_inner a < 2 ^ 64" "ends s"
  shows "rule_addr ds (show_addr a @ s) = Matched a s"
  using rule_radix_addr [OF assms] by (simp add: rule_addr_def show_addr_def peg_or_def peg_bind_def peg_ret_def)


lemma rule_radix_zero:
  assumes "ends s"
  shows "rule_radix (CHR ''0'' # s) = NoMatch"
proof (cases s)
  case (Cons c t)
  then have "c \<notin> set ''xXdD''" "\<not> is_octal_digit c"
    using assms ws_no_token [of c] by (auto simp: ends_def is_ws_def)
  then show ?thesis using Cons by (simp add: rule_radix_def peg_defs)
qed (simp add: rule_radix_def peg_defs)

lemma show_nat_head: "0 < n \<Longrightarrow> hd (show_nat n) \<noteq> CHR ''0''"
proof (induction n rule: show_nat.induct)
  case (1 n)
  then show ?case
    by (cases "n < 10") (auto simp: show_nat.simps [of n] hd_append char_of_eq_iff take_bit_eq_mod)
qed

lemma rule_usize_shown:
  assumes "n < 2 ^ 64" "ends s"
  shows "peg_or rule_radix rule_usize (show_nat n @ s) = Matched n s"
proof -
  have s: "s = [] \<or> \<not> is_digit (hd s)" "s = [] \<or> \<not> is_octal_digit (hd s)"
    using assms(2) ws_no_token by (auto simp: ends_def)
  have digits: "\<forall>c \<in> set (show_nat n). is_digit c" using is_digit_show_nat by blast
  have digit: "digit_value c = of_char c - 48" if "is_digit c" for c
    using that by (simp add: is_digit_def digit_value_def)
  have "foldl (\<lambda>n c. 10 * n + digit_value c) m ds = foldl (\<lambda>n c. 10 * n + (of_char c - 48)) m ds"
    if "\<forall>c \<in> set ds. is_digit c" for m ds
    using that by (induction ds arbitrary: m) (simp_all add: digit)
  from this [OF digits] have "radix_value 10 (show_nat n) = n"
    using digits_value_show_nat [of n] by (simp add: radix_value_def digits_value_def)
  then have "rule_usize (show_nat n @ s) = Matched n s"
    using takeWhile_all_then [OF digits s(1)] assms(1) by (simp add: rule_usize_def peg_bind_def many1_def number_def)
  moreover have "rule_radix (show_nat n @ s) = NoMatch"
  proof (cases "n = 0")
    case True
    have "char_of (48 :: nat) = CHR ''0''" by (simp add: char_of_eq_iff)
    then show ?thesis using True rule_radix_zero [OF assms(2)] by (simp add: show_nat.simps [of 0])
  next
    case False
    then show ?thesis
      using show_nat_head [of n] by (cases "show_nat n") (simp_all add: rule_radix_def peg_defs)
  qed
  ultimately show ?thesis by (simp add: peg_or_def)
qed

section \<open>Names\<close>

definition ident_name :: "string \<Rightarrow> bool" where
  "ident_name x \<longleftrightarrow>
     x \<noteq> [] \<and> is_ascii_alphabetic (hd x) \<and> (\<forall>c \<in> set (tl x). c = CHR ''_'' \<or> is_ascii_alphabetic c \<or> is_digit c)"

lemma rule_ident_name:
  assumes "ident_name x" "ends s"
  shows "rule_ident (x @ s) = Matched x s"
proof -
  let ?P = "\<lambda>c. c = CHR ''_'' \<or> is_ascii_alphabetic c \<or> is_digit c"
  have "s = [] \<or> \<not> ?P (hd s)" using assms(2) ws_no_token [of "hd s"] by (auto simp: ends_def)
  from takeWhile_all_then [of "tl x" ?P, OF _ this] assms(1) show ?thesis
    by (cases x) (simp_all add: rule_ident_def ident_name_def peg_bind_def char_class_def many_def peg_ret_def)
qed

text \<open>Words that \<^verbatim>\<open>show\<close> and \<^verbatim>\<open>watch\<close> look for before they look for a register.\<close>

definition key_words :: "string list" where
  "key_words =
     [''pc'', ''register'', ''reg'', ''integer'', ''int'', ''i'', ''floating'', ''float'', ''bp'', ''breakpoint'',
      ''definition'', ''def'', ''memory'', ''mem'', ''stat'', ''0'']"

definition plain_name :: "string \<Rightarrow> bool" where
  "plain_name x \<longleftrightarrow>
     ident_name x \<and> 2 \<le> length x \<and> (\<forall>w \<in> set key_words. take (length w) (x @ nl) \<noteq> w)"

text \<open>The names of the first instruction set are a part of those of the second.\<close>

abbreviation wide :: build where
  "wide \<equiv> \<lparr>debug_assertions = False, isa_2nd = True\<rparr>"

lemma tables_in_wide: "set (abiname_table b) \<subseteq> set (abiname_table wide)" "set (f_abiname_table b) \<subseteq> set (f_abiname_table wide)"
proof -
  have "abiname_table b = take (length (abiname_table b)) (abiname_table wide)"
    by (simp add: abiname_table_def)
  then show "set (abiname_table b) \<subseteq> set (abiname_table wide)" by (metis set_take_subset)
  have "f_abiname_table b = take (length (f_abiname_table b)) (f_abiname_table wide)"
    by (simp add: f_abiname_table_def)
  then show "set (f_abiname_table b) \<subseteq> set (f_abiname_table wide)" by (metis set_take_subset)
qed

lemma wide_names: "list_all plain_name (abiname_table wide @ f_abiname_table wide)"
  by code_simp

lemma wide_disjoint: "list_all (\<lambda>x. x \<notin> set (f_abiname_table wide)) (abiname_table wide)"
  by code_simp

lemma plain_names: "x \<in> set (abiname_table b) \<Longrightarrow> plain_name x" "x \<in> set (f_abiname_table b) \<Longrightarrow> plain_name x"
  using wide_names tables_in_wide [of b] by (auto simp: list_all_iff)

lemma wide_heads: "list_all (\<lambda>x. hd x \<noteq> CHR ''x'') (f_abiname_table wide)"
  by code_simp

lemma wide_f_head:
  assumes "x \<in> set (f_abiname_table b)"
  shows "hd x \<noteq> CHR ''x''" "x \<noteq> []"
proof -
  have "x \<in> set (f_abiname_table wide)" using assms tables_in_wide(2) by blast
  then show "hd x \<noteq> CHR ''x''" using wide_heads unfolding list_all_iff by blast
  show "x \<noteq> []" using plain_names(2) [OF assms] by (simp add: plain_name_def ident_name_def)
qed

lemma banks_disjoint: "x \<in> set (f_abiname_table b) \<Longrightarrow> x \<notin> set (abiname_table b)"
  using wide_disjoint tables_in_wide [of b] by (auto simp: list_all_iff)

lemma lookup_missing: "x \<notin> set names \<Longrightarrow> collect_names mk names x = None"
  unfolding collect_names_def by (subst foldl_upd_notin) (auto simp: enumerate_eq_zip dest: set_zip_rightD)

lemma rule_reg_name_shown:
  assumes "n < max_reg_id b" "ends s"
  shows "rule_reg_name b (abiname_table b ! n @ s) = Matched (RegId (word_of_nat n)) s"
proof -
  have x: "abiname_table b ! n \<in> set (abiname_table b)" using assms(1) by simp
  then have "ident_name (abiname_table b ! n)" using plain_names(1) plain_name_def by blast
  moreover have "abiname_lookup b (abiname_table b ! n) = Some (RegId (word_of_nat n))"
    unfolding abiname_lookup_def by (rule collect_names_nth) (simp_all add: distinct_abiname_table assms(1))
  ultimately show ?thesis
    using assms(2) by (simp add: rule_reg_name_def peg_or_def peg_bind_def rule_ident_name regid_try_from_str_def peg_check_def)
qed

lemma rule_freg_name_shown:
  assumes "n < max_reg_id b" "ends s"
  shows "rule_freg_name b (f_abiname_table b ! n @ s) = Matched (FRegId (word_of_nat n)) s"
    "rule_reg_name b (f_abiname_table b ! n @ s) = NoMatch"
proof -
  let ?x = "f_abiname_table b ! n"
  have x: "?x \<in> set (f_abiname_table b)" using assms(1) by simp
  then have id: "ident_name ?x" using plain_names(2) plain_name_def by blast
  moreover have "f_abiname_lookup b ?x = Some (FRegId (word_of_nat n))"
    unfolding f_abiname_lookup_def by (rule collect_names_nth) (simp_all add: distinct_f_abiname_table assms(1))
  ultimately show "rule_freg_name b (?x @ s) = Matched (FRegId (word_of_nat n)) s"
    using assms(2) by (simp add: rule_freg_name_def peg_or_def peg_bind_def rule_ident_name fregid_try_from_str_def peg_check_def)
  have "abiname_lookup b ?x = None"
    unfolding abiname_lookup_def using banks_disjoint [OF x] by (rule lookup_missing)
  moreover have "lit ''x'' (?x @ s) = NoMatch"
    using wide_f_head [OF x] by (cases ?x) (simp_all add: lit_def)
  ultimately show "rule_reg_name b (?x @ s) = NoMatch"
    using assms(2) id
    by (simp add: rule_reg_name_def peg_or_def peg_seq_def peg_bind_def rule_ident_name regid_try_from_str_def peg_check_def)
qed

section \<open>What can be typed\<close>

definition bank_text :: "show_reg_file_kind \<Rightarrow> string" where
  "bank_text k = (case k of RegFileAll \<Rightarrow> ''regs'' | RegFileI \<Rightarrow> ''int regs'' | RegFileF \<Rightarrow> ''float regs'')"

fun watching_text :: "build \<Rightarrow> watching_kind \<Rightarrow> string" where
  "watching_text b (WatchReg r) = abiname_table b ! reg_inner r"
| "watching_text b (WatchFReg r) = f_abiname_table b ! freg_inner r"
| "watching_text b (WatchMemAddr a) = show_addr a"
| "watching_text b (WatchRegFile k) = bank_text k"

fun spy_text :: "spy \<Rightarrow> string" where
  "spy_text s =
     (if kind_contains (spy_watch s) spy_read then ''r'' else []) @ (if kind_contains (spy_watch s) spy_write then ''w'' else [])
     @ '' mem '' @ (case spy_target s of SpyMemory u \<Rightarrow> show_addr (Addr (spy_addr u)) | _ \<Rightarrow> [])"

fun show_text :: "build \<Rightarrow> show_kind \<Rightarrow> string" where
  "show_text b ShowPc = ''pc''"
| "show_text b (LabelDefNearPc f) = ''def '' @ (if f then ''folded'' else ''full'')"
| "show_text b (ShowStat k) = ''stat''"
| "show_text b AllBp = ''bp''"
| "show_text b (ShowMemory a) = ''mem '' @ show_addr a"
| "show_text b (ShowRegFile k) = bank_text k"
| "show_text b (RegisterI r) = abiname_table b ! reg_inner r"
| "show_text b (RegisterF r) = f_abiname_table b ! freg_inner r"
| "show_text b _ = []"

fun command_text :: "build \<Rightarrow> command \<Rightarrow> string" where
  "command_text b (Dynamic None) = []"
| "command_text b (Dynamic (Some Run)) = ''run''"
| "command_text b (Dynamic (Some (SkipUntil a))) = ''skip until '' @ show_addr a"
| "command_text b (Dynamic (Some (RunStep r))) =
     ''step'' @ (case step r of None \<Rightarrow> [] | Some n \<Rightarrow> '' '' @ show_nat n)"
| "command_text b (Static (UpdateWhetherTrace t)) = ''trace '' @ (if t then ''on'' else ''off'')"
| "command_text b (Static (Show k)) = ''show '' @ show_text b k"
| "command_text b (Static (AddBp bp)) = ''bp '' @ show_addr (bp_addr bp)"
| "command_text b (Static (RemoveBp a)) = ''bp rm '' @ show_addr a"
| "command_text b (Static (Watch Add w)) = ''watch '' @ watching_text b w"
| "command_text b (Static (Watch Remove w)) = ''unwatch '' @ watching_text b w"
| "command_text b (Static (SpyCommand op s)) = ''spy '' @ spy_text s"
| "command_text b ExitCommand = ''exit''"

text \<open>
  Commands that can be typed: numbers in range, registers of the machine, and no global symbol
  that hides a key word.
\<close>

definition no_global :: "debug_symbol \<Rightarrow> string \<Rightarrow> bool" where
  "no_global ds k \<longleftrightarrow> ds_get_global ds k = None"

fun typable_watching :: "build \<Rightarrow> debug_symbol \<Rightarrow> watching_kind \<Rightarrow> bool" where
  "typable_watching b ds (WatchReg r) \<longleftrightarrow> reg_inner r < max_reg_id b"
| "typable_watching b ds (WatchFReg r) \<longleftrightarrow> freg_inner r < max_reg_id b"
| "typable_watching b ds (WatchMemAddr a) \<longleftrightarrow> addr_inner a < 2 ^ 64"
| "typable_watching b ds (WatchRegFile k) \<longleftrightarrow> no_global ds ''regs'' \<and> no_global ds ''int'' \<and> no_global ds ''float''"

fun typable_show :: "build \<Rightarrow> show_kind \<Rightarrow> bool" where
  "typable_show b (ShowMemory a) \<longleftrightarrow> addr_inner a < 2 ^ 64"
| "typable_show b (RegisterI r) \<longleftrightarrow> reg_inner r < max_reg_id b"
| "typable_show b (RegisterF r) \<longleftrightarrow> freg_inner r < max_reg_id b"
| "typable_show b IsTraceEnabled \<longleftrightarrow> False"
| "typable_show b ShowWatchings \<longleftrightarrow> False"
| "typable_show b (AddedSpy s) \<longleftrightarrow> False"
| "typable_show b (RemovedSpy s) \<longleftrightarrow> False"
| "typable_show b _ \<longleftrightarrow> True"

fun typable :: "build \<Rightarrow> debug_symbol \<Rightarrow> command \<Rightarrow> bool" where
  "typable b ds (Dynamic (Some (SkipUntil a))) \<longleftrightarrow> addr_inner a < 2 ^ 64"
| "typable b ds (Dynamic (Some (RunStep r))) \<longleftrightarrow> (case step r of None \<Rightarrow> True | Some n \<Rightarrow> n < 2 ^ 64)"
| "typable b ds (Static (Show k)) \<longleftrightarrow> typable_show b k"
| "typable b ds (Static (AddBp bp)) \<longleftrightarrow> addr_inner (bp_addr bp) < 2 ^ 64 \<and> bp = break_point_new (bp_addr bp)"
| "typable b ds (Static (RemoveBp a)) \<longleftrightarrow> addr_inner a < 2 ^ 64 \<and> no_global ds ''rm''"
| "typable b ds (Static (Watch op w)) \<longleftrightarrow> typable_watching b ds w"
| "typable b ds (Static (SpyCommand op s)) \<longleftrightarrow>
     op = Add \<and> spy_watch s \<in> {spy_read, spy_write, spy_read OR spy_write}
     \<and> (\<exists>a < 2 ^ 64. spy_target s = SpyMemory \<lparr>spy_addr = a, expire_at = None\<rparr>)"
| "typable b ds _ \<longleftrightarrow> True"

section \<open>Reading commands back\<close>

lemma lit_simps:
  "lit [] s = Matched () s" "lit (c # w) [] = NoMatch" "lit (c # w) (d # s) = (if c = d then lit w s else NoMatch)"
  by (simp_all add: lit_def)

lemma lit_plain: "plain_name x \<Longrightarrow> w \<in> set key_words \<Longrightarrow> lit w (x @ nl) = NoMatch"
  by (simp add: plain_name_def lit_def)

lemma ws_simps:
  "t \<noteq> [] \<Longrightarrow> \<not> is_ws (hd t) \<Longrightarrow> many1 is_ws (CHR '' '' # t) = Matched '' '' t"
  "many1 is_ws nl = Matched nl []" "many is_ws nl = Matched nl []" "many1 is_ws [] = NoMatch" "ends nl"
  "\<not> is_ws c \<Longrightarrow> many is_ws (c # t) = Matched [] (c # t)" "\<not> is_ws c \<Longrightarrow> many1 is_ws (c # t) = NoMatch"
  by (auto simp: many1_def many_def is_ws_def nl_def ends_def neq_Nil_conv takeWhile_eq_Nil_iff dropWhile_eq_self_iff)

lemmas peg_steps = peg_ret_def peg_bind_def peg_seq_def peg_or_def peg_opt_def peg_not_def lit_simps

lemma plain_head: "plain_name x \<Longrightarrow> x \<noteq> [] \<and> \<not> is_ws (hd x)"
  using ws_no_token(4) by (auto simp: plain_name_def ident_name_def)

lemma addr_head: "show_addr a \<noteq> []" "\<not> is_ws (hd (show_addr a @ s))" "\<exists>x. show_addr a = CHR ''0'' # x"
  by (simp_all add: show_addr_def show_hex_010_def is_ws_def)

lemma ws_before: "x \<noteq> [] \<Longrightarrow> \<not> is_ws (hd x) \<Longrightarrow> many1 is_ws (CHR '' '' # x @ s) = Matched '' '' (x @ s)"
  by (rule ws_simps(1)) simp_all

lemma ws_before_addr: "many1 is_ws (CHR '' '' # show_addr a @ s) = Matched '' '' (show_addr a @ s)"
  using addr_head(1) addr_head(2) [of a "[]"] by (intro ws_before) simp_all

lemma fails_on_addr:
  "rule_ident (show_addr a @ s) = NoMatch" "lit (c # w) (show_addr a @ s) = (if c = CHR ''0'' then lit w (tl (show_addr a @ s)) else NoMatch)"
  by (simp_all add: show_addr_def show_hex_010_def rule_ident_def peg_bind_def char_class_def is_ascii_alphabetic_def lit_simps)

lemma regfile_kind_plain:
  assumes "plain_name x"
  shows "rule_regfile_kind (x @ nl) = NoMatch"
proof -
  obtain c d y where x: "x = c # d # y"
    using assms by (cases x; cases "tl x") (auto simp: plain_name_def)
  have "\<not> is_ws d" using assms ws_no_token [of d] by (auto simp: x plain_name_def ident_name_def)
  then have d: "many1 is_ws (d # y @ nl) = NoMatch" by (rule ws_simps)
  have f: "lit ''f'' (x @ nl) = NoMatch \<or> lit ''f'' (x @ nl) = Matched () (d # y @ nl)" by (simp add: x lit_simps)
  have w: "lit w (x @ nl) = NoMatch" if "w \<in> set key_words" for w by (rule lit_plain [OF assms that])
  have ws: "lit ''register'' (x @ nl) = NoMatch" "lit ''reg'' (x @ nl) = NoMatch" "lit ''integer'' (x @ nl) = NoMatch"
      "lit ''int'' (x @ nl) = NoMatch" "lit ''i'' (x @ nl) = NoMatch" "lit ''floating'' (x @ nl) = NoMatch"
      "lit ''float'' (x @ nl) = NoMatch"
    by (simp_all add: w key_words_def)
  from d f show ?thesis
    by (auto simp: rule_regfile_kind_def rule_allregs_def rule_iregs_def rule_fregs_def plural_def rule_reg_def ws
        peg_ret_def peg_bind_def peg_seq_def peg_or_def)
qed

lemma bank_shown:
  "rule_regfile_kind (bank_text k @ nl) = Matched k nl"
  by (cases k)
    (simp_all add: bank_text_def rule_regfile_kind_def rule_allregs_def rule_iregs_def rule_fregs_def plural_def rule_reg_def
      peg_steps ws_simps is_ws_def)

lemma id_of_inner: "RegId (word_of_nat (reg_inner r)) = r" "FRegId (word_of_nat (freg_inner f)) = f"
  by (cases r; simp) (cases f; simp)

lemma wide_bank_words:
  "list_all (\<lambda>x. x \<notin> set (abiname_table wide) \<and> x \<notin> set (f_abiname_table wide)) [''regs'', ''int'', ''float'']"
  by code_simp

lemma bank_words:
  assumes "x \<in> {''regs'', ''int'', ''float''}"
  shows "x \<notin> set (abiname_table b)" "x \<notin> set (f_abiname_table b)"
  using wide_bank_words tables_in_wide [of b] assms unfolding list_all_iff by auto

lemma names_plain:
  "n < max_reg_id b \<Longrightarrow> plain_name (abiname_table b ! n)" "n < max_reg_id b \<Longrightarrow> plain_name (f_abiname_table b ! n)"
  by (metis length_abiname_table nth_mem plain_names(1), metis length_f_abiname_table nth_mem plain_names(2))

lemma watch_kind_shown:
  assumes "typable_watching b ds w"
  shows "rule_watch_kind b ds (watching_text b w @ nl) = Matched w nl"
proof (cases w)
  case (WatchReg r)
  then show ?thesis
    using assms rule_reg_name_shown [of "reg_inner r" b nl]
    by (simp add: rule_watch_kind_def peg_steps ws_simps id_of_inner)
next
  case (WatchFReg r)
  then show ?thesis
    using assms rule_freg_name_shown [of "freg_inner r" b nl]
    by (simp add: rule_watch_kind_def peg_steps ws_simps id_of_inner)
next
  case (WatchMemAddr a)
  then show ?thesis
    using assms rule_addr_shown [of a nl ds]
    by (simp add: rule_watch_kind_def rule_reg_name_def rule_freg_name_def peg_steps ws_simps fails_on_addr)
next
  case (WatchRegFile k)
  let ?x = "case k of RegFileAll \<Rightarrow> ''regs'' | RegFileI \<Rightarrow> ''int'' | RegFileF \<Rightarrow> ''float''"
  let ?rest = "case k of RegFileAll \<Rightarrow> nl | _ \<Rightarrow> '' regs'' @ nl"
  have ident: "rule_ident (bank_text k @ nl) = Matched ?x ?rest"
    by (cases k) (simp_all add: bank_text_def rule_ident_def peg_bind_def char_class_def many_def peg_ret_def
      is_ascii_alphabetic_def is_digit_def nl_def)
  have none: "abiname_lookup b ?x = None" "f_abiname_lookup b ?x = None" "ds_get_global ds ?x = None"
    using bank_words [of ?x b] assms WatchRegFile
    by (auto simp: abiname_lookup_def f_abiname_lookup_def no_global_def intro!: lookup_missing split: show_reg_file_kind.split)
  have "rule_reg_name b (bank_text k @ nl) = NoMatch"
    using ident none by (cases k) (simp_all add: rule_reg_name_def regid_try_from_str_def peg_check_def bank_text_def peg_steps)
  moreover have "rule_freg_name b (bank_text k @ nl) = NoMatch"
    using ident none
    by (cases k) (simp_all add: rule_freg_name_def fregid_try_from_str_def peg_check_def bank_text_def peg_steps rule_unsigned_def
      many1_def is_ws_def is_digit_def)
  moreover have "rule_addr ds (bank_text k @ nl) = NoMatch"
    using ident none by (cases k) (simp_all add: rule_addr_def rule_radix_def peg_check_def bank_text_def peg_steps)
  ultimately show ?thesis
    using WatchRegFile by (simp add: rule_watch_kind_def peg_steps bank_shown)
qed

lemma show_kind_shown:
  assumes "typable_show b k"
  shows "rule_show_kind b ds (show_text b k @ nl) = Matched k nl"
proof (cases k)
  case (ShowMemory a)
  then show ?thesis
    using assms rule_addr_shown [of a nl ds]
    by (simp add: rule_show_kind_def rule_regfile_kind_def rule_allregs_def rule_iregs_def rule_fregs_def plural_def
        rule_reg_def rule_bp_def rule_mem_def peg_steps ws_before_addr ws_simps)
next
  case (ShowRegFile rk)
  then show ?thesis using bank_shown [of rk] by (cases rk) (simp_all add: rule_show_kind_def peg_steps bank_text_def)
next
  case (RegisterI r)
  then have r: "reg_inner r < max_reg_id b" using assms by simp
  have x: "plain_name (abiname_table b ! reg_inner r)" by (rule names_plain(1) [OF r])
  show ?thesis
    using RegisterI regfile_kind_plain [OF x] rule_reg_name_shown [OF r ws_simps(5)]
    by (simp add: rule_show_kind_def rule_bp_def rule_mem_def peg_steps lit_plain [OF x] key_words_def id_of_inner)
next
  case (RegisterF r)
  then have r: "freg_inner r < max_reg_id b" using assms by simp
  have x: "plain_name (f_abiname_table b ! freg_inner r)" by (rule names_plain(2) [OF r])
  show ?thesis
    using RegisterF regfile_kind_plain [OF x] rule_freg_name_shown [OF r ws_simps(5)]
    by (simp add: rule_show_kind_def rule_bp_def rule_mem_def peg_steps lit_plain [OF x] key_words_def id_of_inner)
next
  case (LabelDefNearPc f)
  then show ?thesis
    by (simp add: rule_show_kind_def rule_regfile_kind_def rule_allregs_def rule_iregs_def rule_fregs_def plural_def
        rule_reg_def rule_bp_def rule_folded_def peg_steps ws_simps is_ws_def)
next
  case (ShowStat j)
  then show ?thesis
    by (cases j) (simp add: rule_show_kind_def rule_regfile_kind_def rule_allregs_def rule_iregs_def rule_fregs_def plural_def
        rule_reg_def rule_bp_def rule_mem_def peg_steps)
qed (use assms in \<open>simp_all add: rule_show_kind_def rule_regfile_kind_def rule_allregs_def rule_iregs_def rule_fregs_def
  plural_def rule_reg_def rule_bp_def peg_steps\<close>)

lemma spy_shown:
  assumes "typable b ds (Static (SpyCommand op s))"
  shows "rule_spy ds (spy_text s @ nl) = Matched s nl" "spy_text s \<noteq> []" "hd (spy_text s) \<in> set ''rw''"
proof -
  obtain a where a: "a < 2 ^ 64" "spy_target s = SpyMemory \<lparr>spy_addr = a, expire_at = None\<rparr>"
    and k: "spy_watch s \<in> {spy_read, spy_write, spy_read OR spy_write}"
    using assms by auto
  have eq: "s = \<lparr>spy_watch = spy_watch s, spy_target = SpyMemory \<lparr>spy_addr = a, expire_at = None\<rparr>\<rparr>"
    using a(2) by simp
  show "rule_spy ds (spy_text s @ nl) = Matched s nl"
    using k rule_addr_shown [of "Addr a" nl ds] a
    by (subst (2) eq) (auto simp: rule_spy_def rule_read_def rule_write_def rule_spy_kind_def rule_mem_def kind_contains_def
        spy_read_def spy_write_def peg_steps ws_simps ws_before_addr is_ws_def)
  show "spy_text s \<noteq> []" "hd (spy_text s) \<in> set ''rw''"
    using k by (auto simp: kind_contains_def spy_read_def spy_write_def)
qed

lemma watching_head:
  assumes "typable_watching b ds w"
  shows "watching_text b w \<noteq> []" "\<not> is_ws (hd (watching_text b w))"
proof -
  have "watching_text b w \<noteq> [] \<and> \<not> is_ws (hd (watching_text b w))"
  proof (cases w)
    case (WatchReg r)
    then show ?thesis using assms plain_head names_plain(1) by simp
  next
    case (WatchFReg r)
    then show ?thesis using assms plain_head names_plain(2) by simp
  next
    case (WatchMemAddr a)
    then show ?thesis using addr_head(1) [of a] addr_head(2) [of a "[]"] by simp
  next
    case (WatchRegFile k)
    then show ?thesis by (cases k) (simp_all add: bank_text_def is_ws_def)
  qed
  then show "watching_text b w \<noteq> []" "\<not> is_ws (hd (watching_text b w))" by blast+
qed

lemma show_head:
  assumes "typable_show b k"
  shows "show_text b k \<noteq> []" "\<not> is_ws (hd (show_text b k))"
proof -
  have "show_text b k \<noteq> [] \<and> \<not> is_ws (hd (show_text b k))"
  proof (cases k)
    case (RegisterI r)
    then show ?thesis using assms plain_head names_plain(1) by simp
  next
    case (RegisterF r)
    then show ?thesis using assms plain_head names_plain(2) by simp
  next
    case (ShowRegFile j)
    then show ?thesis by (cases j) (simp_all add: bank_text_def is_ws_def)
  qed (use assms in \<open>simp_all add: is_ws_def\<close>)
  then show "show_text b k \<noteq> []" "\<not> is_ws (hd (show_text b k))" by blast+
qed

lemma static_command_shown:
  assumes "typable b ds (Static c)"
  shows "rule_static_command b ds (command_text b (Static c) @ nl) = Matched c nl"
proof (cases c)
  case (Watch op w)
  then have w: "typable_watching b ds w" using assms by (cases op) simp_all
  show ?thesis
    using Watch watch_kind_shown [OF w] ws_before [OF watching_head [OF w]]
    by (cases op) (simp_all add: rule_static_command_def rule_bp_def peg_steps)
next
  case (SpyCommand op s)
  then have op: "op = Add" and t: "typable b ds (Static (SpyCommand op s))" using assms by auto
  have h: "\<not> is_ws (hd (spy_text s))" "lit ''on'' (spy_text s @ nl) = NoMatch"
    using spy_shown(2,3) [OF t] by (cases "spy_text s"; auto simp: is_ws_def lit_simps)+
  show ?thesis
    using SpyCommand op spy_shown(1) [OF t] ws_before [OF spy_shown(2) [OF t] h(1)] h(2)
    by (simp add: rule_static_command_def rule_bp_def peg_steps del: spy_text.simps)
next
  case (Show k)
  then have k: "typable_show b k" using assms by simp
  show ?thesis
    using Show show_kind_shown [OF k] ws_before [OF show_head [OF k]]
    by (simp add: rule_static_command_def rule_bp_def peg_steps)
next
  case (AddBp bp)
  then show ?thesis
    using assms rule_addr_shown [of "bp_addr bp" nl ds]
    by (simp add: rule_static_command_def rule_bp_def peg_steps ws_before_addr ws_simps)
next
  case (RemoveBp a)
  have "rule_ident (''rm '' @ s) = Matched ''rm'' ('' '' @ s)" for s
    by (simp add: rule_ident_def peg_bind_def char_class_def many_def peg_ret_def is_ascii_alphabetic_def is_digit_def)
  then have "rule_addr ds (''rm '' @ s) = NoMatch" for s
    using assms RemoveBp by (simp add: rule_addr_def rule_radix_def peg_check_def no_global_def peg_steps)
  then show ?thesis
    using assms RemoveBp rule_addr_shown [of a nl ds]
    by (simp add: rule_static_command_def rule_bp_def rule_rm_def peg_steps ws_before_addr ws_simps is_ws_def)
next
  case (UpdateWhetherTrace t)
  then show ?thesis
    by (simp add: rule_static_command_def peg_steps ws_simps is_ws_def)
qed

lemma dyn_command_shown:
  assumes "typable b ds (Dynamic (Some m))"
  shows "rule_dyn_command ds (command_text b (Dynamic (Some m)) @ nl)
    = Matched m (if m = RunStep \<lparr>step = None\<rparr> then [] else nl)"
proof (cases m)
  case (SkipUntil a)
  then show ?thesis
    using assms rule_addr_shown [of a nl ds]
    by (simp add: rule_dyn_command_def peg_steps ws_before_addr ws_simps is_ws_def)
next
  case (RunStep r)
  show ?thesis
  proof (cases "step r")
    case None
    then have "r = \<lparr>step = None\<rparr>" by simp
    then show ?thesis using RunStep
      by (simp add: rule_dyn_command_def rule_radix_def rule_usize_def peg_steps ws_simps char_class_def many1_def [of is_digit])
  next
    case (Some n)
    have r: "r = \<lparr>step = Some n\<rparr>" using Some by simp
    have d: "is_digit (hd (show_nat n))" using is_digit_show_nat [of "hd (show_nat n)" n] by simp
    have h: "\<not> is_ws (hd (show_nat n))" using ws_no_token(2) d by blast
    show ?thesis
      using assms RunStep r rule_usize_shown [of n nl] ws_before [of "show_nat n" nl] h
      by (simp add: rule_dyn_command_def peg_steps ws_simps)
  qed
qed (simp add: rule_dyn_command_def peg_steps)

lemma static_fails:
  assumes "s = [] \<or> hd s \<notin> set ''tbwus''"
  shows "rule_static_command b ds s = NoMatch"
  using assms by (cases s) (auto simp: rule_static_command_def rule_bp_def peg_steps)

lemma static_fails_on_step: "rule_static_command b ds (''st'' @ s) = NoMatch" "rule_static_command b ds (''sk'' @ s) = NoMatch"
  by (simp_all add: rule_static_command_def rule_bp_def peg_steps)

text \<open>
  C31. Commands are read back from their text: for every command that can be typed, with numbers
  in range and no global symbol hiding a key word, its text and a line end are parsed to exactly
  that command, for either instruction set. In particular every address and register name the
  debugger prints can be typed back.
\<close>
theorem command_roundtrip:
  assumes "typable b ds c"
  shows "parse_command b ds (command_text b c @ nl) = Ok c"
proof (cases c)
  case (Static sc)
  obtain x y where xy: "command_text b (Static sc) = x # y" "\<not> is_ws x"
    by (cases "(b, Static sc)" rule: command_text.cases) (auto simp: is_ws_def)
  then show ?thesis
    using assms Static static_command_shown [of b ds sc]
    by (simp add: parse_command_def rule_command_def peg_ret_def peg_bind_def peg_seq_def peg_or_def ws_simps)
next
  case ExitCommand
  then show ?thesis
    by (simp add: parse_command_def rule_command_def static_fails peg_steps ws_simps is_ws_def)
next
  case (Dynamic d)
  show ?thesis
  proof (cases d)
    case None
    then show ?thesis
      using Dynamic by (simp add: parse_command_def rule_command_def static_fails rule_dyn_command_def peg_steps ws_simps many_def [of is_ws "[]"])
  next
    case (Some m)
    then show ?thesis
      using assms Dynamic dyn_command_shown [of b ds m] static_fails_on_step [of b ds]
      by (cases m) (auto simp: parse_command_def rule_command_def static_fails peg_steps ws_simps is_ws_def many_def [of is_ws "[]"])
  qed
qed

theorem command_roundtrip_witness:
  "typable \<lparr>debug_assertions = True, isa_2nd = False\<rparr> debug_symbol_default (Static (AddBp (break_point_new (Addr 16))))
   \<and> parse_command \<lparr>debug_assertions = True, isa_2nd = False\<rparr> debug_symbol_default (''bp 0x00000010'' @ nl)
     = Ok (Static (AddBp (break_point_new (Addr 16))))"
proof -
  let ?c = "Static (AddBp (break_point_new (Addr 16)))"
  have t: "typable \<lparr>debug_assertions = True, isa_2nd = False\<rparr> debug_symbol_default ?c"
    by (simp add: break_point_new_def)
  have digit: "hex_digit 0 = CHR ''0''" "hex_digit (Suc 0) = CHR ''1''"
    by (simp_all add: hex_digit_def char_of_eq_iff take_bit_eq_mod)
  have six: "replicate 6 (CHR ''0'') = ''000000''" by (simp add: eval_nat_numeral)
  have "command_text \<lparr>debug_assertions = True, isa_2nd = False\<rparr> ?c = ''bp 0x00000010''"
    using digit six by (simp add: break_point_new_def show_addr_def show_hex_010_def show_hex.simps [of 16] show_hex.simps [of "Suc 0"])
  with command_roundtrip [OF t] t show ?thesis by simp
qed

section \<open>Lines that cannot panic\<close>

text \<open>
  \<open>calm n p\<close>: on an input with fewer than \<open>n\<close> hexadecimal digits the rule does not panic, and
  what it leaves over has no more of them.
\<close>

definition digit_count :: "string \<Rightarrow> nat" where
  "digit_count s = length (filter is_hex_digit s)"

definition calm :: "nat \<Rightarrow> 'a rule \<Rightarrow> bool" where
  "calm n p \<longleftrightarrow>
     (\<forall>s. digit_count s < n \<longrightarrow>
        (case p s of Matched a rest \<Rightarrow> digit_count rest \<le> digit_count s | NoMatch \<Rightarrow> True | PegPanic x \<Rightarrow> False))"

lemma calmD:
  "calm n p \<Longrightarrow> digit_count s < n \<Longrightarrow>
    case p s of Matched a rest \<Rightarrow> digit_count rest \<le> digit_count s | NoMatch \<Rightarrow> True | PegPanic x \<Rightarrow> False"
  unfolding calm_def by blast

named_theorems calm_intro "rules for grammar rules that do not panic"

lemma calm_bind [calm_intro]:
  assumes "calm n p" "\<And>a. calm n (f a)"
  shows "calm n (peg_bind p f)"
  unfolding calm_def
proof (intro allI impI)
  fix s assume s: "digit_count s < n"
  show "case peg_bind p f s of Matched a rest \<Rightarrow> digit_count rest \<le> digit_count s | NoMatch \<Rightarrow> True | PegPanic x \<Rightarrow> False"
  proof (cases "p s")
    case (Matched a rest)
    then have le: "digit_count rest \<le> digit_count s" using calmD [OF assms(1) s] by simp
    then have "case f a rest of Matched a t \<Rightarrow> digit_count t \<le> digit_count rest | NoMatch \<Rightarrow> True | PegPanic x \<Rightarrow> False"
      using calmD [OF assms(2), of rest a] s by simp
    then show ?thesis using Matched le by (cases "f a rest") (simp_all add: peg_bind_def)
  next
    case (PegPanic x)
    then show ?thesis using calmD [OF assms(1) s] by simp
  qed (simp add: peg_bind_def)
qed

lemma calm_seq [calm_intro]: "calm n p \<Longrightarrow> calm n q \<Longrightarrow> calm n (peg_seq p q)"
  unfolding peg_seq_def by (rule calm_bind)

lemma calm_or [calm_intro]: "calm n p \<Longrightarrow> calm n q \<Longrightarrow> calm n (peg_or p q)"
  unfolding calm_def peg_or_def by (fastforce split: peg.splits)

lemma calm_opt [calm_intro]: "calm n p \<Longrightarrow> calm n (peg_opt p)"
  unfolding calm_def peg_opt_def by (fastforce split: peg.splits)

lemma calm_not [calm_intro]: "calm n p \<Longrightarrow> calm n (peg_not p)"
  unfolding calm_def peg_not_def by (fastforce split: peg.splits)

lemma digit_count_drop: "digit_count (drop k s) \<le> digit_count s" "digit_count (dropWhile P s) \<le> digit_count s"
proof -
  have "digit_count s = digit_count (take k s) + digit_count (drop k s)"
    unfolding digit_count_def by (metis append_take_drop_id filter_append length_append)
  then show "digit_count (drop k s) \<le> digit_count s" by simp
  have "digit_count s = digit_count (takeWhile P s) + digit_count (dropWhile P s)"
    unfolding digit_count_def by (metis filter_append length_append takeWhile_dropWhile_id)
  then show "digit_count (dropWhile P s) \<le> digit_count s" by simp
qed

lemma calm_basic [calm_intro]:
  "calm n (peg_ret a)" "calm n (lit w)" "calm n (many P)" "calm n (many1 P)" "calm n (char_class P)"
  using digit_count_drop
  by (auto simp: calm_def peg_ret_def lit_def many_def many1_def char_class_def digit_count_def split: list.split)

lemma calm_check [calm_intro]: "\<not> is_panic r \<Longrightarrow> calm n (peg_check r)"
  by (cases r) (simp_all add: calm_def peg_check_def)

lemma radix_value_less:
  assumes "\<forall>c \<in> set ds. digit_value c < r" "0 < r"
  shows "radix_value r ds < r ^ length ds"
  using assms
proof (induction ds rule: rev_induct)
  case (snoc c ds)
  then have "radix_value r ds + 1 \<le> r ^ length ds" by simp
  then have "r * (radix_value r ds + 1) \<le> r * r ^ length ds" by (rule mult_le_mono2)
  then show ?case using snoc.prems by (simp add: radix_value_snoc)
qed (simp add: radix_value_def)

lemma calm_number [calm_intro]:
  assumes "\<And>c. P c \<Longrightarrow> is_hex_digit c \<and> digit_value c < r" "0 < r" "r ^ 9 \<le> bound" "\<And>v. calm 10 (g v)"
  shows "calm 10 (peg_bind (many1 P) (\<lambda>ds. peg_bind (number r bound ds) g))"
  unfolding calm_def
proof (intro allI impI)
  fix s assume s: "digit_count s < 10"
  let ?ds = "takeWhile P s"
  have all: "\<forall>c \<in> set ?ds. P c" using set_takeWhileD [of _ P s] by blast
  have "digit_count s = length (filter is_hex_digit ?ds) + digit_count (dropWhile P s)"
    unfolding digit_count_def by (metis filter_append length_append takeWhile_dropWhile_id)
  moreover have "filter is_hex_digit ?ds = ?ds" using all assms(1) by (simp add: filter_id_conv)
  ultimately have "length ?ds \<le> 9" and rest: "digit_count (dropWhile P s) < 10" using s by simp_all
  then have "r ^ length ?ds \<le> r ^ 9" using assms(2) by (intro power_increasing) simp_all
  moreover have "radix_value r ?ds < r ^ length ?ds"
    using all assms(1,2) by (intro radix_value_less) auto
  ultimately have "radix_value r ?ds < bound" using assms(3) by linarith
  then have step: "peg_bind (many1 P) (\<lambda>ds. peg_bind (number r bound ds) g) s
      = (if ?ds = [] then NoMatch else g (radix_value r ?ds) (dropWhile P s))"
    by (simp add: peg_bind_def many1_def number_def)
  have "case g (radix_value r ?ds) (dropWhile P s) of
      Matched a t \<Rightarrow> digit_count t \<le> digit_count (dropWhile P s) | NoMatch \<Rightarrow> True | PegPanic x \<Rightarrow> False"
    by (rule calmD [OF assms(4) rest])
  then show "case peg_bind (many1 P) (\<lambda>ds. peg_bind (number r bound ds) g) s of
      Matched a rest \<Rightarrow> digit_count rest \<le> digit_count s | NoMatch \<Rightarrow> True | PegPanic x \<Rightarrow> False"
    using digit_count_drop(2) [of P s] unfolding step
    by (cases "g (radix_value r ?ds) (dropWhile P s)") simp_all
qed

lemma number_ret: "peg_bind (many1 P) (number r bound) = peg_bind (many1 P) (\<lambda>ds. peg_bind (number r bound ds) peg_ret)"
  by (auto simp: fun_eq_iff peg_bind_def peg_ret_def split: peg.splits)

lemma digit_classes:
  "is_digit c \<Longrightarrow> is_hex_digit c \<and> digit_value c < 10" "is_hex_digit c \<Longrightarrow> digit_value c < 16"
  "is_octal_digit c \<Longrightarrow> is_hex_digit c \<and> digit_value c < 8"
  by (auto simp: is_digit_def is_hex_digit_def is_octal_digit_def digit_value_def Let_def)

lemma calm_numbers [calm_intro]: "calm 10 rule_unsigned" "calm 10 rule_usize" "calm 10 rule_radix"
  unfolding rule_unsigned_def rule_usize_def rule_radix_def number_ret
  by (intro calm_intro; simp add: digit_classes)+

lemma no_panic_conversions [calm_intro]:
  "\<not> is_panic (regid_try_from b n)" "\<not> is_panic (fregid_try_from b n)"
  "\<not> is_panic (regid_try_from_str b x)" "\<not> is_panic (fregid_try_from_str b x)"
  by (simp_all add: regid_try_from_def fregid_try_from_def regid_try_from_str_def fregid_try_from_str_def split: option.split)

lemma calm_names [calm_intro]: "calm 10 rule_ident" "calm 10 (rule_reg_name b)" "calm 10 (rule_freg_name b)" "calm 10 (rule_addr ds)"
  unfolding rule_ident_def rule_reg_name_def rule_freg_name_def rule_addr_def
  by (intro calm_intro; simp split: option.split)+

lemmas rule_word_defs = rule_bp_def rule_reg_def rule_rm_def plural_def rule_allregs_def rule_iregs_def rule_fregs_def
  rule_regfile_kind_def rule_mem_def rule_read_def rule_write_def rule_folded_def

lemma calm_command: "calm 10 (rule_command b ds)"
  unfolding rule_command_def rule_static_command_def rule_dyn_command_def rule_watch_kind_def rule_show_kind_def
    rule_spy_def rule_spy_kind_def rule_word_defs Let_def
  by (intro calm_intro)

text \<open>
  C32. A line with fewer than ten hexadecimal digits never makes the debugger's parser panic,
  whatever else is in it: it is parsed to a command or refused. The bound is sharp: ten digits
  suffice for a register number that does not fit a \<^verbatim>\<open>u32\<close>, which panics instead of
  being refused.
\<close>
theorem parse_never_panics:
  "(digit_count str < 10 \<longrightarrow> \<not> is_panic (parse_command b ds str))
   \<and> parse_command \<lparr>debug_assertions = False, isa_2nd = False\<rparr> debug_symbol_default (''show x4294967296'' @ nl) = Panic UnwrapFailed"
proof -
  let ?b = "\<lparr>debug_assertions = False, isa_2nd = False\<rparr>"
  have missing: "abiname_lookup ?b ''x4294967296'' = None"
    unfolding abiname_lookup_def by (rule lookup_missing) (simp add: abiname_table_def)
  have "digit_count str < 10 \<Longrightarrow> \<not> is_panic (parse_command b ds str)"
    using calm_command [of b ds] by (auto simp: calm_def parse_command_def split: peg.split)
  moreover have "parse_command ?b debug_symbol_default (''show x4294967296'' @ nl) = Panic UnwrapFailed"
    by (simp add: parse_command_def rule_command_def rule_static_command_def rule_show_kind_def rule_word_defs
        rule_reg_name_def rule_ident_def regid_try_from_str_def missing peg_check_def char_class_def many_def many1_def
        rule_unsigned_def number_def radix_value_def digit_value_def is_digit_def is_ascii_alphabetic_def is_ws_def nl_def peg_steps)
  ultimately show ?thesis by blast
qed

theorem parse_never_panics_witness:
  "digit_count (''watch everything'' @ nl) < 10
   \<and> \<not> is_panic (parse_command \<lparr>debug_assertions = True, isa_2nd = True\<rparr> debug_symbol_default (''watch everything'' @ nl))"
  using parse_never_panics [of "''watch everything'' @ nl"] by (simp add: digit_count_def is_hex_digit_def nl_def)

section \<open>Spies cannot be removed\<close>

definition yields :: "('a \<Rightarrow> bool) \<Rightarrow> 'a rule \<Rightarrow> bool" where
  "yields Q p \<longleftrightarrow> (\<forall>s a rest. p s = Matched a rest \<longrightarrow> Q a)"

lemma yields_rules:
  "Q a \<Longrightarrow> yields Q (peg_ret a)" "(\<And>x. yields Q (f x)) \<Longrightarrow> yields Q (peg_bind p f)"
  "yields Q q \<Longrightarrow> yields Q (peg_seq r q)" "yields Q q \<Longrightarrow> yields Q q' \<Longrightarrow> yields Q (peg_or q q')"
  by (auto simp: yields_def peg_ret_def peg_bind_def peg_seq_def peg_or_def split: peg.splits)

lemma static_never_removes: "yields (\<lambda>c. \<forall>s. c \<noteq> SpyCommand Remove s) (rule_static_command b ds)"
  unfolding rule_static_command_def by (intro yields_rules) simp_all

lemma parse_never_removes: "parse_command b ds str \<noteq> Ok (Static (SpyCommand Remove s))"
proof -
  have "rule_command b ds str \<noteq> Matched (Static (SpyCommand Remove s)) rest" for rest
    using static_never_removes [of b ds]
    by (auto simp: rule_command_def yields_def peg_ret_def peg_bind_def peg_seq_def peg_or_def split: peg.splits)
  then show ?thesis by (auto simp: parse_command_def split: peg.splits)
qed

lemma spy_off_adds:
  assumes "typable b ds (Static (SpyCommand Add s))"
  shows "parse_command b ds (''spy off '' @ spy_text s @ nl) = Ok (Static (SpyCommand Add s))"
proof -
  have h: "\<not> is_ws (hd (spy_text s))" using spy_shown(3) [OF assms] by (auto simp: is_ws_def simp del: spy_text.simps)
  have "rule_static_command b ds (''spy off '' @ spy_text s @ nl) = Matched (SpyCommand Add s) nl"
    using spy_shown(1) [OF assms] ws_before [OF spy_shown(2) [OF assms] h]
    by (simp add: rule_static_command_def rule_spy_def [of ds, symmetric] rule_bp_def peg_steps ws_simps is_ws_def del: spy_text.simps)
      (simp add: rule_spy_def rule_read_def rule_write_def peg_steps ws_simps is_ws_def del: spy_text.simps)
  then show ?thesis
    by (simp add: parse_command_def rule_command_def peg_steps ws_simps is_ws_def del: spy_text.simps)
qed

end
