(* ===== verification/Frames.thy ===== *)
theory Frames
  imports Sim_Prelude
begin

text \<open>
  Frame conditions of actions: \<open>keeps R m\<close> says that whatever \<open>m\<close> does, also when it reports an
  error or panics, the state it leaves is related to the state it started from. For a reflexive
  and transitive \<open>R\<close> the rules of the locale carry it over sequencing.
\<close>

section \<open>Frames of actions\<close>

definition keeps :: "('s \<Rightarrow> 's \<Rightarrow> bool) \<Rightarrow> ('s, 'e, 'a) action \<Rightarrow> bool" where
  "keeps R m \<longleftrightarrow> (\<forall>s. R s (snd (m s)))"

lemma keepsD: "keeps R m \<Longrightarrow> m s = (r, s') \<Longrightarrow> R s s'"
  by (metis keeps_def snd_conv)

locale frame_relation =
  fixes R :: "'s \<Rightarrow> 's \<Rightarrow> bool"
  assumes frame_refl: "R s s"
    and frame_trans: "R s t \<Longrightarrow> R t u \<Longrightarrow> R s u"
begin

lemma keeps_ret: "keeps R (act_ret a)" "keeps R (act_panic p)" "keeps R (act_lift r)"
    "keeps R (act_gets f)" "keeps R (act_read g)" "keeps R (act_err e)"
  by (simp_all add: keeps_def act_simps frame_refl)

lemma keeps_bind: "keeps R m \<Longrightarrow> (\<And>a. keeps R (f a)) \<Longrightarrow> keeps R (act_bind m f)"
  unfolding keeps_def act_bind_def by (auto split: prod.splits outcome.splits) (metis frame_trans snd_conv)+

text \<open>The continuation may rely on the results the first action can return.\<close>

lemma keeps_bind_result:
  assumes "keeps R m" "\<And>a s s'. m s = (Ok a, s') \<Longrightarrow> keeps R (f a)"
  shows "keeps R (act_bind m f)"
  unfolding keeps_def
proof
  fix s
  obtain r s1 where m: "m s = (r, s1)" by fastforce
  have "R s s1" by (rule keepsD [OF assms(1) m])
  then show "R s (snd (act_bind m f s))"
    using m assms(2) frame_trans by (cases r) (auto simp: act_bind_def keeps_def)
qed

lemma keeps_attempt: "keeps R m \<Longrightarrow> keeps R (act_attempt m)"
  unfolding keeps_def act_attempt_def by (auto split: prod.splits outcome.splits) (metis snd_conv)+

lemma keeps_map_err: "keeps R m \<Longrightarrow> keeps R (act_map_err g m)"
  unfolding keeps_def act_map_err_def by (auto split: prod.splits) (metis snd_conv)

lemma keeps_zoom: "(\<And>s t. R s (pt t s)) \<Longrightarrow> keeps R (zoom gt pt m)"
  by (simp add: keeps_def zoom_def split: prod.split)

lemma keeps_try: "(\<And>s s'. f s = Ok s' \<Longrightarrow> R s s') \<Longrightarrow> keeps R (act_try f)"
  by (simp add: keeps_def act_try_def frame_refl split: outcome.split)

lemma keeps_with_local:
  assumes "keeps (\<lambda>s s'. R (fst s) (fst s')) m"
  shows "keeps R (with_local t m)"
  unfolding keeps_def
proof
  fix s
  obtain r s1 t1 where m: "m (s, t) = (r, s1, t1)" by (metis surj_pair)
  then have "R s s1" using keepsD [OF assms m] by simp
  then show "R s (snd (with_local t m s))" using m by (cases r) (simp_all add: with_local_def)
qed

lemma keeps_if: "keeps R m \<Longrightarrow> keeps R n \<Longrightarrow> keeps R (if c then m else n)"
  by simp

lemma keeps_modify: "(\<And>s. R s (f s)) \<Longrightarrow> keeps R (act_modify f)"
  by (simp add: keeps_def act_modify_def)

end

section \<open>Errors of actions\<close>

text \<open>\<open>fails_only E m\<close>: every error \<open>m\<close> can report is in \<open>E\<close>.\<close>

definition fails_only :: "('e \<Rightarrow> bool) \<Rightarrow> ('s, 'e, 'a) action \<Rightarrow> bool" where
  "fails_only E m \<longleftrightarrow> (\<forall>s e. fst (m s) = Err e \<longrightarrow> E e)"

abbreviation no_err :: "('s, 'e, 'a) action \<Rightarrow> bool" where
  "no_err \<equiv> fails_only (\<lambda>_. False)"

lemma fails_onlyD: "fails_only E m \<Longrightarrow> m s = (Err e, s') \<Longrightarrow> E e"
  by (metis fails_only_def fst_conv)

lemma fails_weaken: "no_err m \<Longrightarrow> fails_only E m"
  by (simp add: fails_only_def)

lemma fails_bind: "fails_only E m \<Longrightarrow> (\<And>a. fails_only E (f a)) \<Longrightarrow> fails_only E (act_bind m f)"
  unfolding fails_only_def act_bind_def by (auto split: prod.splits outcome.splits) (metis fst_conv)+

lemma fails_bind_result:
  assumes "fails_only E m" "\<And>a s s'. m s = (Ok a, s') \<Longrightarrow> fails_only E (f a)"
  shows "fails_only E (act_bind m f)"
  unfolding fails_only_def
proof (intro allI impI)
  fix s e
  assume err: "fst (act_bind m f s) = Err e"
  obtain r s1 where m: "m s = (r, s1)" by fastforce
  show "E e"
    using err m fails_onlyD [OF assms(1), of s] assms(2) [of s] by (cases r) (auto simp: act_bind_def fails_only_def)
qed

lemma fails_basic: "fails_only E (act_ret a)" "fails_only E (act_panic p)" "fails_only E (act_gets f)"
    "fails_only E (act_attempt m)" "fails_only E (act_modify g)"
  by (auto simp: fails_only_def act_simps split: prod.splits outcome.splits)

lemma fails_lift: "(\<And>e. r = Err e \<Longrightarrow> E e) \<Longrightarrow> fails_only E (act_lift r)"
    "(\<And>s e. g s = Err e \<Longrightarrow> E e) \<Longrightarrow> fails_only E (act_read g)"
    "(\<And>s e. h s = Err e \<Longrightarrow> E e) \<Longrightarrow> fails_only E (act_try h)"
  by (auto simp: fails_only_def act_simps split: outcome.splits)

lemma fails_zoom: "fails_only E m \<Longrightarrow> fails_only E (zoom gt pt m)"
  unfolding fails_only_def zoom_def by (auto split: prod.splits) (metis fst_conv)

lemma map_err_Err: "map_err g r = Err e \<longleftrightarrow> (\<exists>d. r = Err d \<and> e = g d)"
  by (cases r) auto

lemma fails_map_err: "(\<And>e. E (g e)) \<Longrightarrow> fails_only E (act_map_err g m)"
  unfolding fails_only_def act_map_err_def by (auto split: prod.splits simp: map_err_Err)

lemma fails_with_local: "fails_only E m \<Longrightarrow> fails_only E (with_local t m)"
  unfolding fails_only_def with_local_def by (auto split: prod.splits outcome.splits) (metis fst_conv)

section \<open>Results of actions\<close>

definition returns :: "('a \<Rightarrow> bool) \<Rightarrow> ('s, 'e, 'a) action \<Rightarrow> bool" where
  "returns Q m \<longleftrightarrow> (\<forall>s a s'. m s = (Ok a, s') \<longrightarrow> Q a)"

lemma returns_bind: "(\<And>a. returns Q (f a)) \<Longrightarrow> returns Q (act_bind m f)"
  unfolding returns_def act_bind_def by (auto split: prod.splits outcome.splits)

lemma returns_ret: "Q a \<Longrightarrow> returns Q (act_ret a)"
  by (simp add: returns_def act_ret_def)

end
