(* ===== verification/Isa.thy ===== *)
theory Isa
  imports Cpu
begin

text \<open>
  The instruction set as a programmer sees it: registers, data words, program counter and
  devices, and one clause per instruction. No pipeline, cache, predictor, type tags, counters
  or watch points: this is the contract the processor model is compared with.
\<close>

unbundle bit_operations_syntax

section \<open>Architectural state\<close>

record ('i, 'o) arch =
  a_pc :: u32
  a_reg :: "regid \<Rightarrow> u32"
  a_freg :: "fregid \<Rightarrow> f32"
  a_mem :: "nat \<Rightarrow> u32"
  a_in :: 'i
  a_out :: 'o

definition arch_of :: "('i, 'o) cpu \<Rightarrow> ('i, 'o) arch" where
  "arch_of s =
     \<lparr>a_pc = pc_inner (cpu_pc s),
      a_reg = (\<lambda>r. vec_elt (rf_inner (cpu_reg_file s)) (reg_inner r)),
      a_freg = (\<lambda>r. vec_elt (rf_inner_f (cpu_reg_file s)) (freg_inner r)),
      a_mem = mem_word (cpu_memory s), a_in = cpu_input s, a_out = cpu_output s\<rparr>"

text \<open>Register zero of either bank cannot be written.\<close>

definition put_reg :: "regid \<Rightarrow> u32 \<Rightarrow> ('i, 'o) arch \<Rightarrow> ('i, 'o) arch" where
  "put_reg r v a = (if r = RegId 0 then a else a\<lparr>a_reg := (a_reg a)(r := v)\<rparr>)"

definition put_freg :: "fregid \<Rightarrow> f32 \<Rightarrow> ('i, 'o) arch \<Rightarrow> ('i, 'o) arch" where
  "put_freg r v a = (if r = FRegId 0 then a else a\<lparr>a_freg := (a_freg a)(r := v)\<rparr>)"

definition put_mem :: "u32 \<Rightarrow> u32 \<Rightarrow> ('i, 'o) arch \<Rightarrow> ('i, 'o) arch" where
  "put_mem k v a = a\<lparr>a_mem := (a_mem a)(unat k := v)\<rparr>"

definition advance :: "('i, 'o) arch \<Rightarrow> ('i, 'o) arch" where
  "advance a = a\<lparr>a_pc := a_pc a + 4\<rparr>"

definition branch :: "bool \<Rightarrow> u32 \<Rightarrow> ('i, 'o) arch \<Rightarrow> ('i, 'o) arch" where
  "branch c imm a = (if c then a\<lparr>a_pc := a_pc a + imm\<rparr> else advance a)"

definition flag :: "bool \<Rightarrow> u32" where
  "flag c = (if c then 1 else 0)"

section \<open>Integer instructions\<close>

text \<open>Shift amounts are taken modulo 32, and \<^verbatim>\<open>sra\<close> shifts in zeros.\<close>

fun isa_R :: "rinstr \<Rightarrow> u32 \<Rightarrow> u32 \<Rightarrow> u32" where
  "isa_R RAdd x y = x + y"
| "isa_R RSub x y = x - y"
| "isa_R RXor x y = x XOR y"
| "isa_R ROr x y = x OR y"
| "isa_R RAnd x y = x AND y"
| "isa_R RSll x y = push_bit (unat y mod 32) x"
| "isa_R RSra x y = drop_bit (unat y mod 32) x"
| "isa_R RSlt x y = flag (sint x < sint y)"
| "isa_R RMin x y = word_of_int (min (sint x) (sint y))"
| "isa_R RMax x y = word_of_int (max (sint x) (sint y))"

fun isa_I :: "iinstr \<Rightarrow> regid \<Rightarrow> u32 \<Rightarrow> u32 \<Rightarrow> ('i, 'o) arch \<Rightarrow> ('i, 'o) arch" where
  "isa_I Addi rd x imm a = advance (put_reg rd (x + imm) a)"
| "isa_I Xori rd x imm a = advance (put_reg rd (x XOR imm) a)"
| "isa_I Ori rd x imm a = advance (put_reg rd (x OR imm) a)"
| "isa_I Andi rd x imm a = advance (put_reg rd (x AND imm) a)"
| "isa_I Slli rd x imm a = advance (put_reg rd (push_bit (unat imm mod 32) x) a)"
| "isa_I Slti rd x imm a = advance (put_reg rd (flag (sint x < sint imm)) a)"
| "isa_I Lw rd x imm a = advance (put_reg rd (a_mem a (unat (x + imm))) a)"
| "isa_I Jalr rd x imm a = (put_reg rd (a_pc a + 4) a)\<lparr>a_pc := x + imm\<rparr>"

fun isa_B :: "binstr \<Rightarrow> u32 \<Rightarrow> u32 \<Rightarrow> bool" where
  "isa_B Beq x y = (x = y)"
| "isa_B Bne x y = (x \<noteq> y)"
| "isa_B Blt x y = (sint x < sint y)"
| "isa_B Bge x y = (sint y \<le> sint x)"
| "isa_B Bxor x y = (x \<noteq> y)"
| "isa_B Bxnor x y = (x = y)"

fun isa_P :: "pinstr \<Rightarrow> u32 \<Rightarrow> u32 \<Rightarrow> bool" where
  "isa_P Beqi x y = (x = y)"
| "isa_P Bnei x y = (x \<noteq> y)"
| "isa_P Blti x y = (sint x < sint y)"
| "isa_P Bgei x y = (sint y \<le> sint x)"
| "isa_P Bgti x y = (sint y < sint x)"
| "isa_P Blei x y = (sint x \<le> sint y)"

section \<open>Floating-point instructions\<close>

fun isa_E :: "binding \<Rightarrow> einstr \<Rightarrow> f32 \<Rightarrow> f32 \<Rightarrow> f32" where
  "isa_E fpu Fadd x y = f32_add x y"
| "isa_E fpu Fsub x y = f32_sub x y"
| "isa_E fpu Fmul x y = c_fmul fpu x y"
| "isa_E fpu Fdiv x y = c_fdiv fpu x y"
| "isa_E fpu Fsgnj x y = f32_copysign x y"
| "isa_E fpu Fsgnjn x y = f32_copysign x (f32_neg y)"
| "isa_E fpu Fsgnjx x y = f32_copysign x (f32_mul (f32_signum x) (f32_signum y))"

fun isa_G :: "ginstr \<Rightarrow> f32 \<Rightarrow> f32 \<Rightarrow> f32 \<Rightarrow> f32" where
  "isa_G Fmadd x y z = f32_add (f32_mul x y) z"
| "isa_G Fmsub x y z = f32_sub (f32_mul x y) z"
| "isa_G Fnmadd x y z = f32_add (f32_mul (f32_neg x) y) z"
| "isa_G Fnmsub x y z = f32_sub (f32_mul (f32_neg x) y) z"

fun isa_H :: "binding \<Rightarrow> hinstr \<Rightarrow> f32 \<Rightarrow> f32" where
  "isa_H fpu Fsqrt x = c_fsqrt fpu x"
| "isa_H fpu Fhalf x = c_fmul fpu x f32_half"
| "isa_H fpu Ffloor x = c_ffloor fpu x"
| "isa_H fpu Ffrac x = f32_sub x (c_ffloor fpu x)"
| "isa_H fpu Finv x = c_fdiv fpu f32_one x"

fun isa_Y :: "binding \<Rightarrow> yinstr \<Rightarrow> f32 \<Rightarrow> u32" where
  "isa_Y fpu Fiszero x = flag (f32_eq x f32_zero)"
| "isa_Y fpu Fispos x = flag (f32_lt f32_zero x)"
| "isa_Y fpu Fisneg x = flag (f32_lt x f32_zero)"
| "isa_Y fpu Fftoi x = c_fcvtws fpu x"

fun isa_F :: "binding \<Rightarrow> (regid, regid, fregid, fregid) finstr \<Rightarrow> ('i, 'o) arch \<Rightarrow> ('i, 'o) arch" where
  "isa_F fpu (FInstr_E i rd rs1 rs2) a = advance (put_freg rd (isa_E fpu i (a_freg a rs1) (a_freg a rs2)) a)"
| "isa_F fpu (FInstr_G i rd rs1 rs2 rs3) a =
     advance (put_freg rd (isa_G i (a_freg a rs1) (a_freg a rs2) (a_freg a rs3)) a)"
| "isa_F fpu (FInstr_H i rd rs1) a = advance (put_freg rd (isa_H fpu i (a_freg a rs1)) a)"
| "isa_F fpu (FInstr_K Flt rd rs1 rs2) a = advance (put_reg rd (flag (f32_lt (a_freg a rs1) (a_freg a rs2))) a)"
| "isa_F fpu (FInstr_X Fitof rd rs1) a = advance (put_freg rd (c_fcvtsw fpu (a_reg a rs1)) a)"
| "isa_F fpu (FInstr_Y i rd rs1) a = advance (put_reg rd (isa_Y fpu i (a_freg a rs1)) a)"
| "isa_F fpu (FInstr_W Fblt rs1 rs2 imm) a = branch (f32_lt (a_freg a rs1) (a_freg a rs2)) imm a"
| "isa_F fpu (FInstr_W Fbge rs1 rs2 imm) a = branch (f32_ge (a_freg a rs1) (a_freg a rs2)) imm a"
| "isa_F fpu (FInstr_V Fbeqz rs1 imm) a = branch (f32_eq (a_freg a rs1) f32_zero) imm a"
| "isa_F fpu (FInstr_V Fbnez rs1 imm) a = branch (\<not> f32_eq (a_freg a rs1) f32_zero) imm a"
| "isa_F fpu (Flw rd rs1 imm) a = advance (put_freg rd (Bits (a_mem a (unat (a_reg a rs1 + imm)))) a)"
| "isa_F fpu (Fsw rs2 rs1 imm) a = advance (put_mem (a_reg a rs1 + imm) (to_bits (a_freg a rs2)) a)"

section \<open>One instruction\<close>

text \<open>\<open>None\<close>: the instruction has no effect to speak of, because a device refused.\<close>

fun isa_exec ::
  "binding \<Rightarrow> 'i input_trait \<Rightarrow> 'o output_trait \<Rightarrow> decoded_instr \<Rightarrow> ('i, 'o) arch \<Rightarrow> ('i, 'o) arch option" where
  "isa_exec fpu it ot (Instr_R i rd rs1 rs2) a =
     Some (advance (put_reg rd (isa_R i (a_reg a rs1) (a_reg a rs2)) a))"
| "isa_exec fpu it ot (Instr_I i rd rs1 imm) a = Some (isa_I i rd (a_reg a rs1) imm a)"
| "isa_exec fpu it ot (Instr_S Sw rs1 rs2 imm) a = Some (advance (put_mem (a_reg a rs1 + imm) (a_reg a rs2) a))"
| "isa_exec fpu it ot (Instr_B i rs1 rs2 imm) a = Some (branch (isa_B i (a_reg a rs1) (a_reg a rs2)) imm a)"
| "isa_exec fpu it ot (Instr_P i rs1 imm imm2) a = Some (branch (isa_P i (a_reg a rs1) imm2) imm a)"
| "isa_exec fpu it ot (Instr_J Jal rd imm) a = Some ((put_reg rd (a_pc a + 4) a)\<lparr>a_pc := a_pc a + imm\<rparr>)"
| "isa_exec fpu it ot (Instr_IO (Outb rs)) a =
     (case outb ot (ucast (a_reg a rs)) (a_out a) of
        (Ok _, d) \<Rightarrow> Some (advance (a\<lparr>a_out := d\<rparr>)) | _ \<Rightarrow> None)"
| "isa_exec fpu it ot (Instr_IO (Inw rd)) a =
     (case inw it (a_in a) of (Ok v, d) \<Rightarrow> Some (advance (put_reg rd v (a\<lparr>a_in := d\<rparr>))) | _ \<Rightarrow> None)"
| "isa_exec fpu it ot (Instr_IO (Finw rd)) a =
     (case finw it (a_in a) of (Ok v, d) \<Rightarrow> Some (advance (put_freg rd v (a\<lparr>a_in := d\<rparr>))) | _ \<Rightarrow> None)"
| "isa_exec fpu it ot (Instr_F f) a = Some (isa_F fpu f a)"
| "isa_exec fpu it ot (Instr_Misc End) a = Some (advance a)"

end
