(* ===== verification/Cpu_Refines.thy ===== *)
theory Cpu_Refines
  imports Cpu_Boot Isa Frames
begin

text \<open>
  The processor model implements the instruction set: whenever a cycle returns, the
  architectural state moved by exactly one instruction of the contract in \<open>Isa\<close>, whatever the
  state of the pipeline, the cache, the branch predictor, the type tags and the counters.
\<close>

section \<open>The architectural view\<close>

lemma arch_of_microarchitecture [simp]:
  "arch_of (s\<lparr>cpu_cache := c\<rparr>) = arch_of s" "arch_of (s\<lparr>cpu_branch_predictor := p\<rparr>) = arch_of s"
  "arch_of (s\<lparr>pipeline_state := q\<rparr>) = arch_of s" "arch_of (s\<lparr>i_stat := v\<rparr>) = arch_of s"
  "arch_of (s\<lparr>c_stat := cs\<rparr>) = arch_of s" "arch_of (s\<lparr>b_stat := bs\<rparr>) = arch_of s"
  by (simp_all add: arch_of_def)

lemma arch_of_fields [simp]:
  "arch_of (s\<lparr>cpu_pc := p\<rparr>) = (arch_of s)\<lparr>a_pc := pc_inner p\<rparr>"
  "arch_of (s\<lparr>cpu_input := d\<rparr>) = (arch_of s)\<lparr>a_in := d\<rparr>"
  "arch_of (s\<lparr>cpu_output := d'\<rparr>) = (arch_of s)\<lparr>a_out := d'\<rparr>"
  "arch_of (s\<lparr>cpu_memory := m\<rparr>) = (arch_of s)\<lparr>a_mem := mem_word m\<rparr>"
  by (simp_all add: arch_of_def)

lemma arch_of_same_values: "same_values (cpu_reg_file s) rf \<Longrightarrow> arch_of (s\<lparr>cpu_reg_file := rf\<rparr>) = arch_of s"
  by (simp add: arch_of_def same_values_def)

section \<open>Register read\<close>

lemma reg_get_Ok:
  "reg_get r rf = (Ok v, rf') \<Longrightarrow> v = reg_val rf r \<and> same_values rf rf'"
  "reg_get_f f rf = (Ok x, rf') \<Longrightarrow> x = freg_val rf f \<and> same_values rf rf'"
  by (auto simp: reg_get_def reg_get_f_def encounter_read_def vec_incr_def vec_get_def act_simps same_values_def
      split: prod.splits outcome.splits if_splits)

lemma same_values_trans: "same_values a b \<Longrightarrow> same_values b c \<Longrightarrow> same_values a c"
  and same_values_refl [simp]: "same_values a a"
  by (simp_all add: same_values_def)

lemma act_bind_Ok:
  "act_bind m f s = (Ok b, s'') \<longleftrightarrow> (\<exists>a s'. m s = (Ok a, s') \<and> f a s' = (Ok b, s''))"
  by (auto simp: act_bind_def split: prod.splits outcome.splits)

lemma act_ret_Ok: "act_ret a s = (Ok b, s') \<longleftrightarrow> b = a \<and> s' = s"
  by (auto simp: act_ret_def)

lemma zoom_Ok: "zoom gt pt m s = (Ok a, s') \<longleftrightarrow> (\<exists>t. m (gt s) = (Ok a, t) \<and> s' = pt t s)"
  by (auto simp: zoom_def split: prod.splits)

lemma act_try_Ok: "act_try f s = (Ok u, s') \<longleftrightarrow> f s = Ok s'"
  by (auto simp: act_try_def split: outcome.splits)

lemma act_read_Ok: "act_read f s = (Ok a, s') \<longleftrightarrow> f s = Ok a \<and> s' = s"
  by (auto simp: act_read_def)

lemma act_lift_Ok: "act_lift r s = (Ok a, s') \<longleftrightarrow> r = Ok a \<and> s' = s"
  by (auto simp: act_lift_def)

lemma act_gets_Ok: "act_gets f s = (Ok a, s') \<longleftrightarrow> a = f s \<and> s' = s"
  by (auto simp: act_gets_def)

lemma act_modify_Ok: "act_modify f s = (Ok a, s') \<longleftrightarrow> s' = f s"
  by (auto simp: act_modify_def)

lemma act_map_err_Ok: "act_map_err g m s = (Ok a, s') \<longleftrightarrow> m s = (Ok a, s')"
  by (cases "fst (m s)") (auto simp: act_map_err_def split: prod.splits)

lemmas act_Ok = act_bind_Ok act_ret_Ok zoom_Ok act_try_Ok act_read_Ok act_lift_Ok act_gets_Ok act_modify_Ok
  act_map_err_Ok

lemma fetch_finstr_Ok:
  assumes "fetch_finstr f rf = (Ok x, rf')"
  shows "x = map_finstr (reg_val rf) id (freg_val rf) id f \<and> same_values rf rf'"
  using assms by (cases f) (auto simp: act_Ok same_values_def dest!: reg_get_Ok)

lemma fetch_instr_Ok:
  assumes "fetch_instr i rf = (Ok x, rf')"
  shows "x = read_operands rf i \<and> same_values rf rf'"
proof (cases i)
  case (Instr_IO io)
  then show ?thesis using assms by (cases io) (auto simp: act_Ok read_operands_def dest!: reg_get_Ok)
next
  case (Instr_Misc m)
  then show ?thesis using assms by (cases m) (auto simp: act_Ok read_operands_def)
qed (use assms in \<open>auto simp: act_Ok read_operands_def same_values_def dest!: reg_get_Ok fetch_finstr_Ok\<close>)

section \<open>Memory\<close>

lemma on_write_Ok: "on_write b rg a v (m, sp) = (Ok u, m', sp') \<Longrightarrow> mem_inner m' = mem_inner m"
  by (auto simp: on_write_def act_Ok bind_out_Ok_iff split: option.splits)

lemma on_read_Ok: "on_read b rg a (m, sp) = (Ok u, m', sp') \<Longrightarrow> mem_inner m' = mem_inner m"
  by (auto simp: on_read_def act_Ok)

lemma reset_type_Ok: "reset_type a t m = (Ok u, m') \<Longrightarrow> mem_inner m' = mem_inner m"
  by (auto simp: reset_type_def act_Ok)

lemma unify_Ok: "unify a t m = (Ok u, m') \<Longrightarrow> mem_inner m' = mem_inner m"
  by (auto simp: unify_def act_Ok act_err_def split: if_splits)

lemma write_raw_Ok:
  assumes "a < 2 ^ 62" "write_raw a v m = (Ok u, m')"
  shows "m' = set_word a v m"
  using assms(2) unfolding write_raw_def shl_usize_2 [OF assms(1)]
  by (auto simp: act_Ok vec_write_def set_word_def split: if_splits)

lemma mem_word_inner: "mem_inner m' = mem_inner m \<Longrightarrow> mem_word m' = mem_word m"
  by (simp add: mem_word_def fun_eq_iff)

lemma set_word_inner: "mem_inner m' = mem_inner m \<Longrightarrow> mem_word (set_word a v m') = (mem_word m)(a := v)"
  by (simp add: fun_eq_iff mem_word_inner [of m' m])

lemma mem_set_Ok:
  assumes a: "a < 2 ^ 62"
  shows "mem_set b sz rg a v (m, sp) = (Ok u, m', sp') \<Longrightarrow> mem_word m' = (mem_word m)(a := v)"
    and "mem_set_f b sz rg a x (m, sp) = (Ok u, m', sp') \<Longrightarrow> mem_word m' = (mem_word m)(a := to_bits x)"
  unfolding mem_set_def mem_set_f_def
  by (auto simp: act_Ok dest!: on_write_Ok reset_type_Ok write_raw_Ok [OF a] intro!: set_word_inner)

lemma get_raw_Ok: "get_raw_addr m (4 * a) = Ok w \<Longrightarrow> w = mem_word m a"
  by (auto simp: get_raw_addr_def bind_out_Ok_iff vec_slice_def mem_word_def split: if_splits)

lemma slice_Ok: "vec_slice (mem_inner m) (4 * a) 4 = Ok bs \<Longrightarrow> u32_from_le_bytes bs = mem_word m a"
  by (auto simp: vec_slice_def mem_word_def split: if_splits)

lemma mem_get_i_Ok:
  assumes a: "a < 2 ^ 62" and ok: "mem_get_i b sz rg a (m, sp) = (Ok t, m', sp')"
  shows "get_unchecked t = mem_word m a \<and> mem_word m' = mem_word m"
proof -
  obtain t' m1 m2 s2 w where "unify a I32OrUsize m = (Ok t', m1)" "on_read b rg a (m1, sp) = (Ok (), m2, s2)"
    "get_raw_addr m2 (4 * a) = (Ok w :: (memory_access_error, _) outcome)" "t = typed w t'" "m' = m2"
    using ok unfolding mem_get_i_def shl_usize_2 [OF a] by (auto simp: act_Ok)
  then show ?thesis
    using unify_Ok on_read_Ok get_raw_Ok mem_word_inner by (metis get_unchecked_typed)
qed

lemma mem_get_f_Ok:
  assumes a: "a < 2 ^ 62" and ok: "mem_get_f b sz rg a (m, sp) = (Ok x, m', sp')"
  shows "x = Bits (mem_word m a) \<and> mem_word m' = mem_word m"
proof -
  obtain t' m1 m2 s2 bs where "unify a F32 m = (Ok t', m1)" "on_read b rg a (m1, sp) = (Ok (), m2, s2)"
    "vec_slice (mem_inner m2) (4 * a) 4 = (Ok bs :: (memory_access_error, _) outcome)"
    "x = Bits (u32_from_le_bytes bs)" "m' = m2"
    using ok unfolding mem_get_f_def shl_usize_2 [OF a] by (auto simp: act_Ok)
  then show ?thesis
    using unify_Ok on_read_Ok slice_Ok mem_word_inner by metis
qed

section \<open>Retiring an instruction\<close>

definition put_wb :: "write_back_input option \<Rightarrow> ('i, 'o) arch \<Rightarrow> ('i, 'o) arch" where
  "put_wb wb a = (case wb of None \<Rightarrow> a | Some (WbI r v) \<Rightarrow> put_reg r v a | Some (WbF r v) \<Rightarrow> put_freg r v a)"

definition put_ma :: "memory_access_input \<Rightarrow> ('i, 'o) arch \<Rightarrow> ('i, 'o) arch" where
  "put_ma ma a =
     (case ma of
        MaI k v \<Rightarrow> a\<lparr>a_mem := (a_mem a)(k := v)\<rparr> | MaF k x \<Rightarrow> a\<lparr>a_mem := (a_mem a)(k := to_bits x)\<rparr>
      | MaIMem r k \<Rightarrow> a | MaFMem r k \<Rightarrow> a)"

definition loaded :: "memory_access_input \<Rightarrow> ('i, 'o) arch \<Rightarrow> write_back_input option" where
  "loaded ma a =
     (case ma of
        MaIMem r k \<Rightarrow> Some (WbI r (a_mem a k)) | MaFMem r k \<Rightarrow> Some (WbF r (Bits (a_mem a k)))
      | MaI _ _ \<Rightarrow> None | MaF _ _ \<Rightarrow> None)"

definition ma_addr :: "memory_access_input \<Rightarrow> nat" where
  "ma_addr ma = (case ma of MaI k _ \<Rightarrow> k | MaF k _ \<Rightarrow> k | MaIMem _ k \<Rightarrow> k | MaFMem _ k \<Rightarrow> k)"

lemma ma_cache_Ok:
  assumes "ma_cache a (s, sp) = (Ok r, s', sp')"
  shows "arch_of s' = arch_of s" "cpu_reg_file s' = cpu_reg_file s" "mo_wb_in r = None" "cpu_memory s' = cpu_memory s"
  using assms by (auto simp: ma_cache_def act_Ok memory_access_output_default_def Let_def split: if_splits)

lemma ma_finish_Ok:
  assumes "ma_finish r (s, sp) = (Ok r', s', sp')"
  shows "arch_of s' = arch_of s" "mo_wb_in r' = mo_wb_in r"
  using assms by (auto simp: ma_finish_def act_Ok split: if_splits)

lemma on_memory_Ok:
  "on_memory acc (s, sp) = (Ok v, s', sp') \<longleftrightarrow>
     (\<exists>m'. acc (stat_memregion (cpu_reg_file s)) (cpu_memory s, sp) = (Ok v, m', sp') \<and> s' = s\<lparr>cpu_memory := m'\<rparr>)"
  by (auto simp: on_memory_def act_Ok)

lemma ma_step_Ok:
  assumes "act_bind (ma_cache a) (\<lambda>res. act_bind (on_memory acc) (\<lambda>v. act_ret (k res v))) (s, sp) = (Ok r, s1, sp1)"
  shows "\<exists>res v m' sp0 s0 rg. arch_of s0 = arch_of s \<and> mo_wb_in res = None
    \<and> acc rg (cpu_memory s, sp0) = (Ok v, m', sp1) \<and> s1 = s0\<lparr>cpu_memory := m'\<rparr> \<and> r = k res v"
proof -
  obtain res s0 sp0 v where "ma_cache a (s, sp) = (Ok res, s0, sp0)" "on_memory acc (s0, sp0) = (Ok v, s1, sp1)" "r = k res v"
    using assms by (auto simp: act_Ok)
  then show ?thesis using ma_cache_Ok unfolding on_memory_Ok by metis
qed

lemma memory_access_Ok:
  assumes "ma_addr ma < 2 ^ 62" "memory_access b ma (s, sp) = (Ok r, s', sp')"
  shows "arch_of s' = put_ma ma (arch_of s) \<and> mo_wb_in r = loaded ma (arch_of s)"
proof -
  obtain r1 s1 sp1 where arm: "ma_arm b ma (s, sp) = (Ok r1, s1, sp1)" and fin: "ma_finish r1 (s1, sp1) = (Ok r, s', sp')"
    using assms(2) by (auto simp: memory_access_def act_Ok)
  have mem: "a_mem (arch_of s) = mem_word (cpu_memory s)" by (simp add: arch_of_def)
  have "arch_of s1 = put_ma ma (arch_of s) \<and> mo_wb_in r1 = loaded ma (arch_of s)"
  proof (cases ma)
    case (MaI k v)
    then show ?thesis
      using ma_step_Ok [OF arm [unfolded ma_arm_def MaI memory_access_input.case]] assms(1) mem
      by (auto simp: ma_addr_def put_ma_def loaded_def dest!: mem_set_Ok(1) [rotated])
  next
    case (MaF k x)
    then show ?thesis
      using ma_step_Ok [OF arm [unfolded ma_arm_def MaF memory_access_input.case]] assms(1) mem
      by (auto simp: ma_addr_def put_ma_def loaded_def dest!: mem_set_Ok(2) [rotated])
  next
    case (MaIMem i k)
    then show ?thesis
      using ma_step_Ok [OF arm [unfolded ma_arm_def MaIMem memory_access_input.case]] assms(1) mem
      by (auto simp: ma_addr_def put_ma_def loaded_def dest!: mem_get_i_Ok [rotated])
  next
    case (MaFMem i k)
    then show ?thesis
      using ma_step_Ok [OF arm [unfolded ma_arm_def MaFMem memory_access_input.case]] assms(1) mem
      by (auto simp: ma_addr_def put_ma_def loaded_def dest!: mem_get_f_Ok [rotated])
  qed
  then show ?thesis using ma_finish_Ok [OF fin] by simp
qed

lemma reg_inner_zero: "reg_inner r = 0 \<longleftrightarrow> r = RegId 0" "freg_inner f = 0 \<longleftrightarrow> f = FRegId 0"
  by (cases r; simp add: unsigned_eq_0_iff) (cases f; simp add: unsigned_eq_0_iff)

lemma reg_inner_eq: "reg_inner r = reg_inner r' \<longleftrightarrow> r = r'" "freg_inner f = freg_inner f' \<longleftrightarrow> f = f'"
  by (cases r; cases r'; simp add: word_unat_eq_iff) (cases f; cases f'; simp add: word_unat_eq_iff)

lemma write_back_Ok:
  assumes "write_back wb s = (Ok u, s')"
  shows "arch_of s' = put_wb (Some wb) (arch_of s)"
  using assms
  by (cases wb) (auto simp: write_back_def reg_set_def reg_set_f_def set_inner_def encounter_write_def act_Ok vec_set_def
      put_wb_def put_reg_def put_freg_def arch_of_def reg_inner_zero fun_eq_iff reg_inner_eq split: if_splits, metis reg_inner_eq(1))

definition commit :: "execute_output \<Rightarrow> ('i, 'o) arch \<Rightarrow> ('i, 'o) arch" where
  "commit eo a =
     (let a1 = (case eo_new_pc eo of Some v \<Rightarrow> a\<lparr>a_pc := word_of_nat v\<rparr> | None \<Rightarrow> a) in
      case eo_ma_in eo of
        None \<Rightarrow> put_wb (eo_wb_in eo) a1
      | Some ma \<Rightarrow> put_wb (case loaded ma a1 of None \<Rightarrow> eo_wb_in eo | Some wb \<Rightarrow> Some wb) (put_ma ma a1))"

lemma cycle_memory_Ok:
  assumes "cycle_memory b eo s = (Ok (c, st, wb, flow), s')"
    and "\<And>ma. eo_ma_in eo = Some ma \<Longrightarrow> ma_addr ma < 2 ^ 62"
  shows "flow \<noteq> CpuExit \<and> (case eo_ma_in eo of
      None \<Rightarrow> arch_of s' = arch_of s \<and> wb = eo_wb_in eo
    | Some ma \<Rightarrow> arch_of s' = put_ma ma (arch_of s)
        \<and> wb = (case loaded ma (arch_of s) of None \<Rightarrow> eo_wb_in eo | Some w \<Rightarrow> Some w))"
proof (cases "eo_ma_in eo")
  case None
  then show ?thesis using assms(1) by (auto simp: cycle_memory_def act_Ok Let_def)
next
  case (Some ma)
  obtain mo sp where acc: "with_local None (memory_access b ma) s = (Ok (mo, sp), s')"
    and wb: "wb = (if mo_wb_in mo \<noteq> None then mo_wb_in mo else eo_wb_in eo)" and "flow \<noteq> CpuExit"
    using assms(1) Some by (auto simp: cycle_memory_def act_Ok Let_def split: if_splits option.splits)
  have "memory_access b ma (s, None) = (Ok mo, s', sp)"
    using acc by (auto simp: with_local_def split: prod.splits outcome.splits)
  then have "arch_of s' = put_ma ma (arch_of s) \<and> mo_wb_in mo = loaded ma (arch_of s)"
    using memory_access_Ok assms(2) Some by blast
  then show ?thesis using Some wb \<open>flow \<noteq> CpuExit\<close> by (auto split: option.splits)
qed

lemma cycle_retire_Ok:
  assumes "cycle_retire b i eo res s = (Ok res', s')"
    and "\<And>ma. eo_ma_in eo = Some ma \<Longrightarrow> ma_addr ma < 2 ^ 62"
  shows "arch_of s' = commit eo (arch_of s) \<and> cr_flow res' \<noteq> CpuExit"
proof -
  obtain s1 c st wb flow s2 s3 where pc: "(case eo_new_pc eo of
       Some val \<Rightarrow> act_modify (\<lambda>s. s\<lparr>cpu_pc := Pc (word_of_nat val)\<rparr>) | None \<Rightarrow> act_ret ()) s = (Ok () :: (runtime_error, _) outcome, s1)"
    and mem: "cycle_memory b eo s1 = (Ok (c, st, wb, flow), s2)"
    and wbk: "(case wb of Some w \<Rightarrow> write_back w | None \<Rightarrow> act_ret ()) s2 = (Ok (), s3)"
    and fin: "arch_of s' = arch_of s3" "cr_flow res' = flow"
    using assms(1) by (auto simp: cycle_retire_def act_Ok)
  have s1: "arch_of s1 = (case eo_new_pc eo of Some v \<Rightarrow> (arch_of s)\<lparr>a_pc := word_of_nat v\<rparr> | None \<Rightarrow> arch_of s)"
    using pc by (auto simp: act_Ok split: option.splits)
  have s3: "arch_of s3 = put_wb wb (arch_of s2)"
    using wbk write_back_Ok by (auto simp: act_Ok put_wb_def split: option.splits)
  show ?thesis
    using cycle_memory_Ok [OF mem assms(2)] s1 s3 fin by (auto simp: commit_def Let_def split: option.splits)
qed

section \<open>Execute\<close>

lemma exec_branch_Ok:
  assumes "exec_branch old_pc imm c s = (Ok eo, s')"
  shows "arch_of s' = arch_of s \<and> \<not> eo_end eo \<and> eo_ma_in eo = None \<and> eo_wb_in eo = None
    \<and> eo_new_pc eo = (if c then Some (unat (old_pc + imm)) else None)"
  using assms by (auto simp: exec_branch_def act_Ok Let_def execute_output_default_def)

lemma sint_word_of_int [simp]: "word_of_int (sint (w :: u32)) = w"
  by simp

lemma xor_zero_iff: "x XOR y = 0 \<longleftrightarrow> x = (y :: u32)"
  by (metis xor.assoc xor.right_neutral xor_self_eq)

lemma cond_isa: "cond_B i x y = isa_B i x y" "cond_P j x y = isa_P j x y"
  by (cases i; simp add: xor_zero_iff) (cases j; auto)

lemma alu_R_isa: "alu_R b i x y = Ok v \<Longrightarrow> v = isa_R i x y"
  by (cases i) (auto simp: shl_u32_def shr_u32_def flag_def min_def max_def split: if_splits)

text \<open>
  What an execution leaves for retirement, compared with the contract: the state is the one
  after the fetch, whose program counter is already advanced.
\<close>

definition implements ::
  "binding \<Rightarrow> 'i input_trait \<Rightarrow> 'o output_trait \<Rightarrow> decoded_instr \<Rightarrow> ('i, 'o) arch \<Rightarrow> execute_output \<Rightarrow> ('i, 'o) arch \<Rightarrow> bool" where
  "implements fpu it ot i a eo a' \<longleftrightarrow>
     (\<forall>ma. eo_ma_in eo = Some ma \<longrightarrow> ma_addr ma < 2 ^ 62)
     \<and> (if i = Instr_Misc End then eo_end eo \<and> a' = advance a
        else \<not> eo_end eo \<and> isa_exec fpu it ot i a = Some (commit eo a'))"

lemma put_pc [simp]:
  "put_reg r v (a\<lparr>a_pc := p\<rparr>) = (put_reg r v a)\<lparr>a_pc := p\<rparr>" "put_freg f x (a\<lparr>a_pc := p\<rparr>) = (put_freg f x a)\<lparr>a_pc := p\<rparr>"
  "put_mem k v (a\<lparr>a_pc := p\<rparr>) = (put_mem k v a)\<lparr>a_pc := p\<rparr>" "a_pc (put_reg r v a) = a_pc a"
  "a_pc (put_freg f x a) = a_pc a" "a_pc (put_mem k v a) = a_pc a"
  by (cases a; simp add: put_reg_def put_freg_def put_mem_def)+

lemma put_ma_store: "put_ma (MaI (unat k) v) a = put_mem k v a" "put_ma (MaF (unat k) x) a = put_mem k (to_bits x) a"
  by (simp_all add: put_ma_def put_mem_def)

lemma unat_small [simp]: "unat (w :: u32) < 4611686018427387904"
  by (rule less_trans [OF unat_u32_less]) simp

lemmas implements_simps = implements_def commit_def put_wb_def put_ma_store loaded_def ma_addr_def
  execute_output_default_def advance_def branch_def

lemma exec_R_implements:
  assumes "exec_R b i rd (a_reg a rs1) (a_reg a rs2) = Ok eo"
  shows "implements fpu it ot (Instr_R i rd rs1 rs2) a eo (advance a)"
  using assms by (auto simp: exec_R_def bind_out_Ok_iff implements_simps dest!: alu_R_isa)

lemma put_ma_load: "put_ma (MaIMem r k) a = a" "put_ma (MaFMem f k) a = a"
  by (simp_all add: put_ma_def)

lemma exec_I_implements:
  assumes "exec_I b j rd (a_reg a rs1) imm (a_pc a + 4) = Ok eo"
  shows "implements fpu it ot (Instr_I j rd rs1 imm) a eo (advance a)"
  using assms
  by (cases j) (auto simp: exec_I_def Let_def bind_out_Ok_iff implements_simps put_ma_load shl_u32_def flag_def split: if_splits)

lemma exec_S_implements: "implements fpu it ot (Instr_S i rs1 rs2 imm) a (exec_S i (a_reg a rs1) (a_reg a rs2) imm) (advance a)"
  by (cases i) (auto simp: exec_S_def Let_def implements_simps)

lemma exec_J_implements: "implements fpu it ot (Instr_J i rd imm) a (exec_J i rd imm (a_pc a) (a_pc a + 4)) (advance a)"
  by (cases i) (auto simp: exec_J_def Let_def implements_simps)

lemma branch_implements:
  assumes "exec_branch (a_pc a) imm c s = (Ok eo, s')" "arch_of s = advance a"
    "isa_exec fpu it ot i a = Some (branch c imm a)" "i \<noteq> Instr_Misc End"
  shows "implements fpu it ot i a eo (arch_of s')"
proof -
  have "arch_of s' = advance a" "\<not> eo_end eo" "eo_ma_in eo = None" "eo_wb_in eo = None"
    "eo_new_pc eo = (if c then Some (unat (a_pc a + imm)) else None)"
    using exec_branch_Ok [OF assms(1)] assms(2) by simp_all
  then show ?thesis
    using assms(3,4) by (simp add: implements_def commit_def put_wb_def branch_def) (simp add: advance_def)
qed

lemma advance_devices:
  "(advance a)\<lparr>a_in := d\<rparr> = advance (a\<lparr>a_in := d\<rparr>)" "(advance a)\<lparr>a_out := d'\<rparr> = advance (a\<lparr>a_out := d'\<rparr>)"
  by (simp_all add: advance_def)

lemma advance_put: "put_reg r v (advance a) = advance (put_reg r v a)" "put_freg f x (advance a) = advance (put_freg f x a)"
  by (simp_all add: advance_def)

lemma exec_IO_implements:
  assumes ok: "exec_IO it ot (map_ioinstr (a_reg a) id id io) s = (Ok eo, s')" and s: "arch_of s = advance a"
  shows "implements fpu it ot (Instr_IO io) a eo (arch_of s')"
proof -
  have dev: "cpu_input s = a_in a" "cpu_output s = a_out a"
    using arg_cong [OF s, of a_in] arg_cong [OF s, of a_out] by (simp_all add: arch_of_def advance_def)
  show ?thesis
  proof (cases io)
    case (Outb rs)
    then obtain d where "outb ot (ucast (a_reg a rs)) (a_out a) = (Ok (), d)" "s' = s\<lparr>cpu_output := d\<rparr>"
      and eo: "eo = execute_output_default\<lparr>eo_wb_in := None, eo_cycles := 1\<rparr>"
      using ok by (auto simp: exec_IO_def act_Ok dev execute_output_default_def)
    then show ?thesis
      using Outb by (simp add: implements_def commit_def execute_output_default_def put_wb_def s advance_devices advance_put)
  next
    case (Inw rd)
    then obtain v d where "inw it (a_in a) = (Ok v, d)" "s' = s\<lparr>cpu_input := d\<rparr>"
      and eo: "eo = execute_output_default\<lparr>eo_wb_in := Some (WbI rd v), eo_cycles := 1\<rparr>"
      using ok by (auto simp: exec_IO_def act_Ok dev)
    then show ?thesis
      using Inw by (simp add: implements_def commit_def execute_output_default_def put_wb_def s advance_devices advance_put)
  next
    case (Finw rd)
    then obtain v d where "finw it (a_in a) = (Ok v, d)" "s' = s\<lparr>cpu_input := d\<rparr>"
      and eo: "eo = execute_output_default\<lparr>eo_wb_in := Some (WbF rd v), eo_cycles := 1\<rparr>"
      using ok by (auto simp: exec_IO_def act_Ok dev)
    then show ?thesis
      using Finw by (simp add: implements_def commit_def execute_output_default_def put_wb_def s advance_devices advance_put)
  qed
qed

lemmas fpu_defs = fpu_fmul_def fpu_fdiv_def fpu_fsqrt_def fpu_fcvtsw_def fpu_fcvtws_def fpu_ffloor_def
  fpu_fhalf_def fpu_ffrac_def fpu_finv_def

lemma exec_F_implements:
  assumes ok: "exec_F b fpu (map_finstr (a_reg a) id (a_freg a) id f) (a_pc a) s = (Ok eo, s')" and s: "arch_of s = advance a"
  shows "implements fpu it ot (Instr_F f) a eo (arch_of s')"
proof (cases f)
  case (FInstr_E i rd rs1 rs2)
  then show ?thesis using ok by (cases i) (auto simp: exec_F_def exec_E_def act_Ok s implements_simps fpu_defs)
next
  case (FInstr_G i rd rs1 rs2 rs3)
  then show ?thesis
    using ok by (cases i) (auto simp: exec_F_def exec_G_def act_Ok s implements_simps split: if_splits)
next
  case (FInstr_H i rd rs1)
  then show ?thesis
    using ok by (cases i) (auto simp: exec_F_def exec_H_def act_Ok s implements_simps fpu_defs)
next
  case (FInstr_K i rd rs1 rs2)
  then show ?thesis using ok by (cases i) (auto simp: exec_F_def exec_K_def act_Ok s implements_simps flag_def)
next
  case (FInstr_X i rd rs1)
  then show ?thesis using ok by (cases i) (auto simp: exec_F_def exec_X_def act_Ok s implements_simps fpu_defs)
next
  case (FInstr_Y i rd rs1)
  then show ?thesis
    using ok by (cases i) (auto simp: exec_F_def exec_Y_def act_Ok s implements_simps fpu_defs flag_def)
next
  case (FInstr_W i rs1 rs2 imm)
  then show ?thesis
    using ok by (cases i) (auto simp: exec_F_def exec_W_def intro!: branch_implements [OF _ s])
next
  case (FInstr_V i rs1 imm)
  then show ?thesis
    using ok by (cases i) (auto simp: exec_F_def exec_V_def intro!: branch_implements [OF _ s])
next
  case (Flw rd rs1 imm)
  then show ?thesis using ok by (auto simp: exec_F_def exec_Flw_def act_Ok s implements_simps put_ma_load)
next
  case (Fsw rs2 rs1 imm)
  then show ?thesis using ok by (auto simp: exec_F_def exec_Fsw_def act_Ok s implements_simps)
qed

lemma execute_implements:
  assumes ok: "execute b fpu it ot x s = (Ok eo, s')" and s: "arch_of s = advance a"
    and x: "ex_instr x = map_instr (a_reg a) id (a_freg a) id i" "ex_old_pc x = a_pc a" "ex_pc_plus4 x = a_pc a + 4"
  shows "implements fpu it ot i a eo (arch_of s')"
proof (cases i)
  case (Instr_R j rd rs1 rs2)
  then show ?thesis using ok s x by (auto simp: execute_def act_Ok intro!: exec_R_implements)
next
  case (Instr_I j rd rs1 imm)
  then show ?thesis using ok s x by (auto simp: execute_def act_Ok intro!: exec_I_implements)
next
  case (Instr_S j rs1 rs2 imm)
  then show ?thesis using ok s x by (auto simp: execute_def act_Ok intro!: exec_S_implements)
next
  case (Instr_B j rs1 rs2 imm)
  then show ?thesis
    using ok x by (auto simp: execute_def exec_B_def cond_isa intro!: branch_implements [OF _ s])
next
  case (Instr_P j rs1 imm imm2)
  then show ?thesis
    using ok x by (auto simp: execute_def exec_P_def cond_isa act_panic_def intro!: branch_implements [OF _ s] split: if_splits)
next
  case (Instr_J j rd imm)
  then show ?thesis using ok s x by (auto simp: execute_def act_Ok intro!: exec_J_implements)
next
  case (Instr_IO io)
  then show ?thesis using ok x by (auto simp: execute_def intro!: exec_IO_implements [OF _ s])
next
  case (Instr_F f)
  then show ?thesis using ok x by (auto simp: execute_def intro!: exec_F_implements [OF _ s])
next
  case (Instr_Misc m)
  then show ?thesis
    using ok s x by (cases m) (auto simp: execute_def act_Ok implements_def execute_output_default_def)
qed

section \<open>One cycle\<close>

lemma instr_fetch_Ok:
  assumes "instr_fetch b s = (Ok f, s')"
  shows "get_from_pc (cpu_memory s) (cpu_pc s) = Ok (id_bin (if_id_in f)) \<and> if_old_pc f = cpu_pc s
    \<and> if_pc_plus4 f = Pc (pc_inner (cpu_pc s) + 4) \<and> s' = s\<lparr>cpu_pc := Pc (pc_inner (cpu_pc s) + 4)\<rparr>"
proof -
  have e: "map_err MemoryAccessError r = Ok w \<Longrightarrow> r = Ok w" for r :: "(_, u32) outcome" and w by (cases r) simp_all
  have "pc_incr b p = Ok q \<Longrightarrow> q = Pc (pc_inner p + 4)" for p q and b
    by (auto simp: pc_incr_def add_u32_def bind_out_Ok_iff split: if_splits)
  then show ?thesis using assms by (auto simp: instr_fetch_def act_Ok dest!: e)
qed

lemma cycle_Ok:
  assumes "cycle_one_full b fpu it ot tr s = (Ok res, s')"
  shows "\<exists>w i. get_from_pc (cpu_memory s) (cpu_pc s) = Ok w \<and> decode_from b w = Ok i
    \<and> (if i = Instr_Misc End then cr_flow res = CpuExit \<and> arch_of s' = advance (arch_of s)
       else cr_flow res \<noteq> CpuExit \<and> isa_exec fpu it ot i (arch_of s) = Some (arch_of s'))"
proof -
  obtain f s1 i s2 x s3 eo s4 where f: "instr_fetch b s = (Ok f, s1)"
    and i: "map_err Anyhow (decode_from b (id_bin (if_id_in f))) = Ok i"
    and enc: "zoom i_stat (\<lambda>v s. s\<lparr>i_stat := v\<rparr>) (encounter_instr b i) s1 = (Ok () :: (runtime_error, _) outcome, s2)"
    and x: "reg_fetch \<lparr>rf_instr = i, rf_old_pc = pc_inner (if_old_pc f), rf_pc_plus4 = pc_inner (if_pc_plus4 f)\<rparr> s2 = (Ok x, s3)"
    and eo: "execute b fpu it ot x s3 = (Ok eo, s4)"
    and fin: "(if eo_end eo then act_ret (cycle_result_default\<lparr>cr_trace := cycle_trace tr f i, cr_flow := CpuExit\<rparr>)
        else cycle_retire b i eo (cycle_result_default\<lparr>cr_trace := cycle_trace tr f i\<rparr>)) s4 = (Ok res, s')"
    using assms unfolding cycle_one_full_def Let_def act_bind_Ok act_lift_Ok instr_decode_def by auto
  let ?a = "arch_of s"
  have s1: "arch_of s1 = advance ?a" and pcs: "if_old_pc f = cpu_pc s" "if_pc_plus4 f = Pc (a_pc ?a + 4)"
    using instr_fetch_Ok [OF f] by (simp_all add: advance_def) (simp_all add: arch_of_def)
  have s2: "arch_of s2 = advance ?a" using enc s1 by (auto simp: act_Ok)
  have s3: "arch_of s3 = advance ?a" "ex_instr x = read_operands (cpu_reg_file s2) i"
    "ex_old_pc x = a_pc ?a" "ex_pc_plus4 x = a_pc ?a + 4"
    using x s2 pcs by (auto simp: reg_fetch_def act_Ok arch_of_same_values dest!: fetch_instr_Ok) (simp add: arch_of_def)
  have ops: "read_operands (cpu_reg_file s2) i = map_instr (a_reg ?a) id (a_freg ?a) id i"
    using arg_cong [OF s2, of a_reg] arg_cong [OF s2, of a_freg]
    by (simp add: read_operands_def arch_of_def advance_def)
  have imp: "implements fpu it ot i ?a eo (arch_of s4)"
    using execute_implements [OF eo s3(1)] s3(2-4) ops by simp
  have "decode_from b (id_bin (if_id_in f)) = Ok i" using i by (cases "decode_from b (id_bin (if_id_in f))") simp_all
  then show ?thesis
    using instr_fetch_Ok [OF f] imp fin cycle_retire_Ok
    by (fastforce simp: implements_def act_Ok split: if_splits)
qed

end
