(* ===== verification/Cpu_Progress.thy ===== *)
theory Cpu_Progress
  imports Cpu_Boot Frames Cpu_Refines
begin

text \<open>
  Where an error of a cycle can come from, with its value; when a cycle can panic; and that the
  processor makes progress: every other instruction retires.
\<close>

section \<open>The instructions that can fail\<close>

fun accesses_memory :: "('a, 'b, 'c, 'd) instr \<Rightarrow> bool" where
  "accesses_memory (Instr_I i rd rs imm) = (i = Lw)"
| "accesses_memory (Instr_S i rs1 rs2 imm) = True"
| "accesses_memory (Instr_F (Flw rd rs imm)) = True"
| "accesses_memory (Instr_F (Fsw rs2 rs1 imm)) = True"
| "accesses_memory _ = False"

fun performs_io :: "('a, 'b, 'c, 'd) instr \<Rightarrow> bool" where
  "performs_io (Instr_IO io) = True"
| "performs_io _ = False"

lemma class_map [simp]:
  "accesses_memory (map_instr f g h k i) = accesses_memory i"
  "performs_io (map_instr f g h k i) = performs_io i"
proof -
  show "accesses_memory (map_instr f g h k i) = accesses_memory i"
  proof (cases i)
    case (Instr_F x)
    then show ?thesis by (cases x) simp_all
  qed simp_all
  show "performs_io (map_instr f g h k i) = performs_io i" by (cases i) simp_all
qed

section \<open>Stages without errors\<close>

lemma std_no_err [simp]:
  "vec_get v i \<noteq> Err e" "vec_set v i x \<noteq> Err e" "vec_incr w i \<noteq> Err e" "list_index xs i \<noteq> Err e"
  "shl_u32 b y k \<noteq> Err e" "shr_u32 b y k \<noteq> Err e" "predict n bp a \<noteq> Err e" "calc_stall_cycles j ps \<noteq> Err e"
  "pc_incr b p \<noteq> Err e" "alu_R b r y k \<noteq> Err e"
  "exec_I b j' rd y k q \<noteq> Err e"
proof -
  show "exec_I b j' rd y k q \<noteq> Err e"
    by (cases j') (auto simp: exec_I_def shl_u32_def)
  show "vec_incr w i \<noteq> Err e"
    by (auto simp: vec_incr_def vec_get_def vec_set_def)
  show "alu_R b r y k \<noteq> Err e"
    by (cases r) (auto simp: shl_u32_def shr_u32_def)
qed (auto simp: vec_get_def vec_set_def list_index_def shl_u32_def shr_u32_def predict_def calc_stall_cycles_def
    pc_incr_def add_u32_def)

lemma exec_R_no_err [simp]: "exec_R b i rd x y \<noteq> Err e"
  by (cases i) (auto simp: exec_R_def shl_u32_def shr_u32_def)

lemma exec_branch_no_err: "no_err (exec_branch p imm c)"
proof -
  have "no_err (update_state NUM_COUNTERS q t)" for q t
    unfolding update_state_def by (intro fails_bind fails_lift) simp_all
  then show ?thesis
    unfolding exec_branch_def Let_def by (intro fails_bind fails_basic fails_lift fails_zoom) simp_all
qed

lemma execute_no_err:
  assumes "\<not> performs_io (ex_instr x)"
  shows "no_err (execute b fpu it ot x)"
proof (cases "ex_instr x")
  case (Instr_I i rd v imm)
  then show ?thesis by (auto simp: execute_def intro!: fails_lift)
next
  case (Instr_F f)
  then show ?thesis
    by (cases f) (auto simp: execute_def exec_F_def exec_W_def exec_V_def exec_G_def exec_H_def
        intro!: exec_branch_no_err fails_basic fails_lift split: hinstr.splits)
next
  case (Instr_Misc m)
  then show ?thesis by (cases m) (simp add: execute_def fails_basic)
qed (use assms in \<open>auto simp: execute_def exec_B_def exec_P_def intro!: exec_branch_no_err fails_basic fails_lift\<close>)

lemma ma_cache_no_err: "no_err (ma_cache a)"
proof -
  have "no_err (access_cache n a)" for n a
    unfolding access_cache_def
    by (auto simp: Let_def intro!: fails_bind fails_basic fails_lift)
  then show ?thesis
    unfolding ma_cache_def Let_def by (auto intro!: fails_bind fails_basic fails_zoom)
qed

lemma push_no_err: "no_err (push_instr_to_pipeline_and_get_cycles i)" "no_err (push_bubbles n)"
proof -
  show p: "no_err (push_instr_to_pipeline_and_get_cycles i)" for i
    unfolding push_instr_to_pipeline_and_get_cycles_def Let_def
    by (auto intro!: fails_bind fails_basic fails_lift split: if_splits)
  show "no_err (push_bubbles n)" by (induction n) (auto intro!: fails_bind fails_basic p)
qed

lemma reg_no_err: "no_err (reg_get r)" "no_err (reg_get_f f)" "no_err (reg_set r v)" "no_err (reg_set_f f x)"
proof -
  have "no_err (encounter_read i)" "no_err (encounter_write i)" "no_err (set_inner i v)" for i v
    unfolding encounter_read_def encounter_write_def set_inner_def by (auto intro!: fails_zoom fails_lift)
  then show "no_err (reg_get r)" "no_err (reg_get_f f)" "no_err (reg_set r v)" "no_err (reg_set_f f x)"
    unfolding reg_get_def reg_get_f_def reg_set_def reg_set_f_def
    by (auto intro!: fails_bind fails_basic fails_zoom fails_lift)
qed

lemma reg_fetch_no_err: "no_err (reg_fetch y)"
proof -
  have f: "no_err (fetch_finstr f)" for f
    by (cases f) (auto intro!: fails_bind fails_basic reg_no_err)
  have "no_err (fetch_instr i)" for i
    by (cases i rule: fetch_instr.cases) (auto intro!: fails_bind fails_basic reg_no_err f)
  then show ?thesis unfolding reg_fetch_def by (intro fails_bind fails_basic fails_zoom)
qed

lemma retire_tail_no_err: "no_err (write_back w)" "no_err (account_cycles i st fl)"
proof -
  show "no_err (write_back w)"
    unfolding write_back_def by (auto intro!: fails_zoom reg_no_err split: write_back_input.split)
  show "no_err (account_cycles i st fl)"
    unfolding account_cycles_def by (auto intro!: fails_bind fails_basic fails_lift push_no_err)
qed

lemma act_bind_Err:
  "act_bind m f s = (Err e, s') \<longleftrightarrow> m s = (Err e, s') \<or> (\<exists>a t. m s = (Ok a, t) \<and> f a t = (Err e, s'))"
  by (auto simp: act_bind_def split: prod.splits outcome.splits)

lemma no_errD: "no_err m \<Longrightarrow> m s \<noteq> (Err e, s')"
  by (metis fails_only_def fst_conv)

section \<open>Memory requests\<close>

text \<open>The request an instruction with its operands read makes of the memory.\<close>

fun request :: "fetched_instr \<Rightarrow> memory_access_input option" where
  "request (Instr_I i rd v imm) = (if i = Lw then Some (MaIMem rd (unat (v + imm))) else None)"
| "request (Instr_S i v1 v2 imm) = Some (MaI (unat (v1 + imm)) v2)"
| "request (Instr_F (Flw rd v imm)) = Some (MaFMem rd (unat (v + imm)))"
| "request (Instr_F (Fsw x v imm)) = Some (MaF (unat (v + imm)) x)"
| "request _ = None"

lemma memory_request_value:
  assumes "execute b fpu it ot x s = (Ok eo, s')" "eo_ma_in eo = Some ma"
  shows "request (ex_instr x) = Some ma \<and> s' = s"
proof -
  have branch: "exec_branch p imm c s \<noteq> (Ok eo, s')" for p imm c
    using exec_branch_Ok [of p imm c s eo s'] assms(2) by auto
  show ?thesis
  proof (cases "ex_instr x")
    case (Instr_R i rd v1 v2)
    then show ?thesis using assms by (auto simp: execute_def act_Ok exec_R_def bind_out_Ok_iff execute_output_default_def)
  next
    case (Instr_I i rd v1 imm)
    then show ?thesis
      using assms by (cases i) (auto simp: execute_def act_Ok exec_I_def bind_out_Ok_iff execute_output_default_def)
  next
    case (Instr_S i v1 v2 imm)
    then show ?thesis
      using assms by (cases i) (auto simp: execute_def act_Ok exec_S_def execute_output_default_def Let_def)
  next
    case (Instr_IO io)
    then show ?thesis using assms by (cases io) (auto simp: execute_def act_Ok exec_IO_def execute_output_default_def)
  next
    case (Instr_F f)
    then show ?thesis
      using assms branch
      by (cases f) (auto simp: execute_def act_Ok exec_F_def exec_E_def exec_G_def exec_H_def exec_K_def exec_X_def exec_Y_def
          exec_W_def exec_V_def exec_Flw_def exec_Fsw_def bind_out_Ok_iff execute_output_default_def Let_def
          split: if_splits)
  next
    case (Instr_Misc m)
    then show ?thesis using assms by (cases m) (auto simp: execute_def act_Ok execute_output_default_def)
  next
    case (Instr_J i rd imm)
    then show ?thesis using assms by (cases i) (auto simp: execute_def act_Ok exec_J_def execute_output_default_def)
  qed (use assms branch in \<open>auto simp: execute_def act_Ok exec_B_def exec_P_def act_panic_def
      execute_output_default_def Let_def split: if_splits\<close>)
qed

lemma request_Some: "request i = Some ma \<Longrightarrow> ma_addr ma < 2 ^ 62 \<and> accesses_memory i"
  by (cases i rule: request.cases) (auto simp: ma_addr_def split: if_splits)

lemma memory_request:
  assumes "execute b fpu it ot x s = (Ok eo, s')" "eo_ma_in eo = Some ma"
  shows "ma_addr ma < 2 ^ 62 \<and> accesses_memory (ex_instr x)"
  using memory_request_value [OF assms] request_Some by blast

section \<open>Refusals\<close>

text \<open>The memory access of a request, on the memory and the regions of a processor state, reports an error.\<close>

definition ma_refuses :: "build \<Rightarrow> ('i, 'o) cpu \<Rightarrow> memory_access_input \<Rightarrow> memory_access_error \<Rightarrow> bool" where
  "ma_refuses b s ma m \<longleftrightarrow>
     (let rg = stat_memregion (cpu_reg_file s); st = (cpu_memory s, None) in
      case ma of
        MaI a v \<Rightarrow> fst (mem_set b RAM_BYTE_SIZE rg a v st) = Err m
      | MaF a x \<Rightarrow> fst (mem_set_f b RAM_BYTE_SIZE rg a x st) = Err m
      | MaIMem r a \<Rightarrow> fst (mem_get_i b RAM_BYTE_SIZE rg a st) = Err m
      | MaFMem r a \<Rightarrow> fst (mem_get_f b RAM_BYTE_SIZE rg a st) = Err m)"

lemma on_memory_Err:
  "on_memory acc (s, sp) = (Err e, s') \<Longrightarrow>
     \<exists>m. e = MemoryAccessError m \<and> fst (acc (stat_memregion (cpu_reg_file s)) (cpu_memory s, sp)) = Err m"
  by (auto simp: on_memory_def act_simps map_err_Err split: prod.splits outcome.splits)

lemma ma_step_Err:
  assumes "act_bind (ma_cache a) (\<lambda>res. act_bind (on_memory acc) (\<lambda>v. act_ret (k res v))) (s, sp) = (Err e, s')"
  shows "\<exists>m. e = MemoryAccessError m \<and> fst (acc (stat_memregion (cpu_reg_file s)) (cpu_memory s, sp)) = Err m"
proof -
  obtain res s1 sp1 where c: "ma_cache a (s, sp) = (Ok res, s1, sp1)" and m: "on_memory acc (s1, sp1) = (Err e, s')"
    using assms no_errD [OF ma_cache_no_err, of a "(s, sp)" e s'] by (auto simp: act_bind_Err act_ret_def)
  have "sp1 = sp" using c by (auto simp: ma_cache_def act_Ok Let_def split: if_splits)
  then show ?thesis using on_memory_Err [OF m] ma_cache_Ok [OF c] by simp
qed

lemma memory_access_Err:
  assumes "memory_access b ma (s, None) = (Err e, s')"
  shows "\<exists>m. e = MemoryAccessError m \<and> ma_refuses b s ma m"
proof -
  have "no_err (ma_finish r)" for r :: memory_access_output
    unfolding ma_finish_def by (auto intro!: fails_bind fails_basic)
  then have "ma_finish r t \<noteq> (Err e, s')" for r t by (rule no_errD)
  then have arm: "ma_arm b ma (s, None) = (Err e, s')"
    using assms unfolding memory_access_def by (simp add: act_bind_Err)
  note arm' = arm [unfolded ma_arm_def]
  show ?thesis
  proof (cases ma)
    case (MaI a v)
    then show ?thesis using ma_step_Err [OF arm' [unfolded MaI memory_access_input.case]] by (simp add: ma_refuses_def)
  next
    case (MaF a x)
    then show ?thesis using ma_step_Err [OF arm' [unfolded MaF memory_access_input.case]] by (simp add: ma_refuses_def)
  next
    case (MaIMem r a)
    then show ?thesis using ma_step_Err [OF arm' [unfolded MaIMem memory_access_input.case]] by (simp add: ma_refuses_def)
  next
    case (MaFMem r a)
    then show ?thesis using ma_step_Err [OF arm' [unfolded MaFMem memory_access_input.case]] by (simp add: ma_refuses_def)
  qed
qed

lemma cycle_retire_Err:
  fixes s s' :: "('i, 'o) cpu"
  assumes "cycle_retire b i eo res s = (Err e, s')"
  shows "\<exists>ma m. eo_ma_in eo = Some ma \<and> e = MemoryAccessError m \<and> ma_refuses b s ma m"
proof -
  let ?set_pc = "case eo_new_pc eo of
       Some val \<Rightarrow> act_modify (\<lambda>s. s\<lparr>cpu_pc := Pc (word_of_nat val)\<rparr>) | None \<Rightarrow> act_ret ()"
  have "no_err ?set_pc" by (auto intro!: fails_basic split: option.split)
  then have 1: "?set_pc t \<noteq> (Err e, t')" for t t' :: "('i, 'o) cpu" by (rule no_errD)
  have "no_err (case wb of Some w \<Rightarrow> write_back w | None \<Rightarrow> act_ret ())" for wb
    by (auto intro!: fails_basic retire_tail_no_err split: option.split)
  then have 2: "(case wb of Some w \<Rightarrow> write_back w | None \<Rightarrow> act_ret ()) t \<noteq> (Err e, t')" for wb and t t' :: "('i, 'o) cpu" by (rule no_errD)
  have "no_err (zoom pipeline_state (\<lambda>ps s. s\<lparr>pipeline_state := ps\<rparr>) (account_cycles i st fl))" for st fl
    by (intro fails_zoom retire_tail_no_err)
  then have 3: "zoom pipeline_state (\<lambda>ps s. s\<lparr>pipeline_state := ps\<rparr>) (account_cycles i st fl) t \<noteq> (Err e, t')" for st fl and t t' :: "('i, 'o) cpu"
    by (rule no_errD)
  obtain s1 where pc: "?set_pc s = (Ok () :: (runtime_error, _) outcome, s1)" and mem: "cycle_memory b eo s1 = (Err e, s')"
    using assms 1 2 3 unfolding cycle_retire_def by (auto simp: act_bind_Err act_ret_def split: prod.splits)
  obtain ma where ma: "eo_ma_in eo = Some ma" "with_local None (memory_access b ma) s1 = (Err e, s')"
    using mem by (cases "eo_ma_in eo") (auto simp: cycle_memory_def act_bind_Err act_ret_def Let_def split: prod.splits if_splits)
  then obtain s2 where "memory_access b ma (s1, None) = (Err e, s2)"
    by (auto simp: with_local_def split: prod.splits outcome.splits)
  from memory_access_Err [OF this] have "\<exists>m. e = MemoryAccessError m \<and> ma_refuses b s1 ma m" .
  moreover have "cpu_reg_file s1 = cpu_reg_file s" "cpu_memory s1 = cpu_memory s"
    using pc by (auto simp: act_Ok split: option.splits)
  ultimately show ?thesis using ma(1) by (simp add: ma_refuses_def)
qed

text \<open>The device an instruction addresses refuses it.\<close>

fun io_refuses :: "'i input_trait \<Rightarrow> 'o output_trait \<Rightarrow> ('i, 'o) cpu \<Rightarrow> fetched_instr \<Rightarrow> anyhow_error \<Rightarrow> bool" where
  "io_refuses it ot s (Instr_IO (Outb v)) d = (fst (outb ot (ucast v) (cpu_output s)) = Err d)"
| "io_refuses it ot s (Instr_IO (Inw rd)) d = (fst (inw it (cpu_input s)) = Err d)"
| "io_refuses it ot s (Instr_IO (Finw rd)) d = (fst (finw it (cpu_input s)) = Err d)"
| "io_refuses it ot s _ d = False"

lemma execute_Err:
  assumes "execute b fpu it ot x s = (Err e, s')"
  shows "\<exists>d. e = Anyhow d \<and> io_refuses it ot s (ex_instr x) d"
proof (cases "performs_io (ex_instr x)")
  case True
  then obtain io where "ex_instr x = Instr_IO io" by (cases "ex_instr x") simp_all
  then show ?thesis
    using assms
    by (cases io) (auto simp: execute_def exec_IO_def act_bind_Err act_simps map_err_Err split: prod.splits outcome.splits)
next
  case False
  then show ?thesis using assms no_errD [OF execute_no_err] by blast
qed

section \<open>Errors of a cycle\<close>

lemma instr_fetch_Err:
  assumes "instr_fetch b s = (Err e, s')"
  shows "\<exists>m. get_from_pc (cpu_memory s) (cpu_pc s) = Err m \<and> e = MemoryAccessError m"
proof -
  have "zoom cpu_pc (\<lambda>p s. s\<lparr>cpu_pc := p\<rparr>) (act_try (pc_incr b)) t \<noteq> (Err e, t')" for t :: "('a, 'b) cpu" and e t'
    by (auto simp: act_simps split: outcome.splits prod.splits)
  then show ?thesis
    using assms by (auto simp: instr_fetch_def act_bind_Err act_simps map_err_Err split: outcome.splits)
qed

text \<open>The word at the program counter and the instruction it decodes to.\<close>

definition next_instr :: "build \<Rightarrow> ('i, 'o) cpu \<Rightarrow> u32 \<Rightarrow> decoded_instr \<Rightarrow> bool" where
  "next_instr b s w i \<longleftrightarrow> get_from_pc (cpu_memory s) (cpu_pc s) = Ok w \<and> decode_from b w = Ok i"

text \<open>
  The memory refuses the load or store, the device the transfer, that an instruction performs
  with the register values of a processor state.
\<close>

fun memory_refuses :: "build \<Rightarrow> ('i, 'o) cpu \<Rightarrow> decoded_instr \<Rightarrow> memory_access_error \<Rightarrow> bool" where
  "memory_refuses b s (Instr_I i rd rs1 imm) m =
     (i = Lw \<and> fst (mem_get_i b RAM_BYTE_SIZE (stat_memregion (cpu_reg_file s))
        (unat (a_reg (arch_of s) rs1 + imm)) (cpu_memory s, None)) = Err m)"
| "memory_refuses b s (Instr_S i rs1 rs2 imm) m =
     (fst (mem_set b RAM_BYTE_SIZE (stat_memregion (cpu_reg_file s))
        (unat (a_reg (arch_of s) rs1 + imm)) (a_reg (arch_of s) rs2) (cpu_memory s, None)) = Err m)"
| "memory_refuses b s (Instr_F (Flw rd rs1 imm)) m =
     (fst (mem_get_f b RAM_BYTE_SIZE (stat_memregion (cpu_reg_file s))
        (unat (a_reg (arch_of s) rs1 + imm)) (cpu_memory s, None)) = Err m)"
| "memory_refuses b s (Instr_F (Fsw rs2 rs1 imm)) m =
     (fst (mem_set_f b RAM_BYTE_SIZE (stat_memregion (cpu_reg_file s))
        (unat (a_reg (arch_of s) rs1 + imm)) (a_freg (arch_of s) rs2) (cpu_memory s, None)) = Err m)"
| "memory_refuses b s _ m = False"

fun device_refuses :: "'i input_trait \<Rightarrow> 'o output_trait \<Rightarrow> ('i, 'o) cpu \<Rightarrow> decoded_instr \<Rightarrow> anyhow_error \<Rightarrow> bool" where
  "device_refuses it ot s (Instr_IO (Outb rs)) d = (fst (outb ot (ucast (a_reg (arch_of s) rs)) (cpu_output s)) = Err d)"
| "device_refuses it ot s (Instr_IO (Inw rd)) d = (fst (inw it (cpu_input s)) = Err d)"
| "device_refuses it ot s (Instr_IO (Finw rd)) d = (fst (finw it (cpu_input s)) = Err d)"
| "device_refuses it ot s _ d = False"

abbreviation operands :: "('i, 'o) cpu \<Rightarrow> decoded_instr \<Rightarrow> fetched_instr" where
  "operands s i \<equiv> map_instr (a_reg (arch_of s)) id (a_freg (arch_of s)) id i"

lemma request_refused:
  "request (operands s i) = Some ma \<Longrightarrow> ma_refuses b s ma m \<Longrightarrow> memory_refuses b s i m"
  by (cases "(b, s, i, m)" rule: memory_refuses.cases) (auto simp: ma_refuses_def Let_def split: if_splits)

lemma io_refused: "io_refuses it ot s (operands s i) d \<Longrightarrow> device_refuses it ot s i d"
  by (cases "(it, ot, s, i, d)" rule: device_refuses.cases) auto

lemma refused_class:
  "memory_refuses b s i m \<Longrightarrow> accesses_memory i" "device_refuses it ot s i d \<Longrightarrow> performs_io i"
  by (cases "(b, s, i, m)" rule: memory_refuses.cases; simp) (cases "(it, ot, s, i, d)" rule: device_refuses.cases; simp)

definition error_source ::
  "build \<Rightarrow> 'i input_trait \<Rightarrow> 'o output_trait \<Rightarrow> ('i, 'o) cpu \<Rightarrow> runtime_error \<Rightarrow> bool" where
  "error_source b it ot s e \<longleftrightarrow>
     (\<exists>m. get_from_pc (cpu_memory s) (cpu_pc s) = Err m \<and> e = MemoryAccessError m)
     \<or> (\<exists>w d. get_from_pc (cpu_memory s) (cpu_pc s) = Ok w \<and> decode_from b w = Err d \<and> e = Anyhow d)
     \<or> (\<exists>w i m. next_instr b s w i \<and> memory_refuses b s i m \<and> e = MemoryAccessError m)
     \<or> (\<exists>w i d. next_instr b s w i \<and> device_refuses it ot s i d \<and> e = Anyhow d)"

text \<open>The registers have been read and nothing else has happened yet.\<close>

lemma operands_read:
  assumes "instr_fetch b s = (Ok f, s1)"
    and "zoom i_stat (\<lambda>v s. s\<lparr>i_stat := v\<rparr>) (encounter_instr b i) s1 = (Ok u :: (runtime_error, _) outcome, s2)"
    and "reg_fetch \<lparr>rf_instr = i, rf_old_pc = p, rf_pc_plus4 = q\<rparr> s2 = (Ok x, s3)"
  shows "ex_instr x = operands s i \<and> cpu_memory s3 = cpu_memory s
    \<and> stat_memregion (cpu_reg_file s3) = stat_memregion (cpu_reg_file s)
    \<and> cpu_input s3 = cpu_input s \<and> cpu_output s3 = cpu_output s"
  using assms instr_fetch_Ok [OF assms(1)]
  by (auto simp: reg_fetch_def act_Ok read_operands_def arch_of_def same_values_def dest!: fetch_instr_Ok)

lemma decoded_Err:
  assumes "instr_fetch b s = (Ok f, s1)"
    and "act_bind (zoom i_stat (\<lambda>v s. s\<lparr>i_stat := v\<rparr>) (encounter_instr b i)) (\<lambda>_.
     act_bind (reg_fetch \<lparr>rf_instr = i, rf_old_pc = p, rf_pc_plus4 = q\<rparr>) (\<lambda>ex_in.
     act_bind (execute b fpu it ot ex_in) (\<lambda>eo. if eo_end eo then act_ret r else cycle_retire b i eo r'))) s1 = (Err e, s')"
  shows "(\<exists>m. memory_refuses b s i m \<and> e = MemoryAccessError m) \<or> (\<exists>d. device_refuses it ot s i d \<and> e = Anyhow d)"
proof -
  have "no_err (zoom i_stat (\<lambda>v s. s\<lparr>i_stat := v\<rparr>) (encounter_instr b i))"
    unfolding encounter_instr_def by (auto intro!: fails_zoom fails_lift)
  then have enc: "zoom i_stat (\<lambda>v s. s\<lparr>i_stat := v\<rparr>) (encounter_instr b i) s1 \<noteq> (Err e, s')" by (rule no_errD)
  obtain s2 where s2: "zoom i_stat (\<lambda>v s. s\<lparr>i_stat := v\<rparr>) (encounter_instr b i) s1 = (Ok () :: (runtime_error, _) outcome, s2)"
    and rf: "act_bind (reg_fetch \<lparr>rf_instr = i, rf_old_pc = p, rf_pc_plus4 = q\<rparr>) (\<lambda>ex_in.
     act_bind (execute b fpu it ot ex_in) (\<lambda>eo. if eo_end eo then act_ret r else cycle_retire b i eo r')) s2 = (Err e, s')"
    using assms(2) enc unfolding act_bind_Err [of "zoom i_stat _ _"] by auto
  obtain x s3 where x: "reg_fetch \<lparr>rf_instr = i, rf_old_pc = p, rf_pc_plus4 = q\<rparr> s2 = (Ok x, s3)"
    and rest: "act_bind (execute b fpu it ot x) (\<lambda>eo. if eo_end eo then act_ret r else cycle_retire b i eo r') s3 = (Err e, s')"
    using rf no_errD [OF reg_fetch_no_err] unfolding act_bind_Err [of "reg_fetch _"] by blast
  note ops = operands_read [OF assms(1) s2 x]
  have mem: "ma_refuses b s3 ma m = ma_refuses b s ma m" for ma m using ops by (simp add: ma_refuses_def)
  have dev: "io_refuses it ot s3 y d = io_refuses it ot s y d" for y d
    using ops by (cases "(it, ot, s, y, d)" rule: io_refuses.cases) auto
  consider (exec) "execute b fpu it ot x s3 = (Err e, s')"
    | (retire) eo s4 where "execute b fpu it ot x s3 = (Ok eo, s4)" "cycle_retire b i eo r' s4 = (Err e, s')"
    using rest by (auto simp: act_bind_Err act_ret_def split: if_splits)
  then show ?thesis
  proof cases
    case exec
    then show ?thesis using execute_Err [OF exec] ops dev io_refused by fastforce
  next
    case retire
    then show ?thesis
      using cycle_retire_Err [OF retire(2)] memory_request_value [OF retire(1)] ops mem request_refused by metis
  qed
qed

lemma cycle_Err:
  assumes "cycle_one_full b fpu it ot tr s = (Err e, s')"
  shows "error_source b it ot s e"
proof -
  obtain r s1 where fetch: "instr_fetch b s = (r, s1)" by fastforce
  show ?thesis
  proof (cases r)
    case (Ok f)
    have w: "get_from_pc (cpu_memory s) (cpu_pc s) = Ok (id_bin (if_id_in f))"
      using instr_fetch_Ok fetch Ok by blast
    show ?thesis
    proof (cases "decode_from b (id_bin (if_id_in f))")
      case dec: (Ok i)
      show ?thesis
        using assms fetch Ok dec w decoded_Err [OF fetch [unfolded Ok]]
        unfolding cycle_one_full_def Let_def error_source_def next_instr_def
        by (simp add: act_bind_def [of "instr_fetch b"] act_bind_def [of "act_lift _"] act_lift_def instr_decode_def)
    qed (use assms fetch Ok w in \<open>auto simp: cycle_one_full_def act_simps instr_decode_def error_source_def\<close>)
  next
    case (Err m)
    then show ?thesis
      using assms fetch instr_fetch_Err [of b s] by (auto simp: cycle_one_full_def act_bind_def error_source_def)
  qed (use assms fetch in \<open>simp add: cycle_one_full_def act_bind_def\<close>)
qed

text \<open>
  C8. Where errors come from: a cycle reports an error only for an instruction fetch outside the
  code (with the error of the fetch), a word that does not decode (with the error of the
  decoder), a load or store the memory refuses, or a device that refuses the transfer. In the last
  two cases the error is the one the memory port or the device reports for this very access: on the
  memory and the devices the cycle started with, at the address and with the values its registers
  hold.
\<close>
theorem error_origin:
  assumes "cycle_one_full b fpu it ot tr s = (Err e, s')"
  shows "(\<exists>m. get_from_pc (cpu_memory s) (cpu_pc s) = Err m \<and> e = MemoryAccessError m)
    \<or> (\<exists>w. get_from_pc (cpu_memory s) (cpu_pc s) = Ok w
         \<and> ((\<exists>d. decode_from b w = Err d \<and> e = Anyhow d)
          \<or> (\<exists>i. decode_from b w = Ok i
               \<and> ((\<exists>m. memory_refuses b s i m \<and> e = MemoryAccessError m)
                \<or> (\<exists>d. device_refuses it ot s i d \<and> e = Anyhow d)))))"
  using cycle_Err [OF assms] unfolding error_source_def next_instr_def by blast

theorem error_origin_witness:
  "\<exists>s :: (unit, unit) cpu. \<exists>e s'. cycle_one_full release_1st demo_fpu empty_input empty_output False s = (Err e, s')
     \<and> e = MemoryAccessError (PcOutOfBounds 8)"
proof -
  obtain s0 :: "(unit, unit) cpu" where s0: "booted release_1st demo_image s0"
    using boot [OF demo_image_ok(1), of release_1st "()" "()", where ?'e = unit] by auto
  let ?s = "s0\<lparr>cpu_pc := Pc 8\<rparr>"
  have fetch: "get_from_pc (cpu_memory ?s) (cpu_pc ?s) = Err (PcOutOfBounds 8)"
    using s0 by (simp add: booted_def get_from_pc_def demo_image_ok pc_into_usize_def)
  have run: "cycle_one_full release_1st demo_fpu empty_input empty_output False ?s = (Err (MemoryAccessError (PcOutOfBounds 8)), ?s)"
    using fetch by (simp add: cycle_one_full_def instr_fetch_def act_simps)
  show ?thesis
    using error_origin [OF run] fetch run by (intro exI [of _ ?s] exI conjI) auto
qed

section \<open>Progress\<close>

lemma untraced_cycle:
  assumes "cycle_one_full b fpu it ot False s = (Ok res, s')"
  shows "cr_trace res = None"
proof -
  have "returns (\<lambda>res. cr_trace res = None) (cycle_one_full b fpu it ot False)"
    unfolding cycle_one_full_def cycle_retire_def Let_def
    by (auto intro!: returns_bind returns_ret simp: cycle_trace_def cycle_result_default_def split: prod.split)
  then show ?thesis using assms unfolding returns_def by blast
qed

lemma cycle_flow:
  assumes "cycle_one_full b fpu it ot tr s = (Ok res, s')" "next_instr b s w i" "\<not> accesses_memory i"
  shows "cr_flow res = (if i = Instr_Misc End then CpuExit else CpuContinue)"
proof -
  obtain f s1 i' s2 x s3 eo s4 where f: "instr_fetch b s = (Ok f, s1)"
    and i: "map_err Anyhow (decode_from b (id_bin (if_id_in f))) = Ok i'"
    and x: "reg_fetch \<lparr>rf_instr = i', rf_old_pc = pc_inner (if_old_pc f), rf_pc_plus4 = pc_inner (if_pc_plus4 f)\<rparr> s2 = (Ok x, s3)"
    and eo: "execute b fpu it ot x s3 = (Ok eo, s4)"
    and fin: "(if eo_end eo then act_ret (cycle_result_default\<lparr>cr_trace := cycle_trace tr f i', cr_flow := CpuExit\<rparr>)
        else cycle_retire b i' eo (cycle_result_default\<lparr>cr_trace := cycle_trace tr f i'\<rparr>)) s4 = (Ok res, s')"
    using assms(1) unfolding cycle_one_full_def Let_def act_bind_Ok act_lift_Ok instr_decode_def by auto
  have "i' = i"
    using instr_fetch_Ok [OF f] i assms(2) by (auto simp: next_instr_def)
  then have "\<not> accesses_memory (ex_instr x)"
    using x assms(3) by (auto simp: reg_fetch_def act_Ok read_operands_def dest!: fetch_instr_Ok)
  then have "eo_ma_in eo = None" using memory_request [OF eo] by (cases "eo_ma_in eo") auto
  then have "cr_flow res \<noteq> CpuBreak r" for r
    using fin by (auto simp: act_Ok cycle_retire_def cycle_memory_def split: if_splits)
  moreover have "(cr_flow res = CpuExit) = (i = Instr_Misc End)"
    using cycle_Ok [OF assms(1)] assms(2) by (auto simp: next_instr_def split: if_splits)
  ultimately show ?thesis by (cases "cr_flow res") auto
qed

lemma progress:
  assumes "total_devices it ot" "cpu_wf b s" "\<not> debug_assertions b"
    and "next_instr b s w i" "safe_instr i" "\<not> accesses_memory i" "\<not> performs_io i"
  shows "\<exists>res s'. cycle_one_full b fpu it ot tr s = (Ok res, s') \<and> cpu_wf b s'
    \<and> cr_flow res = (if i = Instr_Misc End then CpuExit else CpuContinue)
    \<and> (i \<noteq> Instr_Misc End \<longrightarrow> isa_exec fpu it ot i (arch_of s) = Some (arch_of s'))"
proof -
  have "fetch_safe b s"
    using assms(4,5) by (auto simp: fetch_safe_def safe_word_def next_instr_def)
  note inv = any_build_cycle_inv [OF assms(1,2) this, of fpu tr]
  obtain r s' where r: "cycle_one_full b fpu it ot tr s = (r, s')" by fastforce
  have "r \<noteq> Err e" for e
    using cycle_Err [of b fpu it ot tr s e s'] r assms(4,6,7) by (auto simp: error_source_def next_instr_def dest: refused_class)
  then obtain res where res: "r = Ok res" using inv r assms(3) by (cases r) auto
  show ?thesis
    using inv r res cycle_flow [OF r [unfolded res] assms(4,6)] cycle_Ok [OF r [unfolded res]] assms(4)
    by (auto simp: next_instr_def split: if_splits)
qed

lemma demo_cycle:
  fixes s :: "(unit, unit) cpu"
  assumes "booted release_1st demo_image s"
  shows "\<exists>res s'. cycle_one_full release_1st demo_fpu empty_input empty_output False s = (Ok res, s') \<and> cpu_wf release_1st s'
    \<and> cr_flow res = CpuContinue
    \<and> isa_exec demo_fpu empty_input empty_output (Instr_I Addi (RegId 5) (RegId 0) 5) (arch_of s) = Some (arch_of s')"
proof -
  have "cpu_wf release_1st s" "next_instr release_1st s 0x00500293 (Instr_I Addi (RegId 5) (RegId 0) 5)"
    using assms demo_fetch [OF assms] demo_decode by (simp_all add: booted_def next_instr_def)
  from progress [OF empty_devices.total_devices_axioms this(1) _ this(2), of demo_fpu False] show ?thesis
    by (simp add: safe_instr_def)
qed

section \<open>One cycle is safe\<close>

text \<open>The one instruction of the second instruction set that the executor does not support.\<close>

definition is_ffrac :: "decoded_instr \<Rightarrow> bool" where
  "is_ffrac i \<longleftrightarrow> (\<exists>rd rs1. i = Instr_F (FInstr_H Ffrac rd rs1))"

lemma is_ffrac_safe: "is_ffrac i \<longleftrightarrow> \<not> safe_instr i"
  by (auto simp: is_ffrac_def safe_instr_def)

lemma cycle_not_ffrac:
  assumes "cycle_one_full b fpu it ot tr s = (Ok res, s')" "next_instr b s w i"
  shows "\<not> is_ffrac i"
proof
  assume "is_ffrac i"
  obtain f s1 i' s2 x s3 eo s4 where f: "instr_fetch b s = (Ok f, s1)"
    and i: "map_err Anyhow (decode_from b (id_bin (if_id_in f))) = Ok i'"
    and x: "reg_fetch \<lparr>rf_instr = i', rf_old_pc = pc_inner (if_old_pc f), rf_pc_plus4 = pc_inner (if_pc_plus4 f)\<rparr> s2 = (Ok x, s3)"
    and eo: "execute b fpu it ot x s3 = (Ok eo, s4)"
    using assms(1) unfolding cycle_one_full_def Let_def act_bind_Ok act_lift_Ok instr_decode_def by auto
  have "i' = i" using instr_fetch_Ok [OF f] i assms(2) by (auto simp: next_instr_def)
  then have "\<exists>rd v. ex_instr x = Instr_F (FInstr_H Ffrac rd v)"
    using x \<open>is_ffrac i\<close> by (auto simp: is_ffrac_def reg_fetch_def act_Ok read_operands_def dest!: fetch_instr_Ok)
  then show False using eo by (auto simp: execute_def exec_F_def exec_H_def act_Ok)
qed

text \<open>A cycle that comes back fetched a word the decoder and the executor support, or none at all.\<close>

lemma returned_fetch_safe:
  assumes "cycle_one_full b fpu it ot tr s = (r, s')" "\<not> is_panic r"
  shows "fetch_safe b s"
proof (cases r)
  case (Ok res)
  then show ?thesis
    using cycle_Ok [of b fpu it ot tr s res s'] cycle_not_ffrac [of b fpu it ot tr s res s'] assms(1)
    by (auto simp: fetch_safe_def safe_word_def is_ffrac_safe next_instr_def)
next
  case (Err e)
  have "accesses_memory i \<or> performs_io i \<Longrightarrow> safe_instr i" for i :: decoded_instr
    by (auto simp: safe_instr_def)
  then show ?thesis
    using cycle_Err [of b fpu it ot tr s e s'] assms(1) Err
    by (auto simp: error_source_def fetch_safe_def safe_word_def next_instr_def dest!: refused_class)
qed (use assms(2) in simp)

text \<open>
  C3. With devices that do not panic, one cycle from a well-formed state either retires an
  instruction, charging between 1 and 193 clocks, or exits, charging none, or reports an error;
  in all three cases the state it leaves is well-formed again: \<open>x0\<close> and \<open>f0\<close> hold zero, the five
  pipeline slots are filled, every array has its length. It panics only on an arithmetic overflow
  check of a debug build, or when the word at the program counter trips the assertion of the
  decoder or is \<^verbatim>\<open>ffrac\<close>, which the executor marks unreachable.
\<close>
theorem cycle_safe:
  assumes "total_devices it ot" "cpu_wf b s"
  shows "case cycle_one_full b fpu it ot tr s of
      (Ok res, s') \<Rightarrow> cpu_wf b s'
        \<and> (if cr_flow res = CpuExit then cr_cycles res = 0 else 1 \<le> cr_cycles res \<and> cr_cycles res \<le> 193)
    | (Err e, s') \<Rightarrow> cpu_wf b s'
    | (Panic p, s') \<Rightarrow> debug_assertions b \<and> p = ArithmeticOverflow
        \<or> (\<exists>w. get_from_pc (cpu_memory s) (cpu_pc s) = Ok w
             \<and> (is_panic (decode_from b w) \<or> (\<exists>i. decode_from b w = Ok i \<and> is_ffrac i)))"
proof (cases "fetch_safe b s")
  case True
  show ?thesis
    using any_build_cycle_inv [OF assms True, of fpu tr]
    by (auto simp: cycle_post_def split: prod.splits outcome.splits if_splits)
next
  case False
  then obtain p s' where "cycle_one_full b fpu it ot tr s = (Panic p, s')"
    using returned_fetch_safe [of b fpu it ot tr s]
    by (metis is_panic.elims(2) surj_pair)
  then show ?thesis
    using False by (auto simp: fetch_safe_def safe_word_def is_ffrac_safe)
qed

theorem cycle_safe_witness:
  "\<exists>s s' :: (unit, unit) cpu. \<exists>res. cpu_new release_1st demo_image () () = (Ok s :: (unit, _) outcome)
     \<and> cycle_one_full release_1st demo_fpu empty_input empty_output False s = (Ok res, s')
     \<and> cpu_wf release_1st s' \<and> 1 \<le> cr_cycles res \<and> cr_cycles res \<le> 193"
proof -
  obtain s :: "(unit, unit) cpu" where s: "cpu_new release_1st demo_image () () = (Ok s :: (unit, _) outcome)"
    "booted release_1st demo_image s"
    using boot [OF demo_image_ok(1), of release_1st "()" "()", where ?'e = unit] by auto
  then have "cpu_wf release_1st s" by (simp add: booted_def)
  note safe = cycle_safe [OF empty_devices.total_devices_axioms this, of demo_fpu False]
  obtain res s' where run: "cycle_one_full release_1st demo_fpu empty_input empty_output False s = (Ok res, s')"
    "cr_flow res = CpuContinue"
    using demo_cycle [OF s(2)] by blast
  then have "cpu_wf release_1st s' \<and> 1 \<le> cr_cycles res \<and> cr_cycles res \<le> 193" using safe by simp
  with s(1) run(1) show ?thesis by blast
qed



text \<open>
  C5. One cycle against the instruction set: whenever a cycle succeeds, in any build and with any
  devices and floating-point unit, the word at the program counter decodes, and registers, data
  memory, program counter and devices are what the instruction set says of that instruction; the
  run exits exactly on the end marker.
\<close>
theorem cycle_refines_isa:
  assumes "cycle_one_full b fpu it ot tr s = (Ok res, s')"
  shows "\<exists>w i. get_from_pc (cpu_memory s) (cpu_pc s) = Ok w \<and> decode_from b w = Ok i
    \<and> (if i = Instr_Misc End then cr_flow res = CpuExit \<and> arch_of s' = advance (arch_of s)
       else cr_flow res \<noteq> CpuExit \<and> isa_exec fpu it ot i (arch_of s) = Some (arch_of s'))"
  by (rule cycle_Ok [OF assms])

theorem cycle_refines_isa_witness:
  "\<exists>s s' :: (unit, unit) cpu. \<exists>res. cycle_one_full release_1st demo_fpu empty_input empty_output False s = (Ok res, s')
     \<and> isa_exec demo_fpu empty_input empty_output (Instr_I Addi (RegId 5) (RegId 0) 5) (arch_of s) = Some (arch_of s')"
proof -
  obtain s :: "(unit, unit) cpu" where s: "booted release_1st demo_image s"
    using boot [OF demo_image_ok(1), of release_1st "()" "()", where ?'e = unit] by auto
  obtain res s' where run: "cycle_one_full release_1st demo_fpu empty_input empty_output False s = (Ok res, s')"
    using demo_cycle [OF s] by blast
  from cycle_refines_isa [OF run] have
    "isa_exec demo_fpu empty_input empty_output (Instr_I Addi (RegId 5) (RegId 0) 5) (arch_of s) = Some (arch_of s')"
    using demo_fetch [OF s] demo_decode by auto
  with run show ?thesis by blast
qed

end
