(* ===== verification/Code_Frame.thy ===== *)
theory Code_Frame
  imports Cpu_Progress
begin

text \<open>
  The program a processor runs does not change: no cycle, whether it succeeds, fails or panics,
  alters a byte of an aligned code range. With it the refinement of \<open>Cpu_Refines\<close> extends from
  one cycle to runs of a fixed program.
\<close>

section \<open>Memory operations keep the code\<close>

definition code_kept :: "memory \<Rightarrow> memory \<Rightarrow> bool" where
  "code_kept m m' \<longleftrightarrow>
     instr_mem_range m' = instr_mem_range m \<and> vec_len (mem_inner m') = vec_len (mem_inner m)
     \<and> (code_aligned m \<longrightarrow> (\<forall>i. fst (instr_mem_range m) \<le> i \<and> i < snd (instr_mem_range m) \<longrightarrow>
          vec_elt (mem_inner m') i = vec_elt (mem_inner m) i))"

lemma code_kept_refl [simp]: "code_kept m m"
  by (simp add: code_kept_def)

lemma code_kept_trans: "code_kept m m' \<Longrightarrow> code_kept m' m'' \<Longrightarrow> code_kept m m''"
  by (simp add: code_kept_def code_aligned_def)

lemma code_kept_inner: "mem_inner m' = mem_inner m \<Longrightarrow> instr_mem_range m' = instr_mem_range m \<Longrightarrow> code_kept m m'"
  by (simp add: code_kept_def)

interpretation mem_code: frame_relation code_kept
  by unfold_locales (simp, rule code_kept_trans)

interpretation access_code: frame_relation "\<lambda>s s'. code_kept (fst s) (fst s')"
  by unfold_locales (simp, rule code_kept_trans)

interpretation cpu_code: frame_relation "\<lambda>s s'. code_kept (cpu_memory s) (cpu_memory s')"
  by unfold_locales (simp, rule code_kept_trans)

interpretation ma_code: frame_relation "\<lambda>s s'. code_kept (cpu_memory (fst s)) (cpu_memory (fst s'))"
  by unfold_locales (simp, rule code_kept_trans)

abbreviation keeps_access :: "'a access \<Rightarrow> bool" where
  "keeps_access \<equiv> keeps (\<lambda>s s'. code_kept (fst s) (fst s'))"

abbreviation keeps_cpu :: "(('i, 'o) cpu, 'e, 'a) action \<Rightarrow> bool" where
  "keeps_cpu \<equiv> keeps (\<lambda>s s'. code_kept (cpu_memory s) (cpu_memory s'))"

abbreviation keeps_ma :: "('i, 'o, 'a) ma_act \<Rightarrow> bool" where
  "keeps_ma \<equiv> keeps (\<lambda>s s'. code_kept (cpu_memory (fst s)) (cpu_memory (fst s')))"

lemma set_word_keeps_code:
  assumes "bounds_check sz a m = Ok ()" "a < 2 ^ 62"
  shows "code_kept m (set_word a w m)"
proof -
  have "\<not> (fst (instr_mem_range m) \<le> 4 * a \<and> 4 * a < snd (instr_mem_range m))"
    using assms by (auto simp: bounds_check_def Let_def split: if_splits)
  then have "code_aligned m \<Longrightarrow> fst (instr_mem_range m) \<le> i \<and> i < snd (instr_mem_range m) \<Longrightarrow>
      \<not> (4 * a \<le> i \<and> i < 4 * a + 4)" for i
    unfolding code_aligned_def by presburger
  then show ?thesis by (auto simp: code_kept_def set_word_def)
qed

lemma read_parts_keep: "keeps_access (on_read b rg a)" "keeps code_kept (unify a t)"
    "keeps_access (on_write b rg a v)" "keeps code_kept (reset_type a t)"
proof -
  show "keeps_access (on_read b rg a)"
    unfolding on_read_def
    by (intro access_code.keeps_bind access_code.keeps_ret access_code.keeps_modify) (auto intro: code_kept_inner)
  show "keeps code_kept (unify a t)"
    unfolding unify_def
    by (intro mem_code.keeps_bind mem_code.keeps_ret mem_code.keeps_if mem_code.keeps_zoom) (simp add: code_kept_inner)
  show "keeps_access (on_write b rg a v)"
    unfolding on_write_def
    by (intro access_code.keeps_bind access_code.keeps_ret access_code.keeps_modify access_code.keeps_try)
      (auto intro: code_kept_inner simp: bind_out_Ok_iff split: option.splits)
  show "keeps code_kept (reset_type a t)"
    unfolding reset_type_def by (intro mem_code.keeps_zoom) (simp add: code_kept_inner)
qed

lemma on_mem_keeps:
  assumes "keeps code_kept m"
  shows "keeps_access (on_mem m)"
  unfolding keeps_def zoom_def using assms by (auto simp: keeps_def split: prod.splits) (metis snd_conv)

text \<open>A store checks the bounds first and writes later; in between the check stays valid.\<close>

definition guarded :: "usize \<Rightarrow> usize \<Rightarrow> memory \<times> spied \<Rightarrow> memory \<times> spied \<Rightarrow> bool" where
  "guarded sz a s s' \<longleftrightarrow> (bounds_check sz a (fst s) = Ok () \<longrightarrow> code_kept (fst s) (fst s'))"

interpretation guarded_code: frame_relation "guarded sz a"
proof
  show "guarded sz a s s" for s by (simp add: guarded_def)
  have "code_kept m m' \<Longrightarrow> bounds_check sz a m' = bounds_check sz a m" for m m'
    by (simp add: code_kept_def bounds_check_def)
  then show "guarded sz a s t \<Longrightarrow> guarded sz a t u \<Longrightarrow> guarded sz a s u" for s t u
    unfolding guarded_def using code_kept_trans by metis
qed

lemma guarded_access: "keeps_access m \<Longrightarrow> keeps (guarded sz a) m"
  by (simp add: keeps_def guarded_def)

lemma write_raw_guarded:
  assumes "a < 2 ^ 62"
  shows "keeps (guarded sz a) (on_mem (write_raw a v) :: unit access)"
  unfolding keeps_def guarded_def
proof (intro allI impI)
  fix s :: "memory \<times> spied"
  assume ok: "bounds_check sz a (fst s) = Ok ()"
  obtain r m' where w: "write_raw a v (fst s) = (r :: (memory_access_error, unit) outcome, m')" by fastforce
  have "m' = fst s \<or> m' = set_word a v (fst s)"
  proof (cases r)
    case (Ok u)
    then show ?thesis using w write_raw_Ok [OF assms] by blast
  qed (use w in \<open>auto simp: write_raw_def act_simps split: outcome.splits\<close>)
  then show "code_kept (fst s) (fst (snd ((on_mem (write_raw a v) :: unit access) s)))"
    using set_word_keeps_code [OF ok assms] w by (auto simp: zoom_def)
qed

lemma checked_keeps:
  assumes "keeps (guarded sz a) m"
  shows "keeps_access (act_bind (on_mem (act_read (bounds_check sz a))) (\<lambda>_. m))"
  unfolding keeps_def
proof
  fix s :: "memory \<times> spied"
  show "code_kept (fst s) (fst (snd (act_bind (on_mem (act_read (bounds_check sz a))) (\<lambda>_. m) s)))"
    using assms by (cases s; cases "bounds_check sz a (fst s)") (auto simp: act_simps keeps_def guarded_def)
qed

lemma memory_ops_keep_code:
  assumes "a < 2 ^ 62"
  shows "keeps_access (mem_set b sz rg a v)" "keeps_access (mem_set_f b sz rg a x)"
    "keeps_access (mem_get_i b sz rg a)" "keeps_access (mem_get_f b sz rg a)"
proof -
  show "keeps_access (mem_set b sz rg a v)" "keeps_access (mem_set_f b sz rg a x)"
    unfolding mem_set_def mem_set_f_def
    by (rule checked_keeps, intro guarded_code.keeps_bind guarded_access read_parts_keep on_mem_keeps
        write_raw_guarded [OF assms])+
  show "keeps_access (mem_get_i b sz rg a)" "keeps_access (mem_get_f b sz rg a)"
    unfolding mem_get_i_def mem_get_f_def
    by (intro access_code.keeps_bind on_mem_keeps mem_code.keeps_ret read_parts_keep access_code.keeps_ret)+
qed

section \<open>A cycle keeps the code\<close>

lemma on_memory_keeps:
  assumes "\<And>rg. keeps_access (acc rg)"
  shows "keeps_ma (on_memory acc)"
  unfolding keeps_def on_memory_def
  using assms by (auto simp: act_simps keeps_def split: prod.splits) (metis fst_conv snd_conv)

lemma memory_access_keeps:
  assumes "ma_addr ma < 2 ^ 62"
  shows "keeps_ma (memory_access b ma)"
proof -
  have cache: "keeps_ma (ma_cache a)" for a
    unfolding ma_cache_def Let_def
    by (intro ma_code.keeps_if ma_code.keeps_bind ma_code.keeps_ret ma_code.keeps_zoom) (auto split: prod.split)
  have fin: "keeps_ma (ma_finish r)" for r
    unfolding ma_finish_def
    by (intro ma_code.keeps_if ma_code.keeps_bind ma_code.keeps_ret ma_code.keeps_modify) (auto split: prod.split)
  have "keeps_ma (ma_arm b ma)"
    using assms unfolding ma_arm_def
    by (cases ma) (auto simp: ma_addr_def intro!: ma_code.keeps_bind cache ma_code.keeps_ret on_memory_keeps memory_ops_keep_code)
  then show ?thesis unfolding memory_access_def by (intro ma_code.keeps_bind fin)
qed

lemma cycle_retire_keeps:
  assumes "\<And>ma. eo_ma_in eo = Some ma \<Longrightarrow> ma_addr ma < 2 ^ 62"
  shows "keeps_cpu (cycle_retire b i eo res)"
proof -
  have mem: "keeps_cpu (cycle_memory b eo)"
    unfolding cycle_memory_def Let_def
    by (auto intro!: cpu_code.keeps_bind cpu_code.keeps_ret cpu_code.keeps_with_local memory_access_keeps assms split: option.split)
  have wb: "keeps_cpu (case w of Some x \<Rightarrow> write_back x | None \<Rightarrow> act_ret ())" for w
    unfolding write_back_def
    by (auto intro!: cpu_code.keeps_ret cpu_code.keeps_zoom split: option.split write_back_input.split)
  show ?thesis
    unfolding cycle_retire_def
    by (auto intro!: cpu_code.keeps_bind mem wb cpu_code.keeps_ret cpu_code.keeps_zoom cpu_code.keeps_modify split: option.split)
qed

lemma execute_keeps: "keeps_cpu (execute b fpu it ot x)"
proof -
  have branch: "keeps_cpu (exec_branch p imm c)" for p imm c
    unfolding exec_branch_def Let_def
    by (intro cpu_code.keeps_bind cpu_code.keeps_ret cpu_code.keeps_zoom cpu_code.keeps_modify) simp_all
  have io: "keeps_cpu (exec_IO it ot y)" for y
    unfolding exec_IO_def by (auto intro!: cpu_code.keeps_bind cpu_code.keeps_ret cpu_code.keeps_zoom split: ioinstr.split)
  have f: "keeps_cpu (exec_F b fpu y p)" for y p
    unfolding exec_F_def exec_W_def exec_V_def by (auto intro!: cpu_code.keeps_ret branch split: finstr.split)
  show ?thesis
    unfolding execute_def exec_B_def exec_P_def Let_def
    by (auto intro!: cpu_code.keeps_ret branch io f split: instr.split miscinstr.split)
qed

lemma cycle_keeps: "keeps_cpu (cycle_one_full b fpu it ot tr)"
proof -
  have fetch: "keeps_cpu (instr_fetch b)"
    unfolding instr_fetch_def
    by (auto intro!: cpu_code.keeps_bind cpu_code.keeps_ret cpu_code.keeps_zoom)
  have regs: "keeps_cpu (reg_fetch y)" for y
    unfolding reg_fetch_def by (intro cpu_code.keeps_bind cpu_code.keeps_ret cpu_code.keeps_zoom) simp
  have tail: "keeps_cpu (act_bind (execute b fpu it ot x) (\<lambda>eo. if eo_end eo then act_ret r else cycle_retire b i eo q))"
    for x r i q
    by (rule cpu_code.keeps_bind_result [OF execute_keeps])
      (auto intro!: cpu_code.keeps_ret cycle_retire_keeps dest: memory_request)
  show ?thesis
    unfolding cycle_one_full_def Let_def
    by (rule tail fetch cpu_code.keeps_ret regs cpu_code.keeps_zoom cpu_code.keeps_bind | simp)+
qed

lemma cycle_code_kept:
  assumes "cycle_one_full b fpu it ot tr s = (r, s')"
  shows "code_kept (cpu_memory s) (cpu_memory s')"
  using keepsD [OF cycle_keeps assms] .

section \<open>Runs of a program\<close>

text \<open>
  The program is what the code range decodes to, taken once from the memory a run starts with.
\<close>

definition program :: "build \<Rightarrow> memory \<Rightarrow> u32 \<Rightarrow> decoded_instr option" where
  "program b m p =
     (case get_from_pc m (Pc p) of
        Ok w \<Rightarrow> (case decode_from b w of Ok i \<Rightarrow> Some i | _ \<Rightarrow> None)
      | _ \<Rightarrow> None)"

text \<open>The instructions at \<open>ps\<close>, one after the other, as the instruction set defines them.\<close>

fun isa_steps ::
  "binding \<Rightarrow> 'i input_trait \<Rightarrow> 'o output_trait \<Rightarrow> (u32 \<Rightarrow> decoded_instr option) \<Rightarrow> nat
    \<Rightarrow> ('i, 'o) arch \<Rightarrow> ('i, 'o) arch option" where
  "isa_steps fpu it ot prog 0 a = Some a"
| "isa_steps fpu it ot prog (Suc n) a =
     (case prog (a_pc a) of
        None \<Rightarrow> None
      | Some i \<Rightarrow> Option.bind (isa_exec fpu it ot i a) (isa_steps fpu it ot prog n))"

text \<open>
  \<open>retires ps s s'\<close>: from \<open>s\<close> the processor retires the instructions at the addresses \<open>ps\<close> and
  is then in \<open>s'\<close>.
\<close>

inductive retires ::
  "build \<Rightarrow> binding \<Rightarrow> 'i input_trait \<Rightarrow> 'o output_trait \<Rightarrow> bool \<Rightarrow> u32 list \<Rightarrow> ('i, 'o) cpu \<Rightarrow> ('i, 'o) cpu \<Rightarrow> bool"
  for b fpu it ot tr where
  retires_none: "retires b fpu it ot tr [] s s"
| retires_one: "cycle_one_full b fpu it ot tr s = (Ok res, s') \<Longrightarrow> cr_flow res \<noteq> CpuExit \<Longrightarrow>
    retires b fpu it ot tr ps s' s'' \<Longrightarrow> retires b fpu it ot tr (pc_inner (cpu_pc s) # ps) s s''"

inductive_cases retires_NilE [elim!]: "retires b fpu it ot tr [] s s'"
inductive_cases retires_ConsE: "retires b fpu it ot tr (p # ps) s s'"

lemma retires_append:
  assumes "retires b fpu it ot tr ps s t" "retires b fpu it ot tr qs t u"
  shows "retires b fpu it ot tr (ps @ qs) s u"
  using assms by (induction rule: retires.induct) (auto intro: retires.intros)

lemma retires_snoc:
  assumes "retires b fpu it ot tr ps s s'" "cycle_one_full b fpu it ot tr s' = (Ok res, s'')" "cr_flow res \<noteq> CpuExit"
  shows "retires b fpu it ot tr (ps @ [pc_inner (cpu_pc s')]) s s''"
  using retires_one [OF assms(2,3) retires_none] assms(1) by (auto intro: retires_append)

lemma retires_code_kept: "retires b fpu it ot tr ps s s' \<Longrightarrow> code_kept (cpu_memory s) (cpu_memory s')"
  by (induction rule: retires.induct) (auto intro: code_kept_trans cycle_code_kept)

lemma program_kept:
  assumes "code_aligned m" "code_kept m m'" "unat p mod 4 = 0"
  shows "program b m' p = program b m p"
proof -
  have "map (vec_elt (mem_inner m')) [unat p..<unat p + 4] = map (vec_elt (mem_inner m)) [unat p..<unat p + 4]"
    if "fst (instr_mem_range m) \<le> unat p" "unat p < snd (instr_mem_range m)"
  proof (rule map_cong [OF refl])
    fix i assume "i \<in> set [unat p..<unat p + 4]"
    then have "fst (instr_mem_range m) \<le> i \<and> i < snd (instr_mem_range m)"
      using that assms(1,3) unfolding code_aligned_def by auto presburger
    then show "vec_elt (mem_inner m') i = vec_elt (mem_inner m) i"
      using assms(1,2) by (auto simp: code_kept_def)
  qed
  then have "get_from_pc m' (Pc p) = get_from_pc m (Pc p)"
    using assms(2)
    by (simp add: get_from_pc_def get_raw_addr_def vec_slice_def code_kept_def pc_into_usize_def Let_def del: map_eq_conv)
  then show ?thesis by (simp add: program_def)
qed

lemma retires_isa_steps:
  assumes "retires b fpu it ot tr ps s s'" "code_aligned m" "code_kept m (cpu_memory s)" "\<forall>p \<in> set ps. unat p mod 4 = 0"
  shows "isa_steps fpu it ot (program b m) (length ps) (arch_of s) = Some (arch_of s')"
  using assms(1,3,4)
proof (induction rule: retires.induct)
  case (retires_one s res s1 ps s')
  obtain w i where w: "get_from_pc (cpu_memory s) (cpu_pc s) = Ok w" "decode_from b w = Ok i"
    "isa_exec fpu it ot i (arch_of s) = Some (arch_of s1)"
    using cycle_Ok [OF retires_one(1)] retires_one(2) by (auto split: if_splits)
  have "program b (cpu_memory s) (pc_inner (cpu_pc s)) = Some i"
    using w(1,2) by (simp add: program_def)
  then have "program b m (a_pc (arch_of s)) = Some i"
    using program_kept [OF assms(2) retires_one.prems(1)] retires_one.prems(2) by (simp add: arch_of_def)
  moreover have "code_kept m (cpu_memory s1)"
    using retires_one.prems(1) cycle_code_kept [OF retires_one(1)] by (rule code_kept_trans)
  ultimately show ?case using retires_one w(3) by simp
qed simp

end
