(* ===== verification/Straight_Line.thy ===== *)
theory Straight_Line
  imports Sim Code_Frame
begin

text \<open>
  Runs that end: from any state whose program, from the program counter on, is a list of
  computational instructions followed by the end marker, the batch driver exits, with the number
  of instructions and the registers the instruction set gives.
\<close>

section \<open>Straight-line code\<close>

fun straight :: "decoded_instr \<Rightarrow> bool" where
  "straight (Instr_R i rd rs1 rs2) = True"
| "straight (Instr_I i rd rs1 imm) = (i \<noteq> Lw \<and> i \<noteq> Jalr)"
| "straight (Instr_F (FInstr_E i rd rs1 rs2)) = True"
| "straight (Instr_F (FInstr_G i rd rs1 rs2 rs3)) = True"
| "straight (Instr_F (FInstr_H i rd rs1)) = (i \<noteq> Ffrac)"
| "straight (Instr_F (FInstr_K i rd rs1 rs2)) = True"
| "straight (Instr_F (FInstr_X i rd rs1)) = True"
| "straight (Instr_F (FInstr_Y i rd rs1)) = True"
| "straight _ = False"

lemma straight_class:
  assumes "straight i"
  shows "\<not> accesses_memory i" "\<not> performs_io i" "safe_instr i" "i \<noteq> Instr_Misc End"
  using assms by (cases i rule: straight.cases; simp add: safe_instr_def)+

lemma straight_advances:
  assumes "straight i" "isa_exec fpu it ot i a = Some a'"
  shows "a_pc a' = a_pc a + 4"
  using assms
proof (cases i rule: straight.cases)
  case (2 j rd rs1 imm)
  then show ?thesis using assms by (cases j) (auto simp: advance_def put_reg_def)
next
  case (6 j rd rs1 rs2)
  then show ?thesis using assms by (cases j) (auto simp: advance_def put_reg_def)
next
  case (7 j rd rs1)
  then show ?thesis using assms by (cases j) (auto simp: advance_def put_freg_def)
qed (auto simp: advance_def put_reg_def put_freg_def)

text \<open>From \<open>p\<close> on the program is \<open>is\<close> and then the end marker.\<close>

fun listing :: "(u32 \<Rightarrow> decoded_instr option) \<Rightarrow> u32 \<Rightarrow> decoded_instr list \<Rightarrow> bool" where
  "listing prog p [] \<longleftrightarrow> prog p = Some (Instr_Misc End)"
| "listing prog p (i # is) \<longleftrightarrow> prog p = Some i \<and> straight i \<and> listing prog (p + 4) is"

lemma word_aligned_next: "unat (p :: u32) mod 4 = 0 \<Longrightarrow> unat (p + 4) mod 4 = 0"
proof -
  assume "unat p mod 4 = 0"
  moreover have "(unat p + 4) mod 2 ^ 32 mod 4 = (unat p + 4) mod 4" by (rule mod_mod_cancel) simp
  ultimately show "unat (p + 4) mod 4 = 0" unfolding unat_word_ariths by simp
qed

lemma program_next:
  assumes "program b m p = Some i" "code_aligned m" "code_kept m (cpu_memory s)" "p = pc_inner (cpu_pc s)" "unat p mod 4 = 0"
  shows "\<exists>w. next_instr b s w i"
proof -
  have "program b (cpu_memory s) p = Some i" using program_kept [OF assms(2,3,5)] assms(1) by simp
  then show ?thesis using assms(4) by (auto simp: program_def next_instr_def split: outcome.splits)
qed

section \<open>Running it\<close>

lemma loop_once:
  assumes "cycle_one_full b fpu it ot False (sim_cpu s) = (Ok res, c)" "cr_trace res = None"
  shows "loop_body b fpu it ot now default_option None e s =
    (case cr_flow res of
       CpuContinue \<Rightarrow> (Ok None, s\<lparr>sim_cpu := c, elapsed_clocks := elapsed_clocks s + cr_cycles res, sim_cycle := sim_cycle s + 1\<rparr>)
     | CpuBreak reason \<Rightarrow> loop_body b fpu it ot now default_option None e s
     | CpuExit \<Rightarrow> (Ok (Some Exit), exit_sim now
         (s\<lparr>sim_cpu := c, elapsed_clocks := elapsed_clocks s + cr_cycles res, sim_cycle := sim_cycle s + 1\<rparr>)))"
  using assms
  by (cases "cr_flow res")
    (simp_all add: loop_body_def sim_execute_def check_breakpoint_def after_cycle_def print_trace_def act_simps default_option_def)

lemma straight_run:
  fixes s :: "('i, 'o) simulator"
  assumes dev: "total_devices it ot" and rel: "\<not> debug_assertions b" and al: "code_aligned m"
    and "cpu_wf b (sim_cpu s)" "code_kept m (cpu_memory (sim_cpu s))" "p = pc_inner (cpu_pc (sim_cpu s))" "unat p mod 4 = 0"
    and "listing (program b m) p is" "length is < fuel"
  shows "\<exists>s' c. sim_loop fuel (loop_body b fpu it ot now default_option None) e s = Some (Ok Exit, s')
    \<and> sim_cycle s' = sim_cycle s + length is + 1
    \<and> isa_steps fpu it ot (program b m) (length is) (arch_of (sim_cpu s)) = Some (arch_of c)
    \<and> arch_of (sim_cpu s') = advance (arch_of c)"
  using assms(4-)
proof (induction "is" arbitrary: s p fuel e)
  case Nil
  obtain k where k: "fuel = Suc k" using Nil.prems by (cases fuel) auto
  obtain w where w: "next_instr b (sim_cpu s) w (Instr_Misc End)"
    using program_next [OF _ al Nil.prems(2,3,4)] Nil.prems(5) by auto
  obtain res c where c: "cycle_one_full b fpu it ot False (sim_cpu s) = (Ok res, c)" "cr_flow res = CpuExit"
    using progress [OF dev Nil.prems(1) rel w, of fpu False] by (auto simp: safe_instr_def)
  have "arch_of c = advance (arch_of (sim_cpu s))"
    using cycle_Ok [OF c(1)] c(2) by (auto split: if_splits)
  then show ?case
    using loop_once [OF c(1) untraced_cycle [OF c(1)], of now e] c(2) k by (auto simp: exit_sim_def)
next
  case (Cons i "is")
  obtain k where k: "fuel = Suc k" "length is < k" using Cons.prems by (cases fuel) auto
  have i: "program b m p = Some i" "straight i" "listing (program b m) (p + 4) is" using Cons.prems(5) by simp_all
  obtain w where w: "next_instr b (sim_cpu s) w i" using program_next [OF i(1) al Cons.prems(2,3,4)] by blast
  obtain res c where c: "cycle_one_full b fpu it ot False (sim_cpu s) = (Ok res, c)" "cpu_wf b c" "cr_flow res = CpuContinue"
    and isa: "isa_exec fpu it ot i (arch_of (sim_cpu s)) = Some (arch_of c)"
    using progress [OF dev Cons.prems(1) rel w, of fpu False] straight_class [OF i(2)] by auto
  let ?s = "s\<lparr>sim_cpu := c, elapsed_clocks := elapsed_clocks s + cr_cycles res, sim_cycle := sim_cycle s + 1\<rparr>"
  have pc: "a_pc (arch_of (sim_cpu s)) = p" "p + 4 = pc_inner (cpu_pc (sim_cpu ?s))"
    using straight_advances [OF i(2) isa] Cons.prems(3) by (simp_all add: arch_of_def)
  have kept: "code_kept m (cpu_memory (sim_cpu ?s))"
    using code_kept_trans [OF Cons.prems(2) cycle_code_kept [OF c(1)]] by simp
  from Cons.IH [OF _ kept pc(2) word_aligned_next [OF Cons.prems(4)] i(3) k(2), of False]
  show ?case
    using loop_once [OF c(1) untraced_cycle [OF c(1)], of now e] c(2,3) k(1) i(1) isa pc(1) by auto
qed

section \<open>The batch driver on straight-line code\<close>

lemma batch_straight:
  assumes "total_devices it ot" "\<not> debug_assertions b" "cpu_wf b (sim_cpu s)" "code_aligned (cpu_memory (sim_cpu s))"
    and "fatal_error s = None" "unat (pc_inner (cpu_pc (sim_cpu s))) mod 4 = 0"
    and "listing (program b (cpu_memory (sim_cpu s))) (pc_inner (cpu_pc (sim_cpu s))) is" "length is + 2 \<le> fuel"
  shows "\<exists>s' c. batch_execute fuel b fpu it ot now s = Some (Ok (), s')
    \<and> single_cycle b fpu it ot now (fuel - 1) default_option s = Some (Ok Exit, s')
    \<and> sim_cycle s' = sim_cycle s + length is + 1
    \<and> isa_steps fpu it ot (program b (cpu_memory (sim_cpu s))) (length is) (arch_of (sim_cpu s)) = Some (arch_of c)
    \<and> arch_of (sim_cpu s') = advance (arch_of c)"
proof -
  obtain k where k: "fuel = Suc k" "length is < k" using assms(8) by (cases fuel) auto
  obtain s' c where s': "sim_loop k (loop_body b fpu it ot now default_option None) True s = Some (Ok Exit, s')"
    "sim_cycle s' = sim_cycle s + length is + 1" "arch_of (sim_cpu s') = advance (arch_of c)"
    "isa_steps fpu it ot (program b (cpu_memory (sim_cpu s))) (length is) (arch_of (sim_cpu s)) = Some (arch_of c)"
    using straight_run [OF assms(1,2,4,3) _ refl assms(6,7) k(2), of fpu now True] by auto
  have "single_cycle b fpu it ot now k default_option s = Some (Ok Exit, s')"
    using s'(1) assms(5) by (simp add: single_cycle_def) (simp add: default_option_def)
  then show ?thesis using s'(2-) k by (auto simp: flow_exit_code_def is_success_def)
qed


section \<open>The demonstration program\<close>

text \<open>A simulator loaded with the demonstration program.\<close>

definition demo_sim :: "(unit, unit) simulator \<Rightarrow> bool" where
  "demo_sim s \<longleftrightarrow> sim_new release_1st 0 demo_image () () = (Ok s :: (anyhow_error, _) outcome)
     \<and> booted release_1st demo_image (sim_cpu s)"

lemma sim_boot: "\<exists>s. demo_sim s"
proof -
  obtain c :: "(unit, unit) cpu" where c: "cpu_new release_1st demo_image () () = (Ok c :: (anyhow_error, _) outcome)"
    "booted release_1st demo_image c"
    using boot [OF demo_image_ok(1), of release_1st "()" "()", where ?'e = anyhow_error] by auto
  have "get_data_and_text_len demo_image = (Ok (0, 2) :: (anyhow_error, _) outcome)"
    by (simp add: get_data_and_text_len_def demo_image_def u32_from_le_bytes_def)
  then show ?thesis
    using c by (auto simp: demo_sim_def sim_new_def add_u32_def)
qed

lemma demo_fields:
  assumes "demo_sim s"
  shows "fatal_error s = None" "sim_cycle s = 0" "elapsed_clocks s = 0" "sb_instr_file_len (stat_builder s) = Some 2"
    "cpu_wf release_1st (sim_cpu s)" "code_aligned (cpu_memory (sim_cpu s))" "pc_inner (cpu_pc (sim_cpu s)) = 0"
    "reg_val (cpu_reg_file (sim_cpu s)) (RegId 0) = 0"
proof -
  have b: "booted release_1st demo_image (sim_cpu s)" using assms by (simp add: demo_sim_def)
  have len: "get_data_and_text_len demo_image = (Ok (0, 2) :: (anyhow_error, _) outcome)"
    by (simp add: get_data_and_text_len_def demo_image_def u32_from_le_bytes_def)
  show "fatal_error s = None" "sim_cycle s = 0" "elapsed_clocks s = 0" "sb_instr_file_len (stat_builder s) = Some 2"
    using assms by (auto simp: demo_sim_def sim_new_def len add_u32_def bind_out_Ok_iff sim_stat_builder_new_def)
  show "cpu_wf release_1st (sim_cpu s)" "code_aligned (cpu_memory (sim_cpu s))" "reg_val (cpu_reg_file (sim_cpu s)) (RegId 0) = 0"
    using b by (simp_all add: booted_def cpu_wf_def reg_file_wf_def)
  show "pc_inner (cpu_pc (sim_cpu s)) = 0"
    using b by (auto simp: booted_def pc_into_usize_def demo_image_ok unsigned_eq_0_iff)
qed

lemma demo_new: "demo_sim s \<Longrightarrow> sim_new release_1st 0 demo_image () () = (Ok s :: (anyhow_error, _) outcome)"
  by (simp add: demo_sim_def)

lemma demo_listing:
  assumes "demo_sim s"
  shows "listing (program release_1st (cpu_memory (sim_cpu s))) 0 [Instr_I Addi (RegId 5) (RegId 0) 5]"
proof -
  have b: "booted release_1st demo_image (sim_cpu s)" using assms by (simp add: demo_sim_def)
  have "u32_from_le_bytes (take 4 (drop 12 demo_image)) = 0" "length demo_image = 16" by (simp_all add: demo_image_def)
  then have "get_from_pc (cpu_memory (sim_cpu s)) (Pc 4) = Ok 0"
    using booted_fetch [OF b, of 1] by (simp add: demo_image_ok)
  moreover have "get_from_pc (cpu_memory (sim_cpu s)) (Pc 0) = Ok 0x00500293"
    using demo_fetch [OF b] demo_fields(7) [OF assms] by (metis pc.exhaust_sel)
  moreover have "decode_from release_1st 0 = Ok (Instr_Misc End)"
    using decode_encode [of release_1st "Instr_Misc End"]
    by (simp add: decode_from_def encodable_def operands_ok_def imm_ok_def)
  ultimately show ?thesis by (simp add: program_def demo_decode)
qed

lemma demo_run:
  assumes "demo_sim s"
  obtains s' where "batch_execute 3 release_1st demo_fpu empty_input empty_output 0 s = Some (Ok (), s')"
    "single_cycle release_1st demo_fpu empty_input empty_output 0 2 default_option s = Some (Ok Exit, s')"
  using batch_straight [OF empty_devices.total_devices_axioms, of release_1st s "[Instr_I Addi (RegId 5) (RegId 0) 5]" 3 demo_fpu 0]
    demo_fields [OF assms] demo_listing [OF assms] by auto


end
