(* ===== verification/Sim_Run.thy ===== *)
theory Sim_Run
  imports Straight_Line
begin

text \<open>
  Properties of \<^verbatim>\<open>Simulator::single_cycle\<close> and of the batch loop: what a stop of the simulator
  may change, why the run loops stop, and what the driver reports.
\<close>

section \<open>Inspection leaves the machine alone\<close>

text \<open>
  Gathering the watched values reads registers and memory, which counts the reads and nothing
  else: the register values, the bytes of the memory, the program counter, the devices and the
  simulator's own counters stay.
\<close>

definition inspected :: "('i, 'o) simulator \<Rightarrow> ('i, 'o) simulator \<Rightarrow> bool" where
  "inspected s s' \<longleftrightarrow>
     (\<exists>rf m. s' = s\<lparr>sim_cpu := (sim_cpu s)\<lparr>cpu_reg_file := rf, cpu_memory := m\<rparr>\<rparr>
        \<and> same_values (cpu_reg_file (sim_cpu s)) rf
        \<and> mem_inner m = mem_inner (cpu_memory (sim_cpu s))
        \<and> instr_mem_range m = instr_mem_range (cpu_memory (sim_cpu s)))"

lemma inspectedI:
  assumes "same_values (cpu_reg_file (sim_cpu s)) rf" "mem_inner m = mem_inner (cpu_memory (sim_cpu s))"
    "instr_mem_range m = instr_mem_range (cpu_memory (sim_cpu s))"
  shows "inspected s (s\<lparr>sim_cpu := (sim_cpu s)\<lparr>cpu_reg_file := rf, cpu_memory := m\<rparr>\<rparr>)"
  using assms unfolding inspected_def by blast

interpretation inspection: frame_relation inspected
proof
  show "inspected s s" for s :: "('i, 'o) simulator"
    using inspectedI [of s "cpu_reg_file (sim_cpu s)" "cpu_memory (sim_cpu s)"] by (simp add: same_values_def)
  show "inspected s u" if "inspected s t" "inspected t u" for s t u :: "('i, 'o) simulator"
    using that unfolding inspected_def by (auto simp: same_values_def) (rule exI, rule exI, auto)
qed

lemma inspected_fields:
  assumes "inspected s s'"
  shows "cpu_pc (sim_cpu s') = cpu_pc (sim_cpu s)" "sim_cycle s' = sim_cycle s"
    "elapsed_clocks s' = elapsed_clocks s" "fatal_error s' = fatal_error s" "stat_builder s' = stat_builder s"
    "rf_inner (cpu_reg_file (sim_cpu s')) = rf_inner (cpu_reg_file (sim_cpu s))"
    "rf_inner_f (cpu_reg_file (sim_cpu s')) = rf_inner_f (cpu_reg_file (sim_cpu s))"
    "mem_inner (cpu_memory (sim_cpu s')) = mem_inner (cpu_memory (sim_cpu s))"
  using assms by (auto simp: inspected_def same_values_def)

text \<open>
  The reads themselves do even less: they move the read counters of the register file and of the
  memory, and nothing else of the simulator.
\<close>

definition with_reads ::
  "nat vec \<Rightarrow> nat vec \<Rightarrow> memory_region_count \<Rightarrow> ('i, 'o) simulator \<Rightarrow> ('i, 'o) simulator" where
  "with_reads ri rf rm s =
     (let c = sim_cpu s; g = cpu_reg_file c; m = cpu_memory c in
      s\<lparr>sim_cpu := c\<lparr>
          cpu_reg_file := g\<lparr>rf_stat_i := (rf_stat_i g)\<lparr>rs_read := ri\<rparr>, rf_stat_f := (rf_stat_f g)\<lparr>rs_read := rf\<rparr>\<rparr>,
          cpu_memory := m\<lparr>stat_mem := (stat_mem m)\<lparr>ms_read := rm\<rparr>\<rparr>\<rparr>\<rparr>)"

definition looked :: "('i, 'o) simulator \<Rightarrow> ('i, 'o) simulator \<Rightarrow> bool" where
  "looked s s' \<longleftrightarrow> (\<exists>ri rf rm. s' = with_reads ri rf rm s)"

lemma looked_inspected:
  assumes "looked s s'"
  shows "inspected s s'"
proof -
  let ?g = "cpu_reg_file (sim_cpu s)" and ?m = "cpu_memory (sim_cpu s)"
  obtain ri rf rm where "s' = with_reads ri rf rm s" using assms by (auto simp: looked_def)
  then show ?thesis
    using inspectedI [of s "?g\<lparr>rf_stat_i := (rf_stat_i ?g)\<lparr>rs_read := ri\<rparr>, rf_stat_f := (rf_stat_f ?g)\<lparr>rs_read := rf\<rparr>\<rparr>"
        "?m\<lparr>stat_mem := (stat_mem ?m)\<lparr>ms_read := rm\<rparr>\<rparr>"]
    by (simp add: with_reads_def Let_def same_values_def)
qed

lemma looked_i: "looked s (s\<lparr>sim_cpu := (sim_cpu s)\<lparr>cpu_reg_file := (cpu_reg_file (sim_cpu s))
      \<lparr>rf_stat_i := (rf_stat_i (cpu_reg_file (sim_cpu s)))\<lparr>rs_read := v\<rparr>\<rparr>\<rparr>\<rparr>)"
  unfolding looked_def with_reads_def Let_def
  by (rule exI [of _ v], rule exI [of _ "rs_read (rf_stat_f (cpu_reg_file (sim_cpu s)))"],
      rule exI [of _ "ms_read (stat_mem (cpu_memory (sim_cpu s)))"]) simp

lemma looked_f: "looked s (s\<lparr>sim_cpu := (sim_cpu s)\<lparr>cpu_reg_file := (cpu_reg_file (sim_cpu s))
      \<lparr>rf_stat_f := (rf_stat_f (cpu_reg_file (sim_cpu s)))\<lparr>rs_read := v\<rparr>\<rparr>\<rparr>\<rparr>)"
  unfolding looked_def with_reads_def Let_def
  by (rule exI [of _ "rs_read (rf_stat_i (cpu_reg_file (sim_cpu s)))"], rule exI [of _ v],
      rule exI [of _ "ms_read (stat_mem (cpu_memory (sim_cpu s)))"]) simp

lemma looked_m: "looked s (s\<lparr>sim_cpu := (sim_cpu s)\<lparr>cpu_memory := (cpu_memory (sim_cpu s))
      \<lparr>stat_mem := (stat_mem (cpu_memory (sim_cpu s)))\<lparr>ms_read := v\<rparr>\<rparr>\<rparr>\<rparr>)"
  unfolding looked_def with_reads_def Let_def
  by (rule exI [of _ "rs_read (rf_stat_i (cpu_reg_file (sim_cpu s)))"],
      rule exI [of _ "rs_read (rf_stat_f (cpu_reg_file (sim_cpu s)))"], rule exI [of _ v]) simp

lemma with_reads_twice: "with_reads ri rf rm (with_reads ri' rf' rm' s) = with_reads ri rf rm s"
  by (simp add: with_reads_def Let_def)

interpretation looking: frame_relation looked
proof
  show "looked s s" for s :: "('i, 'o) simulator"
    using looked_i [of s "rs_read (rf_stat_i (cpu_reg_file (sim_cpu s)))"] by simp
  show "looked s u" if "looked s t" "looked t u" for s t u :: "('i, 'o) simulator"
    using that unfolding looked_def by (metis with_reads_twice)
qed

lemma reg_get_counts:
  "\<exists>v. snd (reg_get r rf) = rf\<lparr>rf_stat_i := (rf_stat_i rf)\<lparr>rs_read := v\<rparr>\<rparr>"
  "\<exists>v. snd (reg_get_f f rf) = rf\<lparr>rf_stat_f := (rf_stat_f rf)\<lparr>rs_read := v\<rparr>\<rparr>"
proof -
  have i: "\<exists>v. rf = rf\<lparr>rf_stat_i := (rf_stat_i rf)\<lparr>rs_read := v\<rparr>\<rparr>"
    by (rule exI [of _ "rs_read (rf_stat_i rf)"]) simp
  have f: "\<exists>v. rf = rf\<lparr>rf_stat_f := (rf_stat_f rf)\<lparr>rs_read := v\<rparr>\<rparr>"
    by (rule exI [of _ "rs_read (rf_stat_f rf)"]) simp
  show "\<exists>v. snd (reg_get r rf) = rf\<lparr>rf_stat_i := (rf_stat_i rf)\<lparr>rs_read := v\<rparr>\<rparr>"
    using i by (auto simp: reg_get_def encounter_read_def act_simps split: prod.splits outcome.splits)
  show "\<exists>v. snd (reg_get_f f rf) = rf\<lparr>rf_stat_f := (rf_stat_f rf)\<lparr>rs_read := v\<rparr>\<rparr>"
    using f by (auto simp: reg_get_f_def encounter_read_def act_simps split: prod.splits outcome.splits)
qed

lemma mem_get_counts:
  "\<exists>v. fst (snd (mem_get b sz rg a (m, sp))) = m\<lparr>stat_mem := (stat_mem m)\<lparr>ms_read := v\<rparr>\<rparr>"
proof -
  let ?m = "fst (snd (mem_get b sz rg a (m, sp)))"
  have "\<not> t < Unknown" for t by (cases t) (simp_all add: less_ty_def partial_cmp_def)
  then have "mem_inner ?m = mem_inner m \<and> instr_mem_range ?m = instr_mem_range m \<and> mem_ty ?m = mem_ty m
      \<and> spy_on_read ?m = spy_on_read m \<and> spy_on_write ?m = spy_on_write m \<and> ms_write (stat_mem ?m) = ms_write (stat_mem m)"
    by (auto simp: mem_get_def unify_def on_read_def stat_on_read_def act_simps split: prod.splits outcome.splits if_splits)
  then have "?m = m\<lparr>stat_mem := (stat_mem m)\<lparr>ms_read := ms_read (stat_mem ?m)\<rparr>\<rparr>"
    by (intro memory.equality memory_stat.equality) simp_all
  then show ?thesis by blast
qed

lemma get_reg_looks:
  "keeps looked (sim_get_reg r :: (('i, 'o) simulator, 'e, typed_u32) action)"
  "keeps looked (sim_get_freg f :: (('i, 'o) simulator, 'e, f32) action)"
proof -
  have "looked s (snd ((sim_get_reg r :: (('i, 'o) simulator, 'e, typed_u32) action) s))" for s :: "('i, 'o) simulator"
  proof -
    let ?g = "cpu_reg_file (sim_cpu s)"
    obtain q g where q: "(reg_get r ?g :: ('e, u32) outcome \<times> reg_file) = (q, g)" by fastforce
    then obtain v where "g = ?g\<lparr>rf_stat_i := (rf_stat_i ?g)\<lparr>rs_read := v\<rparr>\<rparr>"
      using reg_get_counts(1) by (metis snd_conv)
    then show ?thesis
      using looked_i [of s v] q by (cases q) (simp_all add: sim_get_reg_def cpu_get_reg_def act_simps)
  qed
  then show "keeps looked (sim_get_reg r :: (('i, 'o) simulator, 'e, typed_u32) action)" by (simp add: keeps_def)
  have "looked s (snd ((sim_get_freg f :: (('i, 'o) simulator, 'e, f32) action) s))" for s :: "('i, 'o) simulator"
  proof -
    let ?g = "cpu_reg_file (sim_cpu s)"
    obtain q g where q: "(reg_get_f f ?g :: ('e, f32) outcome \<times> reg_file) = (q, g)" by fastforce
    then obtain v where "g = ?g\<lparr>rf_stat_f := (rf_stat_f ?g)\<lparr>rs_read := v\<rparr>\<rparr>"
      using reg_get_counts(2) by (metis snd_conv)
    then show ?thesis
      using looked_f [of s v] q by (cases q) (simp_all add: sim_get_freg_def cpu_get_freg_def act_simps)
  qed
  then show "keeps looked (sim_get_freg f :: (('i, 'o) simulator, 'e, f32) action)" by (simp add: keeps_def)
qed

lemma get_mem_looks: "keeps looked (sim_get_mem b a :: ('i, 'o, typed_u32) sim_act)"
proof -
  have "looked s (snd (sim_get_mem b a s))" for s :: "('i, 'o) simulator"
  proof -
    let ?acc = "mem_get b RAM_BYTE_SIZE (stat_memregion (cpu_reg_file (sim_cpu s))) (addr_inner a)"
    obtain v where v: "fst (snd (?acc (cpu_memory (sim_cpu s), None)))
        = (cpu_memory (sim_cpu s))\<lparr>stat_mem := (stat_mem (cpu_memory (sim_cpu s)))\<lparr>ms_read := v\<rparr>\<rparr>"
      using mem_get_counts by blast
    obtain q m sp where q: "?acc (cpu_memory (sim_cpu s), None) = (q, m, sp)" by (metis surj_pair)
    then have "snd (sim_get_mem b a s) = s\<lparr>sim_cpu := (sim_cpu s)\<lparr>cpu_memory := m\<rparr>\<rparr>"
      by (cases q) (simp_all add: sim_get_mem_def cpu_get_mem_def act_simps with_local_def)
    then show ?thesis using looked_m [of s v] v q by simp
  qed
  then show ?thesis by (simp add: keeps_def)
qed

lemma keeps_looked: "keeps looked m \<Longrightarrow> keeps inspected m"
  by (simp add: keeps_def looked_inspected)

lemmas get_reg_inspects = get_reg_looks [THEN keeps_looked]
lemmas get_mem_inspects = get_mem_looks [THEN keeps_looked]

lemma gather_looks:
  "keeps looked (gather_regs rs w)" "keeps looked (gather_fregs fs w)" "keeps looked (gather_mem b as w)"
proof -
  show "keeps looked (gather_regs rs w)"
    by (induction rs arbitrary: w) (auto intro: looking.keeps_ret looking.keeps_bind get_reg_looks)
  show "keeps looked (gather_fregs fs w)"
    by (induction fs arbitrary: w) (auto intro: looking.keeps_ret looking.keeps_bind get_reg_looks)
  show "keeps looked (gather_mem b as w)"
    by (induction as arbitrary: w)
      (auto intro!: looking.keeps_ret looking.keeps_bind looking.keeps_attempt get_mem_looks split: sum.split)
qed

lemma break_looks: "keeps looked (break_sim b opt reason)"
  unfolding break_sim_def gather_watchings_def
  by (intro looking.keeps_bind looking.keeps_ret gather_looks)

text \<open>Stopping reports the reason it was asked to report, or panics on a watched address.\<close>

lemma get_reg_no_err: "no_err (sim_get_reg r)" "no_err (sim_get_freg f)"
proof -
  have "no_err (reg_get r)" "no_err (reg_get_f f)"
    by (auto simp: fails_only_def reg_get_def reg_get_f_def encounter_read_def vec_incr_def vec_get_def act_simps
        split: prod.splits outcome.splits if_splits)
  then show "no_err (sim_get_reg r)" "no_err (sim_get_freg f)"
    unfolding sim_get_reg_def sim_get_freg_def cpu_get_reg_def cpu_get_freg_def
    by (intro fails_bind fails_basic fails_zoom; simp)+
qed

lemma gather_no_err: "no_err (gather_regs rs w)" "no_err (gather_fregs fs w)" "no_err (gather_mem b as w)"
proof -
  show "no_err (gather_regs rs w)"
    by (induction rs arbitrary: w) (auto intro: fails_basic fails_bind get_reg_no_err)
  show "no_err (gather_fregs fs w)"
    by (induction fs arbitrary: w) (auto intro: fails_basic fails_bind get_reg_no_err)
  show "no_err (gather_mem b as w)"
    by (induction as arbitrary: w) (auto intro!: fails_basic fails_bind split: sum.split)
qed

lemma gather_watchings_no_err: "no_err (gather_watchings b w)"
  unfolding gather_watchings_def by (intro fails_bind gather_no_err)

lemma break_sim_result:
  assumes "break_sim b opt reason s = (r, s')"
  shows "inspected s s'" "(\<exists>w. r = Ok (Break \<lparr>ob_watchings = w, ob_reason = reason\<rparr>)) \<or> is_panic r"
    "looked s s'"
proof -
  show "looked s s'" by (rule keepsD [OF break_looks assms])
  then show "inspected s s'" by (rule looked_inspected)
  have "fst (gather_watchings b (opt_watchings opt) s) \<noteq> Err e" for e
    using gather_watchings_no_err unfolding fails_only_def by blast
  then show "(\<exists>w. r = Ok (Break \<lparr>ob_watchings = w, ob_reason = reason\<rparr>)) \<or> is_panic r"
    using assms by (auto simp: break_sim_def act_simps split: prod.splits outcome.splits)
qed

section \<open>Watched values\<close>

text \<open>
  The values a stop shows: the content of every watched register with the type its name stands
  for, and every watched word with its tag. They can be read when the registers exist in the build
  and the addresses are admissible; otherwise \<^verbatim>\<open>gather_watchings\<close> panics.
\<close>

definition watched :: "watchings \<Rightarrow> ('i, 'o) cpu \<Rightarrow> watching_values" where
  "watched w c =
     \<lparr>wv_reg_map = (\<lambda>r. if r \<in> set (w_reg w) then Some (typed (reg_val (cpu_reg_file c) r) (reg_ty r)) else None),
      wv_freg_map = (\<lambda>f. if f \<in> set (w_freg w) then Some (freg_val (cpu_reg_file c) f) else None),
      wv_memory_map = (\<lambda>a. if a \<in> set (w_memory w)
         then Some (typed (mem_word (cpu_memory c) (addr_inner a)) (mem_tag (cpu_memory c) (addr_inner a))) else None)\<rparr>"

definition readable :: "build \<Rightarrow> watchings \<Rightarrow> ('i, 'o) cpu \<Rightarrow> bool" where
  "readable b w c \<longleftrightarrow>
     reg_file_wf b (cpu_reg_file c) \<and> list_all (reg_ok b) (w_reg w) \<and> list_all (freg_ok b) (w_freg w)
     \<and> list_all (\<lambda>a. access_ok b RAM_BYTE_SIZE (stat_memregion (cpu_reg_file c)) (cpu_memory c) (addr_inner a)) (w_memory w)"

lemma gather_regs_eq:
  assumes "reg_file_wf b (cpu_reg_file (sim_cpu s))" "list_all (reg_ok b) rs"
  shows "\<exists>rf. gather_regs rs w s = (Ok (w\<lparr>wv_reg_map := (\<lambda>r. if r \<in> set rs
        then Some (typed (reg_val (cpu_reg_file (sim_cpu s)) r) (reg_ty r)) else wv_reg_map w r)\<rparr>),
      s\<lparr>sim_cpu := (sim_cpu s)\<lparr>cpu_reg_file := rf\<rparr>\<rparr>)
    \<and> same_values (cpu_reg_file (sim_cpu s)) rf \<and> reg_file_wf b rf"
  using assms
proof (induction rs arbitrary: w s)
  case Nil
  then show ?case by (intro exI [of _ "cpu_reg_file (sim_cpu s)"]) (simp add: act_ret_def same_values_def)
next
  case (Cons r rs)
  let ?g = "cpu_reg_file (sim_cpu s)"
  let ?s = "s\<lparr>sim_cpu := (sim_cpu s)\<lparr>cpu_reg_file := touch_i r ?g\<rparr>\<rparr>"
  let ?w = "w\<lparr>wv_reg_map := (wv_reg_map w)(r \<mapsto> typed (reg_val ?g r) (reg_ty r))\<rparr>"
  have r: "reg_ok b r" "list_all (reg_ok b) rs" using Cons.prems by simp_all
  have get: "gather_regs (r # rs) w s = gather_regs rs ?w ?s"
    by (simp add: sim_get_reg_def cpu_get_reg_def act_simps touch_reads(1) [OF Cons.prems(1) r(1)])
  have same: "same_values ?g (touch_i r ?g)"
    using touch_frame [OF Cons.prems(1)] r(1) by (simp add: same_values_def)
  obtain rf where rf: "gather_regs rs ?w ?s = (Ok (?w\<lparr>wv_reg_map := (\<lambda>q. if q \<in> set rs
        then Some (typed (reg_val (touch_i r ?g) q) (reg_ty q)) else wv_reg_map ?w q)\<rparr>),
      s\<lparr>sim_cpu := (sim_cpu s)\<lparr>cpu_reg_file := rf\<rparr>\<rparr>)" "same_values (touch_i r ?g) rf" "reg_file_wf b rf"
    using Cons.IH [of ?s ?w] touch_frame(1) [OF Cons.prems(1) r(1)] r(2) by (auto cong: if_cong)
  then show ?case
    using same unfolding get by (intro exI [of _ rf]) (auto simp: same_values_def fun_eq_iff)
qed

lemma gather_fregs_eq:
  assumes "reg_file_wf b (cpu_reg_file (sim_cpu s))" "list_all (freg_ok b) rs"
  shows "\<exists>rf. gather_fregs rs w s = (Ok (w\<lparr>wv_freg_map := (\<lambda>r. if r \<in> set rs
        then Some (freg_val (cpu_reg_file (sim_cpu s)) r) else wv_freg_map w r)\<rparr>),
      s\<lparr>sim_cpu := (sim_cpu s)\<lparr>cpu_reg_file := rf\<rparr>\<rparr>)
    \<and> same_values (cpu_reg_file (sim_cpu s)) rf \<and> reg_file_wf b rf"
  using assms
proof (induction rs arbitrary: w s)
  case Nil
  then show ?case by (intro exI [of _ "cpu_reg_file (sim_cpu s)"]) (simp add: act_ret_def same_values_def)
next
  case (Cons r rs)
  let ?g = "cpu_reg_file (sim_cpu s)"
  let ?s = "s\<lparr>sim_cpu := (sim_cpu s)\<lparr>cpu_reg_file := touch_f r ?g\<rparr>\<rparr>"
  let ?w = "w\<lparr>wv_freg_map := (wv_freg_map w)(r \<mapsto> freg_val ?g r)\<rparr>"
  have r: "freg_ok b r" "list_all (freg_ok b) rs" using Cons.prems by simp_all
  have get: "gather_fregs (r # rs) w s = gather_fregs rs ?w ?s"
    by (simp add: sim_get_freg_def cpu_get_freg_def act_simps touch_reads(2) [OF Cons.prems(1) r(1)])
  have same: "same_values ?g (touch_f r ?g)"
    using touch_frame [OF Cons.prems(1)] r(1) by (simp add: same_values_def)
  obtain rf where rf: "gather_fregs rs ?w ?s = (Ok (?w\<lparr>wv_freg_map := (\<lambda>q. if q \<in> set rs
        then Some (freg_val (touch_f r ?g) q) else wv_freg_map ?w q)\<rparr>),
      s\<lparr>sim_cpu := (sim_cpu s)\<lparr>cpu_reg_file := rf\<rparr>\<rparr>)" "same_values (touch_f r ?g) rf" "reg_file_wf b rf"
    using Cons.IH [of ?s ?w] touch_frame(2) [OF Cons.prems(1) r(1)] r(2) by (auto cong: if_cong)
  then show ?case
    using same unfolding get by (intro exI [of _ rf]) (auto simp: same_values_def fun_eq_iff)
qed

lemma access_ok_counts [simp]:
  "access_ok b sz rg (m\<lparr>stat_mem := v\<rparr>) a = access_ok b sz rg m a" "mem_word (m\<lparr>stat_mem := v\<rparr>) a = mem_word m a"
  by (simp_all add: access_ok_def memory_wf_def accessible_def bounds_check_def mem_word_def)

lemma gather_mem_eq:
  assumes "list_all (\<lambda>a. access_ok b RAM_BYTE_SIZE (stat_memregion (cpu_reg_file (sim_cpu s)))
      (cpu_memory (sim_cpu s)) (addr_inner a)) as"
  shows "\<exists>s'. gather_mem b as w s = (Ok (w\<lparr>wv_memory_map := (\<lambda>a. if a \<in> set as
        then Some (typed (mem_word (cpu_memory (sim_cpu s)) (addr_inner a)) (mem_tag (cpu_memory (sim_cpu s)) (addr_inner a)))
        else wv_memory_map w a)\<rparr>), s')"
  using assms
proof (induction as arbitrary: w s)
  case Nil
  then show ?case by (simp add: act_ret_def)
next
  case (Cons a as)
  let ?m = "cpu_memory (sim_cpu s)" and ?rg = "stat_memregion (cpu_reg_file (sim_cpu s))"
  let ?s = "s\<lparr>sim_cpu := (sim_cpu s)\<lparr>cpu_memory := read_word ?rg (addr_inner a) ?m\<rparr>\<rparr>"
  let ?w = "w\<lparr>wv_memory_map := (wv_memory_map w)(a \<mapsto> typed (mem_word ?m (addr_inner a)) (mem_tag ?m (addr_inner a)))\<rparr>"
  have ok: "access_ok b RAM_BYTE_SIZE ?rg ?m (addr_inner a)" using Cons.prems by simp
  have "gather_mem b (a # as) w s = gather_mem b as ?w ?s"
    using mem_get_eq [OF ok] by (simp add: sim_get_mem_def cpu_get_mem_def act_simps with_local_def)
  moreover have "\<exists>s'. gather_mem b as ?w ?s = (Ok (?w\<lparr>wv_memory_map := (\<lambda>c. if c \<in> set as
        then Some (typed (mem_word ?m (addr_inner c)) (mem_tag ?m (addr_inner c))) else wv_memory_map ?w c)\<rparr>), s')"
    using Cons.IH [of ?s ?w] Cons.prems by (simp add: read_word_def cong: if_cong)
  ultimately show ?case by (auto simp: fun_eq_iff)
qed

lemma readable_break:
  assumes "readable b (opt_watchings opt) (sim_cpu s)"
  shows "fst (break_sim b opt reason s) = Ok (Break \<lparr>ob_watchings = watched (opt_watchings opt) (sim_cpu s), ob_reason = reason\<rparr>)"
proof -
  let ?w = "opt_watchings opt" and ?g = "cpu_reg_file (sim_cpu s)"
  let ?va = "\<lparr>wv_reg_map = Map.empty, wv_freg_map = Map.empty, wv_memory_map = Map.empty\<rparr>"
  let ?vb = "?va\<lparr>wv_reg_map := (\<lambda>r. if r \<in> set (w_reg ?w) then Some (typed (reg_val ?g r) (reg_ty r)) else None)\<rparr>"
  let ?vc = "?vb\<lparr>wv_freg_map := (\<lambda>f. if f \<in> set (w_freg ?w) then Some (freg_val ?g f) else None)\<rparr>"
  have wf: "reg_file_wf b ?g" "list_all (reg_ok b) (w_reg ?w)" "list_all (freg_ok b) (w_freg ?w)"
    "list_all (\<lambda>a. access_ok b RAM_BYTE_SIZE (stat_memregion ?g) (cpu_memory (sim_cpu s)) (addr_inner a)) (w_memory ?w)"
    using assms by (simp_all add: readable_def)
  obtain g1 where 1: "gather_regs (w_reg ?w) ?va s = (Ok ?vb, s\<lparr>sim_cpu := (sim_cpu s)\<lparr>cpu_reg_file := g1\<rparr>\<rparr>)"
    "same_values ?g g1" "reg_file_wf b g1"
    using gather_regs_eq [OF wf(1,2), of ?va] by (auto cong: if_cong)
  let ?sa = "s\<lparr>sim_cpu := (sim_cpu s)\<lparr>cpu_reg_file := g1\<rparr>\<rparr>"
  obtain g2 where 2: "gather_fregs (w_freg ?w) ?vb ?sa = (Ok ?vc, s\<lparr>sim_cpu := (sim_cpu s)\<lparr>cpu_reg_file := g2\<rparr>\<rparr>)"
    "same_values g1 g2"
    using gather_fregs_eq [of b ?sa "w_freg ?w" ?vb] 1(2,3) wf(3) by (auto simp: same_values_def cong: if_cong)
  let ?sb = "s\<lparr>sim_cpu := (sim_cpu s)\<lparr>cpu_reg_file := g2\<rparr>\<rparr>"
  obtain s3 where 3: "gather_mem b (w_memory ?w) ?vc ?sb = (Ok (watched ?w (sim_cpu s)), s3)"
    using gather_mem_eq [of b ?sb "w_memory ?w" ?vc] 1(2) 2(2) wf(4) by (auto simp: same_values_def watched_def cong: if_cong)
  show ?thesis using 1(1) 2(1) 3 by (simp add: break_sim_def gather_watchings_def act_simps)
qed

section \<open>One execution as a step relation\<close>

definition stop_with :: "('e, control_flow) outcome \<Rightarrow> ('e, control_flow option) outcome" where
  "stop_with r = bind_out r (\<lambda>cf. Ok (Some cf))"

definition counted :: "('i, 'o) simulator \<Rightarrow> ('i, 'o) cpu \<Rightarrow> usize \<Rightarrow> ('i, 'o) simulator" where
  "counted s c n = s\<lparr>sim_cpu := c, elapsed_clocks := elapsed_clocks s + n, sim_cycle := sim_cycle s + 1\<rparr>"

definition unbroken :: "simulation_option \<Rightarrow> bool \<Rightarrow> ('i, 'o) simulator \<Rightarrow> bool" where
  "unbroken opt is_enter s \<longleftrightarrow> is_enter \<or> breakpoints opt (get_pc_addr (sim_cpu s)) = None"

text \<open>
  One use of the macro \<^verbatim>\<open>execute!\<close>: stop at a break point, panic in the processor, fail, stop
  on a watch point, exit, or retire an instruction and go on.
\<close>

inductive exec_step ::
  "build \<Rightarrow> simulation_option \<Rightarrow> nat \<Rightarrow> ('i, 'o, cycle_result) cpu_act \<Rightarrow> bool \<Rightarrow> ('i, 'o) simulator
    \<Rightarrow> (anyhow_error, control_flow option) outcome \<Rightarrow> ('i, 'o) simulator \<Rightarrow> bool"
  for b opt now cyc where
  at_breakpoint:
    "breakpoints opt (get_pc_addr (sim_cpu s)) = Some bp \<Longrightarrow>
     break_sim b opt (BreakPoint (bp_addr bp)) s = (r, s') \<Longrightarrow>
     exec_step b opt now cyc False s (stop_with r) s'"
| cpu_panics:
    "unbroken opt e s \<Longrightarrow> cyc (sim_cpu s) = (Panic p, c) \<Longrightarrow>
     exec_step b opt now cyc e s (Panic p) (s\<lparr>sim_cpu := c\<rparr>)"
| cpu_fails:
    "unbroken opt e s \<Longrightarrow> cyc (sim_cpu s) = (Err err, c) \<Longrightarrow>
     break_sim b opt Failed (s\<lparr>sim_cpu := c, fatal_error := Some err\<rparr>) = (r, s') \<Longrightarrow>
     exec_step b opt now cyc e s (stop_with r) s'"
| watch_point:
    "unbroken opt e s \<Longrightarrow> cyc (sim_cpu s) = (Ok res, c) \<Longrightarrow> cr_flow res = CpuBreak (CpuSpy w) \<Longrightarrow>
     break_sim b opt (Spy w) (counted s c (cr_cycles res)) = (r, s') \<Longrightarrow>
     exec_step b opt now cyc e s (stop_with r) s'"
| exits:
    "unbroken opt e s \<Longrightarrow> cyc (sim_cpu s) = (Ok res, c) \<Longrightarrow> cr_flow res = CpuExit \<Longrightarrow>
     exec_step b opt now cyc e s (Ok (Some Exit)) (exit_sim now (counted s c (cr_cycles res)))"
| goes_on:
    "unbroken opt e s \<Longrightarrow> cyc (sim_cpu s) = (Ok res, c) \<Longrightarrow> cr_flow res = CpuContinue \<Longrightarrow>
     print_trace b (sim_cycle s + 1) res (counted s c (cr_cycles res)) = (r, s') \<Longrightarrow>
     exec_step b opt now cyc e s (bind_out r (\<lambda>_. Ok None)) s'"

lemma after_cycle_step:
  assumes "unbroken opt e s" "cyc (sim_cpu s) = (Ok res, c)"
  shows "exec_step b opt now cyc e s (fst (after_cycle b now opt res (s\<lparr>sim_cpu := c\<rparr>)))
    (snd (after_cycle b now opt res (s\<lparr>sim_cpu := c\<rparr>)))"
proof (cases "cr_flow res")
  case CpuContinue
  obtain r s' where r: "print_trace b (sim_cycle s + 1) res (counted s c (cr_cycles res)) = (r, s')" by fastforce
  then have "after_cycle b now opt res (s\<lparr>sim_cpu := c\<rparr>) = (bind_out r (\<lambda>_. Ok None), s')"
    using CpuContinue by (cases r) (simp_all add: after_cycle_def act_simps counted_def)
  then show ?thesis using goes_on [where cyc = cyc, OF assms CpuContinue r] by simp
next
  case (CpuBreak reason)
  obtain w where w: "reason = CpuSpy w" by (cases reason)
  obtain r s' where r: "break_sim b opt (Spy w) (counted s c (cr_cycles res)) = (r, s')" by fastforce
  then have "after_cycle b now opt res (s\<lparr>sim_cpu := c\<rparr>) = (stop_with r, s')"
    using CpuBreak w by (cases r) (simp_all add: after_cycle_def act_simps counted_def stop_with_def)
  then show ?thesis using watch_point [where cyc = cyc, OF assms _ r] CpuBreak w by simp
next
  case CpuExit
  then have "after_cycle b now opt res (s\<lparr>sim_cpu := c\<rparr>) = (Ok (Some Exit), exit_sim now (counted s c (cr_cycles res)))"
    by (simp add: after_cycle_def act_simps counted_def)
  then show ?thesis using exits [where cyc = cyc, OF assms CpuExit] by simp
qed

lemma break_step:
  assumes "\<not> unbroken opt e s"
  shows "exec_step b opt now (cycle_one_full b fpu it ot (do_trace opt)) e s
     (fst (sim_execute b fpu it ot now opt e s)) (snd (sim_execute b fpu it ot now opt e s))"
proof -
  obtain bp where bp: "breakpoints opt (get_pc_addr (sim_cpu s)) = Some bp" "e = False"
    using assms by (auto simp: unbroken_def)
  obtain r s' where r: "break_sim b opt (BreakPoint (bp_addr bp)) s = (r, s')" by fastforce
  have "sim_execute b fpu it ot now opt e s = (stop_with r, s')"
    using bp r by (cases r) (simp_all add: sim_execute_def check_breakpoint_def act_simps do_break_def stop_with_def)
  then show ?thesis using at_breakpoint [OF bp(1) r] bp(2) by simp
qed

lemma sim_execute_step:
  "exec_step b opt now (cycle_one_full b fpu it ot (do_trace opt)) e s
     (fst (sim_execute b fpu it ot now opt e s)) (snd (sim_execute b fpu it ot now opt e s))"
proof (cases "unbroken opt e s")
  case False
  then show ?thesis by (rule break_step)
next
  case True
  let ?cyc = "cycle_one_full b fpu it ot (do_trace opt)"
  have exec: "sim_execute b fpu it ot now opt e s =
    act_bind (act_attempt (on_cpu ?cyc)) (\<lambda>r. case r of
         Inr res \<Rightarrow> after_cycle b now opt res
       | Inl e \<Rightarrow>
           act_bind (act_modify (\<lambda>s. s\<lparr>fatal_error := Some e\<rparr>)) (\<lambda>_.
           act_bind (break_sim b opt Failed) (\<lambda>cf. act_ret (Some cf)))) s"
    using True by (auto simp: sim_execute_def check_breakpoint_def act_simps unbroken_def is_fatal_def level_def)
  obtain o' c where cyc: "?cyc (sim_cpu s) = (o', c)" by fastforce
  show ?thesis
  proof (cases o')
    case (Panic p)
    then have "sim_execute b fpu it ot now opt e s = (Panic p, s\<lparr>sim_cpu := c\<rparr>)"
      using cyc by (simp add: exec act_simps)
    then show ?thesis using cpu_panics [OF True] cyc Panic by simp
  next
    case (Err err)
    obtain r s' where r: "break_sim b opt Failed (s\<lparr>sim_cpu := c, fatal_error := Some err\<rparr>) = (r, s')" by fastforce
    then have "sim_execute b fpu it ot now opt e s = (stop_with r, s')"
      using cyc Err by (cases r) (simp_all add: exec act_simps stop_with_def)
    then show ?thesis using cpu_fails [OF True _ r] cyc Err by simp
  next
    case (Ok res)
    then have "sim_execute b fpu it ot now opt e s = after_cycle b now opt res (s\<lparr>sim_cpu := c\<rparr>)"
      using cyc by (simp add: exec act_simps)
    then show ?thesis using after_cycle_step [OF True] cyc Ok by simp
  qed
qed

lemma sim_executeE:
  assumes "sim_execute b fpu it ot now opt e s = (r, s')"
  shows "exec_step b opt now (cycle_one_full b fpu it ot (do_trace opt)) e s r s'"
  using sim_execute_step [of b opt now fpu it ot e s] assms by simp

section \<open>The loops\<close>

definition finish :: "('e, control_flow option) outcome \<Rightarrow> ('e, control_flow) outcome option" where
  "finish r = (case r of Ok (Some cf) \<Rightarrow> Some (Ok cf) | Ok None \<Rightarrow> None | Err e \<Rightarrow> Some (Err e) | Panic p \<Rightarrow> Some (Panic p))"

lemma finish_simps [simp]:
  "finish (Ok (Some cf)) = Some (Ok cf)" "finish (Ok None) = None" "finish (Err e) = Some (Err e)"
  "finish (Panic p) = Some (Panic p)" "finish r = None \<longleftrightarrow> r = Ok None"
  "finish r = Some (Ok cf) \<longleftrightarrow> r = Ok (Some cf)"
  by (auto simp: finish_def split: outcome.splits option.splits)

lemma finish_stop_with [simp]: "finish (stop_with q) = Some q"
  by (cases q) (simp_all add: stop_with_def)

lemma sim_loop_Suc:
  "sim_loop (Suc n) body e s =
     (case finish (fst (body e s)) of
        None \<Rightarrow> sim_loop n body False (snd (body e s)) | Some r \<Rightarrow> Some (r, snd (body e s)))"
  by (auto simp: finish_def split: prod.splits outcome.splits option.splits)

text \<open>
  An invariant of the continuing steps and a property every stop establishes carry over the
  endless loops, and over the bounded one together with the number of steps.
\<close>

lemma sim_loop_rule:
  assumes "sim_loop fuel body e s = Some (r, s')" "P e s"
    and step: "\<And>e s s1. P e s \<Longrightarrow> body e s = (Ok None, s1) \<Longrightarrow> P False s1"
    and stop: "\<And>e s o' s1 r. P e s \<Longrightarrow> body e s = (o', s1) \<Longrightarrow> finish o' = Some r \<Longrightarrow> Q r s1"
  shows "Q r s'"
  using assms(1,2)
proof (induction fuel arbitrary: e s)
  case (Suc fuel)
  obtain o' s1 where o: "body e s = (o', s1)" by fastforce
  show ?case
  proof (cases "finish o'")
    case None
    then show ?thesis using Suc o step [OF Suc.prems(2)] by (simp add: sim_loop_Suc del: sim_loop.simps)
  next
    case (Some q)
    then show ?thesis using Suc.prems o stop [OF Suc.prems(2) o] by (simp add: sim_loop_Suc del: sim_loop.simps)
  qed
qed simp

lemma run_steps_rule:
  assumes "run_steps n body e s = (o', s')" "P 0 e s"
    and step: "\<And>k e s s1. P k e s \<Longrightarrow> k < n \<Longrightarrow> body e s = (Ok None, s1) \<Longrightarrow> P (Suc k) False s1"
    and stop: "\<And>k e s o' s1 r. P k e s \<Longrightarrow> k < n \<Longrightarrow> body e s = (o', s1) \<Longrightarrow> finish o' = Some r \<Longrightarrow> Q r s1"
  shows "(o' = Ok None \<and> (\<exists>e. P n e s')) \<or> (\<exists>r. finish o' = Some r \<and> Q r s')"
proof -
  have "run_steps m body e s = (o', s') \<Longrightarrow> P k e s \<Longrightarrow> m + k = n \<Longrightarrow>
    (o' = Ok None \<and> (\<exists>e. P n e s')) \<or> (\<exists>r. finish o' = Some r \<and> Q r s')" for m k e s
  proof (induction m arbitrary: k e s)
    case 0
    then show ?case by (auto simp: act_simps)
  next
    case (Suc m)
    obtain q s1 where q: "body e s = (q, s1)" by fastforce
    show ?case
    proof (cases "finish q")
      case None
      then have "body e s = (Ok None, s1)" using q by simp
      then show ?thesis
        using Suc.prems step [OF Suc.prems(2)] Suc.IH [of False s1 "Suc k"] by (simp add: act_simps)
    next
      case (Some r)
      then have "o' = q \<and> s' = s1"
        using Suc.prems(1) q by (cases q) (auto simp: act_simps split: option.splits)
      then show ?thesis using stop [OF Suc.prems(2) _ q Some] Suc.prems(3) Some by auto
    qed
  qed
  then show ?thesis using assms(1,2) by fastforce
qed

lemma loop_body_cases [consumes 1, case_names reached execute]:
  assumes "loop_body b fpu it ot now opt target e s = (o', s1)"
  obtains p q where "target = Some p" "\<not> e" "pc_into_addr (cpu_pc (sim_cpu s)) = p"
      "break_sim b opt (Reached p) s = (q, s1)" "o' = stop_with q"
    | "sim_execute b fpu it ot now opt e s = (o', s1)"
proof (cases "\<exists>p. target = Some p \<and> \<not> e \<and> pc_into_addr (cpu_pc (sim_cpu s)) = p")
  case True
  then obtain p where p: "target = Some p" "\<not> e" "pc_into_addr (cpu_pc (sim_cpu s)) = p" by blast
  obtain q s2 where q: "break_sim b opt (Reached p) s = (q, s2)" by fastforce
  have "s2 = s1 \<and> o' = stop_with q"
    using assms p q by (cases q) (auto simp: loop_body_def act_simps stop_with_def)
  then show thesis using that(1) p q by blast
next
  case False
  then show thesis
    using assms that(2) by (auto simp: loop_body_def act_simps split: option.splits if_splits)
qed

text \<open>Whether a run in the mode of \<open>opt\<close> may take a step after \<open>k\<close> steps.\<close>

definition within :: "simulation_option \<Rightarrow> nat \<Rightarrow> bool" where
  "within opt k \<longleftrightarrow> (\<forall>n. opt_mode opt = RunStep n \<longrightarrow> k < get_step n)"

lemma single_cycle_rule:
  fixes P :: "nat \<Rightarrow> bool \<Rightarrow> ('i, 'o) simulator \<Rightarrow> bool"
  assumes run: "single_cycle b fpu it ot now fuel opt s = Some (r, s')" "fatal_error s = None" "P 0 True s"
    and step: "\<And>k e s s1. P k e s \<Longrightarrow> within opt k \<Longrightarrow>
      exec_step b opt now (cycle_one_full b fpu it ot (do_trace opt)) e s (Ok None) s1 \<Longrightarrow> P (Suc k) False s1"
    and stop: "\<And>k e s o' s1 r. P k e s \<Longrightarrow> within opt k \<Longrightarrow>
      exec_step b opt now (cycle_one_full b fpu it ot (do_trace opt)) e s o' s1 \<Longrightarrow> finish o' = Some r \<Longrightarrow> Q r s1"
    and reached: "\<And>k s p r s1. P k False s \<Longrightarrow> opt_mode opt = SkipUntil p \<Longrightarrow>
      pc_into_addr (cpu_pc (sim_cpu s)) = p \<Longrightarrow> break_sim b opt (Reached p) s = (r, s1) \<Longrightarrow> Q r s1"
    and ended: "\<And>e s n r s1. P (get_step n) e s \<Longrightarrow> opt_mode opt = RunStep n \<Longrightarrow>
      break_sim b opt StepEnded s = (r, s1) \<Longrightarrow> Q r s1"
  shows "Q r s'"
proof -
  let ?body = "loop_body b fpu it ot now opt" and ?ex = "sim_execute b fpu it ot now opt"
  have loop: "Q r s'" if l: "sim_loop fuel (?body target) True s = Some (r, s')"
    and target: "\<And>p. target = Some p \<Longrightarrow> opt_mode opt = SkipUntil p" and win: "\<And>k. within opt k" for target
  proof (rule sim_loop_rule [OF l, where P = "\<lambda>e s. \<exists>k. P k e s"])
    show "\<exists>k. P k True s" using run(3) by blast
    show "\<exists>k. P k False s1" if k: "\<exists>k. P k e s" and body: "?body target e s = (Ok None, s1)" for e s s1
      using body
    proof (cases rule: loop_body_cases)
      case (execute)
      then show ?thesis using k by (auto intro: step [OF _ win sim_executeE])
    qed (metis finish_simps(2) finish_stop_with option.distinct(1))
    show "Q r s1" if k: "\<exists>k. P k e s" and body: "?body target e s = (o', s1)" and f: "finish o' = Some r" for e s o' s1 r
      using body
    proof (cases rule: loop_body_cases)
      case (reached p q)
      then show ?thesis using k f assms(6) target by auto
    next
      case execute
      then show ?thesis using k f by (auto intro: stop [OF _ win sim_executeE])
    qed
  qed
  show ?thesis
  proof (cases "opt_mode opt")
    case (RunStep n)
    then obtain o1 s1 where o1: "run_steps (get_step n) ?ex True s = (o1, s1)" by fastforce
    have "(o1 = Ok None \<and> (\<exists>e. P (get_step n) e s1)) \<or> (\<exists>r. finish o1 = Some r \<and> Q r s1)"
      by (rule run_steps_rule [OF o1, where P = P, OF run(3)])
        (auto simp: within_def RunStep intro: step [OF _ _ sim_executeE] stop [OF _ _ sim_executeE])
    then show ?thesis
      using run(1,2) RunStep o1 ended [OF _ RunStep]
      by (cases o1) (auto simp: single_cycle_def act_simps split: option.splits)
  qed (use run(1,2) loop in \<open>auto simp: single_cycle_def within_def\<close>)
qed

section \<open>Continuing and stopping steps\<close>

lemma print_trace_frame:
  assumes "print_trace b n res s = (r, s')"
  shows "\<exists>out. s' = s\<lparr>sim_stdout := out\<rparr>"
proof -
  have same: "\<exists>out. t = t\<lparr>sim_stdout := out\<rparr>" for t :: "('i, 'o) simulator"
    by (rule exI [of _ "sim_stdout t"]) simp
  then show ?thesis
    using assms by (auto simp: print_trace_def act_simps split: option.splits outcome.splits)
qed

lemma exec_step_goes_on:
  assumes "exec_step b opt now cyc e s (Ok None) s'"
  obtains res c out where "unbroken opt e s" "cyc (sim_cpu s) = (Ok res, c)" "cr_flow res = CpuContinue"
    "s' = (counted s c (cr_cycles res))\<lparr>sim_stdout := out\<rparr>"
  using assms
proof (cases rule: exec_step.cases)
  case (goes_on res c r)
  then show thesis using that print_trace_frame [OF goes_on(5)] by blast
qed (metis finish_simps(2) finish_stop_with option.distinct(1))+

text \<open>What can be said of a stop with a value, by its kind.\<close>

definition stop_state :: "simulation_option \<Rightarrow> control_flow \<Rightarrow> ('i, 'o) simulator \<Rightarrow> bool" where
  "stop_state opt cf s \<longleftrightarrow>
     (case cf of
        Exit \<Rightarrow> fatal_error s = None \<and> sb_cycle (stat_builder s) = Some (sim_cycle s)
          \<and> sb_elapsed_clocks (stat_builder s) = Some (elapsed_clocks s) \<and> sb_elapsed (stat_builder s) \<noteq> None
      | Break ob \<Rightarrow>
          (case ob_reason ob of
             CannotRestart \<Rightarrow> fatal_error s \<noteq> None
           | Failed \<Rightarrow> fatal_error s \<noteq> None
           | Reached p \<Rightarrow> fatal_error s = None \<and> opt_mode opt = SkipUntil p \<and> get_pc_addr (sim_cpu s) = p
           | StepEnded \<Rightarrow> fatal_error s = None \<and> (\<exists>n. opt_mode opt = RunStep n)
           | BreakPoint a \<Rightarrow>
               fatal_error s = None \<and> (\<exists>bp. breakpoints opt (get_pc_addr (sim_cpu s)) = Some bp \<and> bp_addr bp = a)
           | Spy w \<Rightarrow> fatal_error s = None))"

lemma break_sim_Ok:
  assumes "break_sim b opt reason s = (Ok cf, s')"
  shows "\<exists>w. cf = Break \<lparr>ob_watchings = w, ob_reason = reason\<rparr> \<and> inspected s s'"
  using break_sim_result [OF assms] by simp

lemma exec_step_stop:
  assumes "exec_step b opt now cyc e s (Ok (Some cf)) s'" "fatal_error s = None"
  shows "stop_state opt cf s'"
  using assms(1)
proof (cases rule: exec_step.cases)
  case (at_breakpoint bp r)
  then have "break_sim b opt (BreakPoint (bp_addr bp)) s = (Ok cf, s')"
    by (metis finish_simps(6) finish_stop_with option.inject)
  from break_sim_Ok [OF this] show ?thesis
    using at_breakpoint assms(2) by (auto simp: stop_state_def inspected_fields get_pc_addr_def)
next
  case (cpu_fails err c r)
  then have "break_sim b opt Failed (s\<lparr>sim_cpu := c, fatal_error := Some err\<rparr>) = (Ok cf, s')"
    by (metis finish_simps(6) finish_stop_with option.inject)
  from break_sim_Ok [OF this] show ?thesis by (auto simp: stop_state_def inspected_fields)
next
  case (watch_point res c w r)
  then have "break_sim b opt (Spy w) (counted s c (cr_cycles res)) = (Ok cf, s')"
    by (metis finish_simps(6) finish_stop_with option.inject)
  from break_sim_Ok [OF this] show ?thesis
    using assms(2) by (auto simp: stop_state_def inspected_fields counted_def)
next
  case (exits res c)
  then show ?thesis using assms(2) by (simp add: stop_state_def exit_sim_def counted_def stop_timer_def)
next
  case (goes_on res c r)
  then show ?thesis by (cases r) simp_all
qed

lemma single_cycle_stop:
  assumes "single_cycle b fpu it ot now fuel opt s = Some (Ok cf, s')"
  shows "stop_state opt cf s'"
proof (cases "fatal_error s")
  case (Some err)
  then have "break_sim b opt CannotRestart s = (Ok cf, s')" using assms by (simp add: single_cycle_def)
  from break_sim_Ok [OF this] show ?thesis using Some by (auto simp: stop_state_def inspected_fields)
next
  case None
  have "\<forall>cf'. Ok cf = (Ok cf' :: (anyhow_error, _) outcome) \<longrightarrow> stop_state opt cf' s'"
    by (rule single_cycle_rule [OF assms None, where P = "\<lambda>_ _ s. fatal_error s = None"
          and Q = "\<lambda>r s'. \<forall>cf. r = Ok cf \<longrightarrow> stop_state opt cf s'"])
      (auto simp: None stop_state_def inspected_fields get_pc_addr_def counted_def
        elim!: exec_step_goes_on dest!: break_sim_Ok exec_step_stop)
  then show ?thesis by simp
qed

section \<open>Why a run stopped\<close>

text \<open>From \<open>s\<close> to \<open>t\<close> the simulator retired and counted the instructions at \<open>ps\<close>.\<close>

definition ran ::
  "build \<Rightarrow> binding \<Rightarrow> 'i input_trait \<Rightarrow> 'o output_trait \<Rightarrow> bool \<Rightarrow> ('i, 'o) simulator \<Rightarrow> u32 list \<Rightarrow> ('i, 'o) simulator \<Rightarrow> bool" where
  "ran b fpu it ot tr s ps t \<longleftrightarrow>
     retires b fpu it ot tr ps (sim_cpu s) (sim_cpu t) \<and> sim_cycle t = sim_cycle s + length ps"

lemma ran_none: "ran b fpu it ot tr s [] s"
  by (simp add: ran_def retires_none)

lemma ran_append: "ran b fpu it ot tr s ps t \<Longrightarrow> ran b fpu it ot tr t qs u \<Longrightarrow> ran b fpu it ot tr s (ps @ qs) u"
  unfolding ran_def by (auto intro: retires_append)

lemma ran_snoc:
  assumes "ran b fpu it ot tr s ps t" "cycle_one_full b fpu it ot tr (sim_cpu t) = (Ok res, c)" "cr_flow res \<noteq> CpuExit"
  shows "ran b fpu it ot tr s (ps @ [pc_inner (cpu_pc (sim_cpu t))]) (counted t c n)"
  using assms retires_snoc [of b fpu it ot tr ps "sim_cpu s" "sim_cpu t"]
  by (auto simp: ran_def counted_def)

lemma ran_step:
  assumes "ran b fpu it ot (do_trace opt) s ps t"
    "exec_step b opt now (cycle_one_full b fpu it ot (do_trace opt)) e t (Ok None) u"
  shows "ran b fpu it ot (do_trace opt) s (ps @ [pc_inner (cpu_pc (sim_cpu t))]) u \<and> fatal_error u = fatal_error t"
  using assms(2)
proof (rule exec_step_goes_on)
  fix res c out
  assume c: "cycle_one_full b fpu it ot (do_trace opt) (sim_cpu t) = (Ok res, c)" "cr_flow res = CpuContinue"
    "u = (counted t c (cr_cycles res))\<lparr>sim_stdout := out\<rparr>"
  from ran_snoc [OF assms(1) c(1), of "cr_cycles res"] c(2,3) show ?thesis
    by (simp add: ran_def counted_def)
qed

text \<open>
  The cause of a stop \<open>cf\<close> in state \<open>s'\<close>, after the instructions at \<open>ps\<close> led to \<open>t\<close>: the last
  cycle exited, failed or tripped the reported watch point, and was accounted for; or no further
  cycle was run because \<open>t\<close> stands at the reported break point or target, or because the requested
  number of steps was done.
\<close>

definition stop_cause ::
  "build \<Rightarrow> binding \<Rightarrow> 'i input_trait \<Rightarrow> 'o output_trait \<Rightarrow> nat \<Rightarrow> simulation_option \<Rightarrow> u32 list
    \<Rightarrow> ('i, 'o) simulator \<Rightarrow> control_flow \<Rightarrow> ('i, 'o) simulator \<Rightarrow> bool" where
  "stop_cause b fpu it ot now opt ps t cf s' \<longleftrightarrow>
     (let cyc = cycle_one_full b fpu it ot (do_trace opt) in
      case cf of
        Exit \<Rightarrow> (\<exists>res c. cyc (sim_cpu t) = (Ok res, c) \<and> cr_flow res = CpuExit
          \<and> s' = exit_sim now (counted t c (cr_cycles res)))
      | Break ob \<Rightarrow>
          (case ob_reason ob of
             Spy w \<Rightarrow> (\<exists>res c. cyc (sim_cpu t) = (Ok res, c) \<and> cr_flow res = CpuBreak (CpuSpy w)
               \<and> looked (counted t c (cr_cycles res)) s')
           | Failed \<Rightarrow> (\<exists>err c. cyc (sim_cpu t) = (Err err, c)
               \<and> looked (t\<lparr>sim_cpu := c, fatal_error := Some err\<rparr>) s')
           | BreakPoint a \<Rightarrow> looked t s'
               \<and> (\<exists>bp. breakpoints opt (get_pc_addr (sim_cpu t)) = Some bp \<and> bp_addr bp = a)
           | Reached p \<Rightarrow> looked t s' \<and> opt_mode opt = SkipUntil p \<and> get_pc_addr (sim_cpu t) = p
           | StepEnded \<Rightarrow> looked t s' \<and> (\<exists>n. opt_mode opt = RunStep n \<and> length ps = get_step n)
           | CannotRestart \<Rightarrow> looked t s' \<and> ps = []))"

lemma break_sim_looked:
  assumes "stop_with r = Ok (Some cf)" "break_sim b opt reason s = (r, s')"
  shows "\<exists>w. cf = Break \<lparr>ob_watchings = w, ob_reason = reason\<rparr> \<and> looked s s'"
proof -
  have "r = Ok cf" using assms(1) by (cases r) (simp_all add: stop_with_def)
  then show ?thesis using break_sim_result(2,3) [OF assms(2)] by simp
qed

lemma exec_step_cause:
  assumes "exec_step b opt now (cycle_one_full b fpu it ot (do_trace opt)) e t (Ok (Some cf)) s'"
  shows "stop_cause b fpu it ot now opt ps t cf s' \<and> (\<forall>ob. cf = Break ob \<longrightarrow> ob_reason ob \<noteq> CannotRestart)"
  using assms
proof (cases rule: exec_step.cases)
  case (at_breakpoint bp r)
  then show ?thesis
    using break_sim_looked [OF at_breakpoint(2) [symmetric] at_breakpoint(4)] by (auto simp: stop_cause_def)
next
  case (cpu_fails err c r)
  then show ?thesis
    using break_sim_looked [OF cpu_fails(1) [symmetric] cpu_fails(4)] by (auto simp: stop_cause_def)
next
  case (watch_point res c w r)
  then show ?thesis
    using break_sim_looked [OF watch_point(1) [symmetric] watch_point(5)] by (auto simp: stop_cause_def)
next
  case (exits res c)
  then show ?thesis by (auto simp: stop_cause_def)
next
  case (goes_on res c r)
  then show ?thesis by (cases r) simp_all
qed

lemma single_cycle_cause:
  assumes "single_cycle b fpu it ot now fuel opt s = Some (Ok cf, s')"
  shows "(\<exists>ps t. ran b fpu it ot (do_trace opt) s ps t \<and> stop_cause b fpu it ot now opt ps t cf s')
    \<and> (fatal_error s \<noteq> None \<longleftrightarrow> (\<exists>ob. cf = Break ob \<and> ob_reason ob = CannotRestart))"
proof (cases "fatal_error s")
  case (Some err)
  then have "break_sim b opt CannotRestart s = (Ok cf, s')" using assms by (simp add: single_cycle_def)
  then show ?thesis
    using Some break_sim_result(2,3) [of b opt CannotRestart s "Ok cf" s'] ran_none [of b fpu it ot "do_trace opt" s]
    by (fastforce simp: stop_cause_def)
next
  case None
  let ?R = "\<lambda>k t ps. ran b fpu it ot (do_trace opt) s ps t \<and> length ps = k"
  let ?Q = "\<lambda>cf s'. (\<exists>ps t. ran b fpu it ot (do_trace opt) s ps t \<and> stop_cause b fpu it ot now opt ps t cf s')
      \<and> (\<forall>ob. cf = Break ob \<longrightarrow> ob_reason ob \<noteq> CannotRestart)"
  have "\<forall>cf'. Ok cf = (Ok cf' :: (anyhow_error, _) outcome) \<longrightarrow> ?Q cf' s'"
  proof (rule single_cycle_rule [OF assms None, where P = "\<lambda>k _ t. \<exists>ps. ?R k t ps" and Q = "\<lambda>r s'. \<forall>cf. r = Ok cf \<longrightarrow> ?Q cf s'"])
    show "\<exists>ps. ?R 0 s ps" using ran_none by fastforce
  next
    fix k e t u
    assume "\<exists>ps. ?R k t ps" "exec_step b opt now (cycle_one_full b fpu it ot (do_trace opt)) e t (Ok None) u"
    then show "\<exists>ps. ?R (Suc k) u ps" using ran_step by fastforce
  next
    fix k e t o' u r
    assume "\<exists>ps. ?R k t ps" "exec_step b opt now (cycle_one_full b fpu it ot (do_trace opt)) e t o' u" "finish o' = Some r"
    then show "\<forall>cf. r = Ok cf \<longrightarrow> ?Q cf u" using exec_step_cause by fastforce
  next
    fix k t p r u
    assume "\<exists>ps. ?R k t ps" "opt_mode opt = SkipUntil p" "pc_into_addr (cpu_pc (sim_cpu t)) = p"
      "break_sim b opt (Reached p) t = (r, u)"
    then show "\<forall>cf. r = Ok cf \<longrightarrow> ?Q cf u"
      using break_sim_result(2,3) [of b opt "Reached p" t r u] by (fastforce simp: stop_cause_def get_pc_addr_def)
  next
    fix e t n r u
    assume "\<exists>ps. ?R (get_step n) t ps" "opt_mode opt = RunStep n" "break_sim b opt StepEnded t = (r, u)"
    then show "\<forall>cf. r = Ok cf \<longrightarrow> ?Q cf u"
      using break_sim_result(2,3) [of b opt StepEnded t r u] by (fastforce simp: stop_cause_def)
  qed
  then show ?thesis using None by simp
qed

lemma file_len_kept:
  assumes "single_cycle b fpu it ot now fuel opt s = Some (r, s')"
  shows "sb_instr_file_len (stat_builder s') = sb_instr_file_len (stat_builder s)"
proof (cases "fatal_error s")
  case (Some err)
  then show ?thesis
    using assms break_sim_result(1) [of b opt CannotRestart s] by (auto simp: single_cycle_def inspected_fields)
next
  case None
  let ?len = "\<lambda>s. sb_instr_file_len (stat_builder s)"
  have brk: "break_sim b opt reason t = (r, t') \<Longrightarrow> ?len t' = ?len t" for reason r and t t' :: "('a, 'b) simulator"
    using break_sim_result(1) inspected_fields(5) by fastforce
  have "?len s' = ?len t"
    if "exec_step b opt now cyc e t o' s'" for cyc e o' and t s' :: "('a, 'b) simulator"
    using that
  proof (cases rule: exec_step.cases)
    case (goes_on res c r)
    then show ?thesis using print_trace_frame [OF goes_on(5)] by (auto simp: counted_def)
  qed (auto simp: counted_def exit_sim_def stop_timer_def dest!: brk)
  then show ?thesis
    by (intro single_cycle_rule [OF assms None, where P = "\<lambda>_ _ t. ?len t = ?len s" and Q = "\<lambda>_ t. ?len t = ?len s"])
      (auto dest: brk)
qed

section \<open>Properties of a run\<close>

text \<open>
  C11. A run stops for the reason it gives. Whatever it reports, it first retired a sequence of
  instructions, counting each; then
  \<^item> \<open>Exit\<close>: the next cycle exited, was counted, and the statistics were completed;
  \<^item> \<open>Failed\<close>: the next cycle reported an error, which is now the fatal error;
  \<^item> \<open>Spy\<close>: the next cycle retired an instruction that tripped the reported watch point, and was counted;
  \<^item> \<open>BreakPoint\<close>: the program counter is at a registered break point with the reported address;
  \<^item> \<open>Reached\<close>: the program counter is on the target of the run, which is the one reported;
  \<^item> \<open>StepEnded\<close>: the sequence has the requested number of instructions;
  \<^item> \<open>CannotRestart\<close>: nothing was executed, and this is reported exactly when a fatal error was set.

  Gathering the watched values afterwards moves read counters only. A stop with exit code failure
  leaves an error message to show, so that the \<^verbatim>\<open>unwrap\<close> of the drivers succeeds, and an exit leaves
  every statistic that \<^verbatim>\<open>collect_stat\<close> unwraps.
\<close>
theorem stop_reasons:
  assumes "single_cycle b fpu it ot now fuel opt s = Some (Ok cf, s')"
  shows "(\<exists>ps t. ran b fpu it ot (do_trace opt) s ps t \<and> stop_cause b fpu it ot now opt ps t cf s')
    \<and> (fatal_error s \<noteq> None \<longleftrightarrow> (\<exists>ob. cf = Break ob \<and> ob_reason ob = CannotRestart))
    \<and> (flow_exit_code cf = Some Failure \<longrightarrow> (\<exists>msg. get_error_msg s' = Some msg))
    \<and> (cf = Exit \<and> sb_instr_file_len (stat_builder s) \<noteq> None \<longrightarrow>
         (\<exists>st. stat_finish (stat_builder s') = (Ok st :: (anyhow_error, _) outcome)
            \<and> st_cycle st = sim_cycle s' \<and> st_elapsed_clocks st = elapsed_clocks s'))"
proof -
  have "flow_exit_code cf = Some Failure \<longrightarrow> (\<exists>msg. get_error_msg s' = Some msg)"
    "cf = Exit \<and> sb_instr_file_len (stat_builder s) \<noteq> None \<longrightarrow>
         (\<exists>st. stat_finish (stat_builder s') = (Ok st :: (anyhow_error, _) outcome)
            \<and> st_cycle st = sim_cycle s' \<and> st_elapsed_clocks st = elapsed_clocks s')"
    using single_cycle_stop [OF assms] file_len_kept [OF assms]
    by (auto simp: stop_state_def flow_exit_code_def get_error_msg_def stat_finish_def unwrap_def
        split: control_flow.splits break_reason.splits)
  then show ?thesis using single_cycle_cause [OF assms] by simp
qed

theorem stop_reasons_witness:
  "\<exists>s s' t :: (unit, unit) simulator. \<exists>ps. sim_new release_1st 0 demo_image () () = (Ok s :: (anyhow_error, _) outcome)
     \<and> single_cycle release_1st demo_fpu empty_input empty_output 0 2 default_option s = Some (Ok Exit, s')
     \<and> ran release_1st demo_fpu empty_input empty_output False s ps t
     \<and> stop_cause release_1st demo_fpu empty_input empty_output 0 default_option ps t Exit s'
     \<and> (\<exists>st. stat_finish (stat_builder s') = (Ok st :: (anyhow_error, _) outcome) \<and> st_cycle st = sim_cycle s')"
proof -
  obtain s where s: "demo_sim s" using sim_boot by blast
  obtain s' where run: "single_cycle release_1st demo_fpu empty_input empty_output 0 2 default_option s = Some (Ok Exit, s')"
    by (rule demo_run [OF s])
  have len: "sb_instr_file_len (stat_builder s) \<noteq> None" using demo_fields(4) [OF s] by simp
  have tr: "do_trace default_option = False" by (simp add: default_option_def)
  have "\<exists>st. stat_finish (stat_builder s') = (Ok st :: (anyhow_error, _) outcome) \<and> st_cycle st = sim_cycle s'"
    using stop_reasons [OF run] len by blast
  moreover obtain ps t where "ran release_1st demo_fpu empty_input empty_output False s ps t"
    "stop_cause release_1st demo_fpu empty_input empty_output 0 default_option ps t Exit s'"
    using stop_reasons [OF run] unfolding tr by blast
  ultimately show ?thesis using run demo_new [OF s] by blast
qed

section \<open>Fatal errors\<close>

text \<open>
  C10. A fatal error is final: once it is set, every further command stops at once with
  \<open>CannotRestart\<close>, whatever the mode and fuel, showing the watched values (it panics only if one of
  them cannot be read). No instruction is executed: the simulator is left exactly as it was but for
  the read counters of the registers and of the memory.
\<close>
theorem fatal_error_is_final:
  assumes "fatal_error s = Some err"
  shows "\<exists>r ri rf rm. single_cycle b fpu it ot now fuel opt s = Some (r, with_reads ri rf rm s)
    \<and> ((\<exists>w. r = Ok (Break \<lparr>ob_watchings = w, ob_reason = CannotRestart\<rparr>)) \<or> is_panic r)
    \<and> (readable b (opt_watchings opt) (sim_cpu s) \<longrightarrow>
        r = Ok (Break \<lparr>ob_watchings = watched (opt_watchings opt) (sim_cpu s), ob_reason = CannotRestart\<rparr>))"
proof -
  obtain r s' where r: "break_sim b opt CannotRestart s = (r, s')" by fastforce
  then have "single_cycle b fpu it ot now fuel opt s = Some (r, s')" using assms by (simp add: single_cycle_def)
  moreover obtain ri rf rm where "s' = with_reads ri rf rm s"
    using break_sim_result(3) [OF r] by (auto simp: looked_def)
  ultimately show ?thesis
    using break_sim_result(2) [OF r] readable_break [of b opt s CannotRestart] r by auto
qed

theorem fatal_error_is_final_witness:
  "\<exists>s s' :: (unit, unit) simulator. \<exists>w. fatal_error s = Some (MemoryAccessError (OutOfBounds 0))
     \<and> single_cycle release_1st demo_fpu empty_input empty_output 0 0 default_option s
         = Some (Ok (Break \<lparr>ob_watchings = w, ob_reason = CannotRestart\<rparr>), s')
     \<and> arch_of (sim_cpu s') = arch_of (sim_cpu s) \<and> sim_stdout s' = sim_stdout s"
proof -
  obtain s0 where s0: "demo_sim s0" using sim_boot by blast
  let ?s = "s0\<lparr>fatal_error := Some (MemoryAccessError (OutOfBounds 0))\<rparr>"
  have err: "fatal_error ?s = Some (MemoryAccessError (OutOfBounds 0))" by simp
  have "readable release_1st (opt_watchings default_option) (sim_cpu ?s)"
    using s0 by (simp add: readable_def default_option_def demo_sim_def booted_def cpu_wf_def)
  with fatal_error_is_final [OF err, of release_1st demo_fpu empty_input empty_output 0 0 default_option]
  obtain w ri rf rm where "single_cycle release_1st demo_fpu empty_input empty_output 0 0 default_option ?s
      = Some (Ok (Break \<lparr>ob_watchings = w, ob_reason = CannotRestart\<rparr>), with_reads ri rf rm ?s)"
    by blast
  moreover have "arch_of (sim_cpu (with_reads ri rf rm ?s)) = arch_of (sim_cpu ?s)"
    "sim_stdout (with_reads ri rf rm ?s) = sim_stdout ?s"
    by (simp_all add: with_reads_def Let_def arch_of_def fun_eq_iff)
  ultimately show ?thesis using err by blast
qed

section \<open>Bounded stepping\<close>

lemma inspected_cycle: "break_sim b opt reason s = (r, s') \<Longrightarrow> sim_cycle s' = sim_cycle s"
  using break_sim_result(1) inspected_fields(2) by blast

lemma exec_step_cycle:
  assumes "exec_step b opt now cyc e s r s'"
  shows "sim_cycle s \<le> sim_cycle s' \<and> sim_cycle s' \<le> sim_cycle s + 1"
  using assms
proof (cases rule: exec_step.cases)
  case (goes_on res c r)
  then show ?thesis using print_trace_frame [OF goes_on(5)] by (auto simp: counted_def)
qed (auto simp: counted_def exit_sim_def dest!: inspected_cycle)

lemma exec_step_reason:
  assumes "exec_step b opt now cyc e s (Ok (Some (Break ob))) s'"
  shows "ob_reason ob \<noteq> StepEnded"
  using assms
proof (cases rule: exec_step.cases)
  case (goes_on res c r)
  then show ?thesis by (cases r) simp_all
qed (auto simp: stop_with_def bind_out_Ok_iff dest!: sym [of "Ok _"] break_sim_Ok)

text \<open>
  C12. Stepping is bounded: with \<open>RunStep n\<close> the call returns for every fuel, having executed at
  most \<open>n\<close> instructions, and when it reports \<open>StepEnded\<close> exactly \<open>n\<close>.
\<close>
theorem run_step_bounded:
  assumes "opt_mode opt = RunStep n"
  shows "\<exists>r s'. single_cycle b fpu it ot now fuel opt s = Some (r, s')
    \<and> sim_cycle s \<le> sim_cycle s' \<and> sim_cycle s' \<le> sim_cycle s + get_step n
    \<and> (\<forall>ob. r = Ok (Break ob) \<and> ob_reason ob = StepEnded \<longrightarrow> sim_cycle s' = sim_cycle s + get_step n)"
proof (cases "fatal_error s")
  case (Some err)
  obtain r s' where r: "break_sim b opt CannotRestart s = (r, s')" by fastforce
  then show ?thesis
    using Some break_sim_result [OF r] inspected_cycle [OF r] by (auto simp: single_cycle_def)
next
  case None
  obtain r s' where r: "single_cycle b fpu it ot now fuel opt s = Some (r, s')"
    using assms None by (cases "single_cycle b fpu it ot now fuel opt s") (auto simp: single_cycle_def)
  let ?Q = "\<lambda>r s'. sim_cycle s \<le> sim_cycle s' \<and> sim_cycle s' \<le> sim_cycle s + get_step n
    \<and> (\<forall>ob. r = Ok (Break ob) \<and> ob_reason ob = StepEnded \<longrightarrow> sim_cycle s' = sim_cycle s + get_step n)"
  have "?Q r s'"
  proof (rule single_cycle_rule [OF r None, where P = "\<lambda>k _ s'. sim_cycle s' = sim_cycle s + k" and Q = ?Q])
    fix k e s0 o' s1 q
    assume "sim_cycle s0 = sim_cycle s + k" "within opt k" "finish o' = Some q"
      "exec_step b opt now (cycle_one_full b fpu it ot (do_trace opt)) e s0 o' s1"
    then show "?Q q s1"
      using exec_step_cycle exec_step_reason assms by (fastforce simp: within_def)
  next
    fix k e s0 s1
    assume "sim_cycle s0 = sim_cycle s + k"
      "exec_step b opt now (cycle_one_full b fpu it ot (do_trace opt)) e s0 (Ok None) s1"
    then show "sim_cycle s1 = sim_cycle s + Suc k"
      by (auto simp: counted_def elim!: exec_step_goes_on)
  qed (use assms in \<open>auto dest!: inspected_cycle\<close>)
  then show ?thesis using r by blast
qed

theorem run_step_bounded_witness:
  "\<exists>s s' :: (unit, unit) simulator. \<exists>r. sim_new release_1st 0 demo_image () () = (Ok s :: (anyhow_error, _) outcome)
     \<and> single_cycle release_1st demo_fpu empty_input empty_output 0 0 (default_option\<lparr>opt_mode := RunStep \<lparr>step = Some 1\<rparr>\<rparr>) s = Some (r, s')
     \<and> sim_cycle s' \<le> 1"
proof -
  obtain s where s: "demo_sim s" using sim_boot by blast
  have "opt_mode (default_option\<lparr>opt_mode := RunStep \<lparr>step = Some 1\<rparr>\<rparr>) = RunStep \<lparr>step = Some 1\<rparr>" by simp
  from run_step_bounded [OF this, of release_1st demo_fpu empty_input empty_output 0 0 s] demo_fields(2) [OF s]
  have "\<exists>r s'. single_cycle release_1st demo_fpu empty_input empty_output 0 0
      (default_option\<lparr>opt_mode := RunStep \<lparr>step = Some 1\<rparr>\<rparr>) s = Some (r, s') \<and> sim_cycle s' \<le> 1"
    by (auto simp: get_step_def)
  with demo_new [OF s] show ?thesis by blast
qed

section \<open>Break points\<close>

text \<open>
  C13. Break points: an untraced run (re)started on any instruction, a break point or not, executes
  it, and if the next instruction carries a break point it stops there after exactly that one
  instruction, unless the command itself ends there (its target is reached, or it was a single
  step). It reports the break point with the watched values as the instruction left them, which
  must be readable, and changes nothing further but read counters.
\<close>
theorem resume_then_break:
  assumes "fatal_error s = None" "\<not> do_trace opt" "2 \<le> fuel"
    and "cycle_one_full b fpu it ot False (sim_cpu s) = (Ok res, c)" "cr_flow res = CpuContinue"
    and "case opt_mode opt of Run \<Rightarrow> True | SkipUntil p \<Rightarrow> get_pc_addr c \<noteq> p | RunStep n \<Rightarrow> 2 \<le> get_step n"
    and "breakpoints opt (get_pc_addr c) = Some bp" "readable b (opt_watchings opt) c"
  shows "\<exists>s'. single_cycle b fpu it ot now fuel opt s
      = Some (Ok (Break \<lparr>ob_watchings = watched (opt_watchings opt) c, ob_reason = BreakPoint (bp_addr bp)\<rparr>), s')
    \<and> looked (s\<lparr>sim_cpu := c, elapsed_clocks := elapsed_clocks s + cr_cycles res, sim_cycle := sim_cycle s + 1\<rparr>) s'"
proof -
  let ?s1 = "s\<lparr>sim_cpu := c, elapsed_clocks := elapsed_clocks s + cr_cycles res, sim_cycle := sim_cycle s + 1\<rparr>"
  let ?ob = "Break \<lparr>ob_watchings = watched (opt_watchings opt) c, ob_reason = BreakPoint (bp_addr bp)\<rparr>"
  let ?ex = "sim_execute b fpu it ot now opt"
  obtain s' where brk: "break_sim b opt (BreakPoint (bp_addr bp)) ?s1 = (Ok ?ob, s')"
    using readable_break [of b opt ?s1 "BreakPoint (bp_addr bp)"] assms(8)
    by (cases "break_sim b opt (BreakPoint (bp_addr bp)) ?s1") auto
  have first: "?ex True s = (Ok None, ?s1)"
    using assms(2,4,5) untraced_cycle [OF assms(4)]
    by (simp add: sim_execute_def check_breakpoint_def after_cycle_def print_trace_def act_simps)
  have second: "?ex False ?s1 = (Ok (Some ?ob), s')"
    using assms(7) brk by (simp add: sim_execute_def check_breakpoint_def do_break_def act_simps)
  obtain n where n: "fuel = Suc (Suc n)" using assms(3) by (metis Suc_le_D numeral_2_eq_2 Suc_le_mono)
  have "single_cycle b fpu it ot now fuel opt s = Some (Ok ?ob, s')"
  proof (cases "opt_mode opt")
    case (RunStep k)
    then have "2 \<le> get_step k" using assms(6) by simp
    then obtain m where "get_step k = Suc (Suc m)" by (metis Suc_le_D numeral_2_eq_2 Suc_le_mono)
    then show ?thesis using RunStep assms(1) first second by (simp add: single_cycle_def act_simps)
  next
    case (SkipUntil p)
    then have "pc_into_addr (cpu_pc c) \<noteq> p" using assms(6) by (simp add: get_pc_addr_def)
    then have "loop_body b fpu it ot now opt (Some p) True s = ?ex True s"
      "loop_body b fpu it ot now opt (Some p) False ?s1 = ?ex False ?s1"
      by (auto simp: loop_body_def act_simps)
    then show ?thesis
      using SkipUntil assms(1) n first second by (simp add: single_cycle_def sim_loop_Suc del: sim_loop.simps)
  next
    case Run
    then show ?thesis
      using assms(1) n first second by (simp add: single_cycle_def loop_body_def sim_loop_Suc del: sim_loop.simps)
  qed
  then show ?thesis using break_sim_result(3) [OF brk] by blast
qed

theorem resume_then_break_witness:
  "\<exists>s s' :: (unit, unit) simulator. \<exists>w. sim_new release_1st 0 demo_image () () = (Ok s :: (anyhow_error, _) outcome)
     \<and> single_cycle release_1st demo_fpu empty_input empty_output 0 2
         (default_option\<lparr>breakpoints := [Addr 4 \<mapsto> \<lparr>bp_addr = Addr 4, bp_cond = None\<rparr>],
            opt_watchings := \<lparr>w_reg = [RegId 5], w_freg = [], w_memory = []\<rparr>\<rparr>) s
         = Some (Ok (Break \<lparr>ob_watchings = w, ob_reason = BreakPoint (Addr 4)\<rparr>), s')
     \<and> wv_reg_map w (RegId 5) \<noteq> None \<and> sim_cycle s' = 1"
proof -
  obtain s where s: "demo_sim s" using sim_boot by blast
  obtain res c where c: "cycle_one_full release_1st demo_fpu empty_input empty_output False (sim_cpu s) = (Ok res, c)"
    "cpu_wf release_1st c" "cr_flow res = CpuContinue"
    "isa_exec demo_fpu empty_input empty_output (Instr_I Addi (RegId 5) (RegId 0) 5) (arch_of (sim_cpu s)) = Some (arch_of c)"
    using demo_cycle s unfolding demo_sim_def by blast
  have "a_pc (arch_of c) = 4"
    using straight_advances [OF _ c(4)] demo_fields(7) [OF s] by (simp add: arch_of_def)
  then have pc: "get_pc_addr c = Addr 4" by (simp add: arch_of_def get_pc_addr_def pc_into_addr_def pc_into_usize_def)
  let ?bp = "\<lparr>bp_addr = Addr 4, bp_cond = None\<rparr>"
  let ?opt = "default_option\<lparr>breakpoints := [Addr 4 \<mapsto> ?bp],
     opt_watchings := \<lparr>w_reg = [RegId 5], w_freg = [], w_memory = []\<rparr>\<rparr>"
  have "readable release_1st (opt_watchings ?opt) c"
    using c(2) by (simp add: readable_def cpu_wf_def reg_ok_def max_reg_id_def reg_bit_width_def)
  then have "\<exists>s'. single_cycle release_1st demo_fpu empty_input empty_output 0 2 ?opt s
      = Some (Ok (Break \<lparr>ob_watchings = watched (opt_watchings ?opt) c, ob_reason = BreakPoint (bp_addr ?bp)\<rparr>), s')
    \<and> looked (s\<lparr>sim_cpu := c, elapsed_clocks := elapsed_clocks s + cr_cycles res, sim_cycle := sim_cycle s + 1\<rparr>) s'"
    by (intro resume_then_break [OF demo_fields(1) [OF s] _ _ c(1,3)]) (simp_all add: default_option_def pc)
  then obtain s' where r: "single_cycle release_1st demo_fpu empty_input empty_output 0 2 ?opt s
      = Some (Ok (Break \<lparr>ob_watchings = watched (opt_watchings ?opt) c, ob_reason = BreakPoint (Addr 4)\<rparr>), s')"
    and "sim_cycle s' = 1"
    using demo_fields(2) [OF s] by (auto dest!: looked_inspected inspected_fields(2))
  moreover have "wv_reg_map (watched (opt_watchings ?opt) c) (RegId 5) \<noteq> None" by (simp add: watched_def)
  ultimately show ?thesis using demo_new [OF s] by blast
qed

section \<open>The batch driver\<close>

lemma break_sim_default:
  "break_sim b default_option reason s =
     (Ok (Break \<lparr>ob_watchings = \<lparr>wv_reg_map = Map.empty, wv_freg_map = Map.empty, wv_memory_map = Map.empty\<rparr>,
        ob_reason = reason\<rparr>), s)"
  by (simp add: break_sim_def gather_watchings_def default_option_def act_simps)

end
