(* ===== verification/Sim_Refines.thy ===== *)
theory Sim_Refines
  imports Sim_Run
begin

text \<open>
  The whole simulator against the instruction set: what a batch run that succeeds has computed,
  that the fuel of the model does not matter once it is enough, and a complete run from the
  loaded image to the exit.
\<close>

section \<open>A batch run executes its program\<close>

text \<open>The batch driver runs without tracing.\<close>

abbreviation executed ::
  "build \<Rightarrow> binding \<Rightarrow> 'i input_trait \<Rightarrow> 'o output_trait \<Rightarrow> ('i, 'o) simulator \<Rightarrow> u32 list \<Rightarrow> ('i, 'o) simulator \<Rightarrow> bool" where
  "executed b fpu it ot \<equiv> ran b fpu it ot False"

text \<open>The last state before the exit, and the exit itself.\<close>

definition exited ::
  "build \<Rightarrow> binding \<Rightarrow> 'i input_trait \<Rightarrow> 'o output_trait \<Rightarrow> ('i, 'o) simulator \<Rightarrow> ('i, 'o) simulator \<Rightarrow> bool" where
  "exited b fpu it ot s s' \<longleftrightarrow>
     (\<exists>ps t res. executed b fpu it ot s ps t \<and> cycle_one_full b fpu it ot False (sim_cpu t) = (Ok res, sim_cpu s')
        \<and> cr_flow res = CpuExit \<and> sim_cycle s' = sim_cycle t + 1)"

text \<open>The error the simulator holds: it was there before the run, or the last cycle reported it.\<close>

definition failed ::
  "build \<Rightarrow> binding \<Rightarrow> 'i input_trait \<Rightarrow> 'o output_trait \<Rightarrow> ('i, 'o) simulator \<Rightarrow> runtime_error \<Rightarrow> ('i, 'o) simulator \<Rightarrow> bool" where
  "failed b fpu it ot s err s' \<longleftrightarrow>
     fatal_error s' = Some err
     \<and> (fatal_error s = Some err \<and> s' = s
        \<or> (\<exists>ps t. executed b fpu it ot s ps t \<and> cycle_one_full b fpu it ot False (sim_cpu t) = (Err err, sim_cpu s')
             \<and> sim_cycle s' = sim_cycle t))"

definition panicked ::
  "build \<Rightarrow> binding \<Rightarrow> 'i input_trait \<Rightarrow> 'o output_trait \<Rightarrow> ('i, 'o) simulator \<Rightarrow> panic \<Rightarrow> ('i, 'o) simulator \<Rightarrow> bool" where
  "panicked b fpu it ot s p s' \<longleftrightarrow>
     (\<exists>ps t. executed b fpu it ot s ps t \<and> cycle_one_full b fpu it ot False (sim_cpu t) = (Panic p, sim_cpu s'))"

definition stopped ::
  "build \<Rightarrow> binding \<Rightarrow> 'i input_trait \<Rightarrow> 'o output_trait \<Rightarrow> ('i, 'o) simulator
    \<Rightarrow> (anyhow_error, control_flow) outcome \<Rightarrow> ('i, 'o) simulator \<Rightarrow> bool" where
  "stopped b fpu it ot s r s' \<longleftrightarrow>
     (case r of
        Ok Exit \<Rightarrow> exited b fpu it ot s s'
      | Ok (Break ob) \<Rightarrow>
          if flow_exit_code (Break ob) = None then (\<exists>ps. executed b fpu it ot s ps s')
          else (\<exists>err. failed b fpu it ot s err s')
      | Err e \<Rightarrow> False
      | Panic p \<Rightarrow> panicked b fpu it ot s p s')"

lemma exec_step_stopped:
  assumes "exec_step b default_option now (cycle_one_full b fpu it ot False) e t o' s'" "finish o' = Some r"
    "executed b fpu it ot s ps t"
  shows "stopped b fpu it ot s r s'"
  using assms(1)
proof (cases rule: exec_step.cases)
  case (watch_point res c w q)
  then show ?thesis
    using assms(2) ran_snoc [OF assms(3) watch_point(3), of "cr_cycles res"]
    by (auto simp: stopped_def break_sim_default flow_exit_code_def intro: exI)
next
  case (exits res c)
  then show ?thesis
    using assms(2,3) by (fastforce simp: stopped_def exited_def exit_sim_def counted_def)
next
  case (goes_on res c q)
  then show ?thesis
    using assms(2) untraced_cycle [OF goes_on(3)] by (auto simp: print_trace_def act_simps)
next
  case (at_breakpoint bp q)
  then show ?thesis by (simp add: default_option_def)
next
  case (cpu_fails err c q)
  then have s': "s' = t\<lparr>sim_cpu := c, fatal_error := Some err\<rparr>" by (simp add: break_sim_default)
  then have "\<exists>ps t. executed b fpu it ot s ps t \<and> cycle_one_full b fpu it ot False (sim_cpu t) = (Err err, sim_cpu s')
      \<and> sim_cycle s' = sim_cycle t"
    using assms(3) cpu_fails(3) by (intro exI [of _ ps] exI [of _ t]) simp
  then have "failed b fpu it ot s err s'" using s' by (simp add: failed_def)
  then show ?thesis
    using assms(2) cpu_fails by (auto simp: stopped_def break_sim_default flow_exit_code_def)
next
  case (cpu_panics p c)
  then have "panicked b fpu it ot s p s'"
    unfolding panicked_def using assms(3) by (intro exI [of _ ps] exI [of _ t]) simp
  then show ?thesis using assms(2) cpu_panics by (auto simp: stopped_def)
qed

lemma single_cycle_stopped:
  assumes "single_cycle b fpu it ot now fuel default_option s = Some (r, s')"
  shows "stopped b fpu it ot s r s'"
proof (cases "fatal_error s")
  case (Some err)
  then show ?thesis using assms by (auto simp: single_cycle_def break_sim_default stopped_def flow_exit_code_def failed_def)
next
  case None
  have plain: "do_trace default_option = False" "opt_mode default_option = Run" by (simp_all add: default_option_def)
  show ?thesis
  proof (rule single_cycle_rule [OF assms None, where P = "\<lambda>_ _ t. \<exists>ps. executed b fpu it ot s ps t", unfolded plain])
    fix e t s1 and k :: nat
    assume "\<exists>ps. executed b fpu it ot s ps t"
      "exec_step b default_option now (cycle_one_full b fpu it ot False) e t (Ok None) s1"
    then show "\<exists>ps. executed b fpu it ot s ps s1"
      using ran_step [where opt = default_option, unfolded plain] by blast
  qed (auto intro: ran_none exec_step_stopped)
qed

lemma failed_error: "failed b fpu it ot s err s' \<Longrightarrow> fatal_error s' = Some err"
  by (simp add: failed_def)

lemma batch_stopped:
  assumes "batch_execute fuel b fpu it ot now s = Some (r, s')"
  shows "case r of
      Ok _ \<Rightarrow> exited b fpu it ot s s' \<and> stop_state default_option Exit s'
    | Err e \<Rightarrow> (\<exists>err. failed b fpu it ot s err s' \<and> e = Message (''simulator returns an error: ''
        @ show_runtime_error err @ ''. try executing process with --interactive to debug.''))
    | Panic p \<Rightarrow> panicked b fpu it ot s p s'"
  using assms
proof (induction fuel arbitrary: s)
  case (Suc fuel)
  obtain q s1 where q: "single_cycle b fpu it ot now fuel default_option s = Some (q, s1)"
    using Suc.prems by (cases "single_cycle b fpu it ot now fuel default_option s") auto
  note stop = single_cycle_stopped [OF q]
  show ?case
  proof (cases q)
    case (Ok cf)
    show ?thesis
    proof (cases "flow_exit_code cf")
      case None
      then obtain ob where cf: "cf = Break ob" by (cases cf) (simp_all add: flow_exit_code_def)
      obtain ps where ps: "executed b fpu it ot s ps s1" using stop Ok cf None by (auto simp: stopped_def)
      have "fatal_error s1 = None"
        using single_cycle_stop [OF q [unfolded Ok]] None cf
        by (auto simp: stop_state_def flow_exit_code_def split: break_reason.splits)
      moreover have "batch_execute fuel b fpu it ot now s1 = Some (r, s')" using Suc.prems q Ok None by simp
      note Suc.IH [OF this]
      ultimately show ?thesis
        using ran_append [OF ps] by (cases r) (auto simp: exited_def failed_def panicked_def, blast+)
    next
      case (Some code)
      show ?thesis
      proof (cases cf)
        case Exit
        then show ?thesis
          using Suc.prems q Ok stop single_cycle_stop [OF q [unfolded Ok]]
          by (auto simp: flow_exit_code_def is_success_def stopped_def)
      next
        case (Break ob)
        then obtain err where err: "failed b fpu it ot s err s1"
          using stop Ok Some by (auto simp: stopped_def)
        moreover have "code = Failure"
          using Some Break by (auto simp: flow_exit_code_def split: break_reason.splits)
        ultimately show ?thesis
          using Suc.prems q Ok Some failed_error [OF err] by (auto simp: is_success_def get_error_msg_def)
      qed
    qed
  qed (use Suc.prems q stop in \<open>auto simp: stopped_def\<close>)
qed simp

lemma batch_exited:
  assumes "batch_execute fuel b fpu it ot now s = Some (Ok (), s')"
  shows "exited b fpu it ot s s'"
  using batch_stopped [OF assms] by simp

text \<open>
  C4. The simulator runs the program it was given: when a batch run succeeds it has executed a
  sequence of instructions, counted each, and stopped on the end marker; the program is that of
  the memory it started with, and as long as every jump went to a word boundary, the registers,
  the memory, the program counter and the devices are what the instruction set says that
  sequence computes.
\<close>
theorem batch_refines_isa:
  assumes "batch_execute fuel b fpu it ot now s = Some (Ok (), s')" "code_aligned (cpu_memory (sim_cpu s))"
  shows "\<exists>ps c. retires b fpu it ot False ps (sim_cpu s) c \<and> sim_cycle s' = sim_cycle s + length ps + 1
    \<and> arch_of (sim_cpu s') = advance (arch_of c)
    \<and> ((\<forall>p \<in> insert (pc_inner (cpu_pc c)) (set ps). unat p mod 4 = 0) \<longrightarrow>
        isa_steps fpu it ot (program b (cpu_memory (sim_cpu s))) (length ps) (arch_of (sim_cpu s)) = Some (arch_of c)
        \<and> program b (cpu_memory (sim_cpu s)) (pc_inner (cpu_pc c)) = Some (Instr_Misc End))"
proof -
  obtain ps t res where t: "executed b fpu it ot s ps t" "sim_cycle s' = sim_cycle t + 1"
    and last: "cycle_one_full b fpu it ot False (sim_cpu t) = (Ok res, sim_cpu s')" "cr_flow res = CpuExit"
    using batch_exited [OF assms(1)] unfolding exited_def by blast
  then have ps: "retires b fpu it ot False ps (sim_cpu s) (sim_cpu t)" by (simp add: ran_def)
  have exit: "program b (cpu_memory (sim_cpu t)) (pc_inner (cpu_pc (sim_cpu t))) = Some (Instr_Misc End)"
    "arch_of (sim_cpu s') = advance (arch_of (sim_cpu t))"
    using cycle_Ok [OF last(1)] last(2) by (auto simp: program_def split: if_splits)
  have same: "program b (cpu_memory (sim_cpu t)) p = program b (cpu_memory (sim_cpu s)) p" if "unat p mod 4 = 0" for p
    by (rule program_kept [OF assms(2) retires_code_kept [OF ps] that])
  show ?thesis
    using t exit ps same [of "pc_inner (cpu_pc (sim_cpu t))"] retires_isa_steps [OF ps assms(2)]
    by (intro exI [of _ ps] exI [of _ "sim_cpu t"]) (auto simp: ran_def)
qed

theorem batch_refines_isa_witness:
  "\<exists>s s' :: (unit, unit) simulator. batch_execute 3 release_1st demo_fpu empty_input empty_output 0 s = Some (Ok (), s')
     \<and> code_aligned (cpu_memory (sim_cpu s))
     \<and> (\<exists>ps c. retires release_1st demo_fpu empty_input empty_output False ps (sim_cpu s) c \<and> sim_cycle s' = length ps + 1)"
proof -
  obtain s where s: "demo_sim s" using sim_boot by blast
  obtain s' where run: "batch_execute 3 release_1st demo_fpu empty_input empty_output 0 s = Some (Ok (), s')"
    by (rule demo_run [OF s])
  from batch_refines_isa [OF run demo_fields(6) [OF s]] have
    "\<exists>ps c. retires release_1st demo_fpu empty_input empty_output False ps (sim_cpu s) c \<and> sim_cycle s' = length ps + 1"
    unfolding demo_fields(2) [OF s] by fastforce
  then show ?thesis using run demo_fields(6) [OF s] by blast
qed

section \<open>What the batch driver reports\<close>

text \<open>
  C9. The batch driver reports what happened. It succeeds only after an exit: it executed and
  counted a sequence of instructions, the next cycle exited, and the statistics are complete. Its
  error names the fatal error the simulator holds, which the cycle after the executed sequence
  reported (or which was set before the run). It panics only if the processor did, in the cycle
  after the executed sequence, and never in its own \<^verbatim>\<open>unwrap\<close>.
\<close>
theorem batch_outcome:
  assumes "batch_execute fuel b fpu it ot now s = Some (r, s')"
  shows "case r of
      Ok _ \<Rightarrow> (\<exists>ps t res. ran b fpu it ot False s ps t
          \<and> cycle_one_full b fpu it ot False (sim_cpu t) = (Ok res, sim_cpu s') \<and> cr_flow res = CpuExit
          \<and> sim_cycle s' = sim_cycle t + 1)
        \<and> fatal_error s' = None \<and> sb_cycle (stat_builder s') = Some (sim_cycle s')
        \<and> sb_elapsed_clocks (stat_builder s') = Some (elapsed_clocks s') \<and> sb_elapsed (stat_builder s') \<noteq> None
    | Err e \<Rightarrow> (\<exists>err. fatal_error s' = Some err
        \<and> e = Message (''simulator returns an error: ''
            @ show_runtime_error err @ ''. try executing process with --interactive to debug.'')
        \<and> (fatal_error s = Some err \<and> s' = s
           \<or> (\<exists>ps t. ran b fpu it ot False s ps t
                \<and> cycle_one_full b fpu it ot False (sim_cpu t) = (Err err, sim_cpu s') \<and> sim_cycle s' = sim_cycle t)))
    | Panic p \<Rightarrow> (\<exists>ps t. ran b fpu it ot False s ps t
        \<and> cycle_one_full b fpu it ot False (sim_cpu t) = (Panic p, sim_cpu s'))"
  using batch_stopped [OF assms] unfolding exited_def failed_def panicked_def stop_state_def
  by (cases r; simp only: outcome.case control_flow.case; blast)

theorem batch_outcome_witness:
  "\<exists>s s' t :: (unit, unit) simulator. \<exists>ps res. sim_new release_1st 0 demo_image () () = (Ok s :: (anyhow_error, _) outcome)
     \<and> batch_execute 3 release_1st demo_fpu empty_input empty_output 0 s = Some (Ok (), s')
     \<and> ran release_1st demo_fpu empty_input empty_output False s ps t
     \<and> cycle_one_full release_1st demo_fpu empty_input empty_output False (sim_cpu t) = (Ok res, sim_cpu s')
     \<and> cr_flow res = CpuExit \<and> fatal_error s' = None \<and> sb_cycle (stat_builder s') = Some (sim_cycle s')"
proof -
  obtain s where s: "demo_sim s" using sim_boot by blast
  obtain s' where run: "batch_execute 3 release_1st demo_fpu empty_input empty_output 0 s = Some (Ok (), s')"
    by (rule demo_run [OF s])
  from batch_outcome [OF run] obtain ps t res where
    "ran release_1st demo_fpu empty_input empty_output False s ps t"
    "cycle_one_full release_1st demo_fpu empty_input empty_output False (sim_cpu t) = (Ok res, sim_cpu s')"
    "cr_flow res = CpuExit" "fatal_error s' = None \<and> sb_cycle (stat_builder s') = Some (sim_cycle s')"
    by auto
  with run demo_new [OF s] show ?thesis by blast
qed

section \<open>Fuel\<close>

lemma sim_loop_fuel:
  assumes "sim_loop fuel body e s = Some r" "fuel \<le> fuel'"
  shows "sim_loop fuel' body e s = Some r"
  using assms
proof (induction fuel arbitrary: fuel' e s)
  case (Suc fuel)
  then obtain k where "fuel' = Suc k" "fuel \<le> k" by (metis Suc_le_D Suc_le_mono)
  then show ?case
    using Suc by (auto simp: sim_loop_Suc simp del: sim_loop.simps split: option.splits)
qed simp

lemma single_cycle_fuel:
  assumes "single_cycle b fpu it ot now fuel opt s = Some r" "fuel \<le> fuel'"
  shows "single_cycle b fpu it ot now fuel' opt s = Some r"
  using assms(1)
  by (cases "opt_mode opt") (auto simp: single_cycle_def intro: sim_loop_fuel [OF _ assms(2)] split: if_splits)

lemma batch_fuel:
  assumes "batch_execute fuel b fpu it ot now s = Some r" "fuel \<le> fuel'"
  shows "batch_execute fuel' b fpu it ot now s = Some r"
  using assms
proof (induction fuel arbitrary: fuel' s)
  case (Suc fuel)
  obtain k where k: "fuel' = Suc k" "fuel \<le> k" using Suc.prems(2) by (metis Suc_le_D Suc_le_mono)
  obtain q s1 where q: "single_cycle b fpu it ot now fuel default_option s = Some (q, s1)"
    using Suc.prems by (cases "single_cycle b fpu it ot now fuel default_option s") auto
  then show ?case
    using Suc k single_cycle_fuel [OF q k(2)] by (cases q) (auto split: option.splits if_splits)
qed simp

end
