(* ===== verification/Debugger.thy ===== *)
theory Debugger
  imports Interactive Command_Text Sim_Refines
begin

text \<open>
  Properties of a debugger session: commands that do not run the program leave the machine at
  rest and keep the session well-formed, and what a session does when its input has ended.
\<close>

section \<open>Loops that keep a relation\<close>

definition loop_keeps :: "('s \<Rightarrow> 's \<Rightarrow> bool) \<Rightarrow> ('s, 'e, 'a) looping \<Rightarrow> bool" where
  "loop_keeps R m \<longleftrightarrow> (\<forall>s r s'. m s = Some (r, s') \<longrightarrow> R s s')"

lemma loop_keepsD: "loop_keeps R m \<Longrightarrow> m s = Some (r, s') \<Longrightarrow> R s s'"
  by (simp add: loop_keeps_def)

lemma loop_keeps_once: "keeps R m \<Longrightarrow> loop_keeps R (once m)"
  unfolding loop_keeps_def once_def by (metis keepsD option.inject)

context frame_relation
begin

lemma loop_keeps_then:
  assumes "loop_keeps R m" "\<And>a. loop_keeps R (f a)"
  shows "loop_keeps R (then_do m f)"
  unfolding loop_keeps_def
proof (intro allI impI)
  fix s r s' assume run: "then_do m f s = Some (r, s')"
  then obtain q t where m: "m s = Some (q, t)" by (cases "m s") (auto simp: then_do_def)
  have "R s t" by (rule loop_keepsD [OF assms(1) m])
  then show "R s s'"
    using run m loop_keepsD [OF assms(2)] frame_trans by (cases q) (auto simp: then_do_def)
qed

end

section \<open>The machine at rest\<close>

text \<open>
  A well-formed session watches nothing twice, and a break point is filed under its address.
\<close>

definition session_ok :: "('i, 'o) session \<Rightarrow> bool" where
  "session_ok s \<longleftrightarrow>
     (let w = opt_watchings (ss_opt s); bps = breakpoints (ss_opt s) in
      distinct (w_reg w) \<and> distinct (w_freg w) \<and> distinct (w_memory w)
      \<and> finite (dom bps) \<and> (\<forall>a bp. bps a = Some bp \<longrightarrow> bp_addr bp = a))"

text \<open>The part of the simulator that inspecting it and printing leave alone.\<close>

definition quiet :: "('i, 'o) simulator \<Rightarrow> ('i, 'o) simulator" where
  "quiet x = x\<lparr>sim_stdout := [], stat_builder := sim_stat_builder_new 0\<rparr>"

definition at_rest :: "('i, 'o) session \<Rightarrow> ('i, 'o) session \<Rightarrow> bool" where
  "at_rest s s' \<longleftrightarrow> inspected (quiet (ss_sim s)) (quiet (ss_sim s')) \<and> (session_ok s \<longrightarrow> session_ok s')"

interpretation rest: frame_relation at_rest
  by unfold_locales (auto simp: at_rest_def inspection.frame_refl intro: inspection.frame_trans)

lemma quiet_inspected: "inspected x x' \<Longrightarrow> inspected (quiet x) (quiet x')"
  unfolding inspected_def quiet_def by (elim exE) (intro exI, auto)

lemma on_sim_rests:
  assumes "\<And>x. inspected (quiet x) (quiet (snd (m x)))"
  shows "keeps at_rest (on_sim m)"
  using assms by (auto simp: keeps_def at_rest_def zoom_def session_ok_def split: prod.split) (metis snd_conv)

lemma inspects_rests: "keeps inspected m \<Longrightarrow> keeps at_rest (on_sim m)"
  by (rule on_sim_rests) (simp add: keeps_def quiet_inspected)

named_theorems rests "actions that leave the machine at rest"

lemma print_rests [rests]: "keeps at_rest (print t)" "keeps at_rest (println t)"
  unfolding println_def print_def
  by (rule on_sim_rests, simp add: quiet_def act_modify_def inspection.frame_refl)+

lemmas rest_rules [rests] =
  rest.keeps_ret rest.keeps_bind rest.keeps_attempt rest.keeps_if loop_keeps_once rest.loop_keeps_then

lemma getters_rest [rests]:
  "keeps at_rest (on_sim (sim_get_reg r))" "keeps at_rest (on_sim (sim_get_freg f))" "keeps at_rest (on_sim (sim_get_mem b a))"
  by (intro inspects_rests get_reg_inspects get_mem_inspects)+

lemma show_rests [rests]:
  "keeps at_rest (print_regfile b n k)" "keeps at_rest show_all_bp" "keeps at_rest (print_unless_printed_yet p)"
  "keeps at_rest (watch_line p t)" "keeps at_rest (watch_section p t ns)"
  "keeps at_rest (show_memory b a)" "keeps at_rest (show_label_def b f)"
  "keeps at_rest (show_register_i b r)" "keeps at_rest (show_register_f b q)"
  unfolding print_regfile_def show_all_bp_def print_unless_printed_yet_def watch_line_def watch_section_def show_memory_def
    show_label_def_def show_register_i_def show_register_f_def
  by (auto intro!: rests split: sum.split prod.split)

lemma show_watchings_rests [rests]: "keeps at_rest (show_watchings b con)"
  unfolding show_watchings_def by (auto intro!: rests split: prod.split)

lemma show_stat_rests [rests]: "loop_keeps at_rest (show_stat fuel b width)"
  unfolding loop_keeps_def show_stat_def
proof (intro allI impI)
  fix s :: "('i, 'o) session" and r s'
  have p: "keeps at_rest (act_bind (act_lift x) println :: ('i, 'o, unit) act)" for x by (intro rests)
  assume "(case cpu_add_stats (sim_cpu (ss_sim s)) [] of
      Ok stats \<Rightarrow> (case stats_view fuel b (case width of Some w \<Rightarrow> unat w | None \<Rightarrow> 60) stats of None \<Rightarrow> None
        | Some r \<Rightarrow> Some (act_bind (act_lift (bind_out r show_stat_all_view)) println s))
    | Err e \<Rightarrow> Some (Err e, s) | Panic p \<Rightarrow> Some (Panic p, s)) = Some (r, s')"
  then show "at_rest s s'"
    by (auto split: outcome.splits option.splits intro: rest.frame_refl dest: keepsD [OF p])
qed

lemma show_value_rests [rests]: "loop_keeps at_rest (show_value fuel b con width k)"
  by (cases "(fuel, b, con, width, k)" rule: show_value.cases) (auto intro!: rests split: prod.split)

section \<open>Commands\<close>

lemma modify_rests [rests]:
  assumes "\<And>o'. opt_watchings (f o') = opt_watchings o' \<and> breakpoints (f o') = breakpoints o'"
  shows "keeps at_rest (modify_opt f)"
  using assms by (auto simp: modify_opt_def keeps_def act_modify_def at_rest_def inspection.frame_refl session_ok_def Let_def)

lemma modify_banks_rests [rests]: "keeps at_rest (modify_banks f)"
  by (auto simp: modify_banks_def keeps_def act_modify_def at_rest_def inspection.frame_refl session_ok_def Let_def)

definition watches_once :: "watchings \<Rightarrow> bool" where
  "watches_once w \<longleftrightarrow> distinct (w_reg w) \<and> distinct (w_freg w) \<and> distinct (w_memory w)"

lemma modify_watchings_rests:
  assumes "\<And>w. watches_once w \<Longrightarrow> watches_once (f w)"
  shows "keeps at_rest (modify_watchings f)"
  unfolding keeps_def
proof
  fix s :: "('i, 'o) session"
  have ok: "session_ok t \<longleftrightarrow> watches_once (opt_watchings (ss_opt t)) \<and> finite (dom (breakpoints (ss_opt t)))
      \<and> (\<forall>a bp. breakpoints (ss_opt t) a = Some bp \<longrightarrow> bp_addr bp = a)" for t :: "('i, 'o) session"
    by (simp add: session_ok_def watches_once_def Let_def)
  show "at_rest s (snd (modify_watchings f s))"
    by (simp add: modify_watchings_def modify_opt_def act_modify_def at_rest_def inspection.frame_refl ok assms)
qed

lemma watch_once:
  "watches_once w \<Longrightarrow> watches_once (w\<lparr>w_reg := push_new r (w_reg w)\<rparr>)" "watches_once w \<Longrightarrow> watches_once (w\<lparr>w_freg := push_new q (w_freg w)\<rparr>)"
  "watches_once w \<Longrightarrow> watches_once (w\<lparr>w_memory := push_new a (w_memory w)\<rparr>)" "watches_once w \<Longrightarrow> watches_once (w\<lparr>w_reg := remove_watch r (w_reg w)\<rparr>)"
  "watches_once w \<Longrightarrow> watches_once (w\<lparr>w_freg := remove_watch q (w_freg w)\<rparr>)" "watches_once w \<Longrightarrow> watches_once (w\<lparr>w_memory := remove_watch a (w_memory w)\<rparr>)"
  by (simp_all add: watches_once_def push_new_def remove_watch_def)

lemma watch_rests [rests]: "keeps at_rest (add_watch con w)" "keeps at_rest (unwatch w)"
proof -
  show "keeps at_rest (add_watch con w)"
    by (cases "(con, w)" rule: add_watch.cases) (simp_all add: modify_banks_rests modify_watchings_rests watch_once)
  show "keeps at_rest (unwatch w)"
    by (cases w rule: unwatch.cases) (simp_all add: modify_banks_rests modify_watchings_rests watch_once)
qed

lemma spy_rests [rests]:
  "keeps at_rest (spy_memory add_mem_spy s :: ('i, 'o, unit) act)" "keeps at_rest (spy_memory remove_mem_spy s :: ('i, 'o, unit) act)"
proof -
  have spy: "inspected (quiet x) (quiet (x\<lparr>sim_cpu := (sim_cpu x)\<lparr>cpu_memory := m\<rparr>\<rparr>))"
    if "mem_inner m = mem_inner (cpu_memory (sim_cpu x))" "instr_mem_range m = instr_mem_range (cpu_memory (sim_cpu x))"
    for x :: "('i, 'o) simulator" and m
    using inspectedI [of x "cpu_reg_file (sim_cpu x)" m] that by (intro quiet_inspected) (simp add: same_values_def)
  have frame: "mem_inner (add_spy k u m) = mem_inner m" "instr_mem_range (add_spy k u m) = instr_mem_range m"
    "mem_inner (remove_spy k u m) = mem_inner m" "instr_mem_range (remove_spy k u m) = instr_mem_range m" for k u m
    by (simp_all add: add_spy_def remove_spy_def Let_def)
  have frame: "keeps at_rest (on_sim (act_modify (\<lambda>x. x\<lparr>sim_cpu := f k u (sim_cpu x)\<rparr>)) :: ('i, 'o, unit) act)"
    if "f = add_mem_spy \<or> f = remove_mem_spy" for f k u
    by (rule on_sim_rests) (use that in \<open>auto simp: act_modify_def add_mem_spy_def remove_mem_spy_def frame intro!: spy\<close>)
  have "keeps at_rest (spy_memory f s :: ('i, 'o, unit) act)" if "f = add_mem_spy \<or> f = remove_mem_spy" for f
    unfolding spy_memory_def by (cases "spy_target s") (simp_all add: frame [OF that] rest.keeps_ret(2))
  then show "keeps at_rest (spy_memory add_mem_spy s :: ('i, 'o, unit) act)" "keeps at_rest (spy_memory remove_mem_spy s :: ('i, 'o, unit) act)"
    by blast+
qed

lemma bp_rests [rests]:
  "keeps at_rest (modify_opt (\<lambda>o'. o'\<lparr>breakpoints := (breakpoints o')(bp_addr bp \<mapsto> bp)\<rparr>))"
  "keeps at_rest (modify_opt (\<lambda>o'. o'\<lparr>breakpoints := (breakpoints o')(a := None)\<rparr>))"
  by (auto simp: modify_opt_def keeps_def act_modify_def at_rest_def inspection.frame_refl session_ok_def Let_def)

lemma static_rests [rests]: "keeps at_rest (run_static_command con c)"
  by (cases "(con, c)" rule: run_static_command.cases) (auto intro!: rests)

lemma exit_rests [rests]: "keeps at_rest (on_sim (act_modify (exit_sim now)))"
  by (rule on_sim_rests) (simp add: act_modify_def quiet_def exit_sim_def inspection.frame_refl)

lemma input_rests [rests]: "keeps at_rest prompt" "keeps at_rest read_line"
  unfolding prompt_def
  by (auto intro!: rests) (auto simp: read_line_def keeps_def at_rest_def inspection.frame_refl session_ok_def split: list.split stdin_line.split)

lemma read_command_rests [rests]: "keeps at_rest (read_command b con now)"
  unfolding read_command_def by (auto intro!: rests split: outcome.split command.split)

lemma input_loop_rests [rests]: "loop_keeps at_rest (input_loop fuel b con width now k)"
proof (induction fuel arbitrary: k)
  case (Suc fuel)
  then show ?case by (auto intro!: rests split: option.split input_step.split)
qed (simp add: loop_keeps_def)

lemma print_values_rests [rests]: "keeps at_rest (print_values cell showed ks)"
  by (induction ks arbitrary: showed) (auto intro!: rests)

lemma after_run_rests [rests]: "keeps at_rest (after_run b width flow)"
  unfolding after_run_def print_reason_def print_watched_def Let_def
  by (auto intro!: rests split: control_flow.split break_reason.split spy_watch_result_kind.split prod.split)

section \<open>Sessions stay well-formed\<close>

definition stays_ok :: "('i, 'o) session \<Rightarrow> ('i, 'o) session \<Rightarrow> bool" where
  "stays_ok s s' \<longleftrightarrow> (session_ok s \<longrightarrow> session_ok s')"

interpretation ok: frame_relation stays_ok
  by unfold_locales (auto simp: stays_ok_def)

lemma rest_ok: "loop_keeps at_rest m \<Longrightarrow> loop_keeps stays_ok m"
  unfolding loop_keeps_def at_rest_def stays_ok_def by blast

lemma update_mode_ok: "loop_keeps stays_ok (once (update_mode d))"
  by (rule loop_keeps_once)
    (auto simp: keeps_def stays_ok_def update_mode_def modify_opt_def act_simps println_def print_def session_ok_def Let_def
      split: option.split)

lemma run_command_ok: "loop_keeps stays_ok (run_command fuel b fpu it ot now)"
  by (auto simp: loop_keeps_def stays_ok_def run_command_def on_sim_loop_def session_ok_def)

lemma interactive_loop_ok: "loop_keeps stays_ok (interactive_loop fuel b fpu it ot con width now)"
proof (induction fuel)
  case (Suc fuel)
  have ret: "loop_keeps stays_ok (once (act_ret a))" for a by (rule loop_keeps_once) (rule ok.keeps_ret)
  have run: "loop_keeps stays_ok (once (after_run b width flow))" for flow
    by (rule rest_ok) (intro rests)
  show ?case
    by (auto intro!: ok.loop_keeps_then update_mode_ok run_command_ok run ret Suc rest_ok [OF input_loop_rests] split: option.split)
qed (simp add: loop_keeps_def)

text \<open>
  C37. Commands leave the machine alone: whatever lines are entered before the program is run
  again, program counter, registers, memory words, counters and error state are those from
  before, whether the lines are accepted, refused or make the debugger panic; and through a whole
  session, with any number of runs, nothing is ever watched twice and every break point stays
  filed under its own address.
\<close>
theorem commands_leave_machine:
  assumes "session_ok s"
  shows "(input_loop fuel b con width now k s = Some (r, s') \<longrightarrow>
      session_ok s' \<and> cpu_pc (sim_cpu (ss_sim s')) = cpu_pc (sim_cpu (ss_sim s))
      \<and> rf_inner (cpu_reg_file (sim_cpu (ss_sim s'))) = rf_inner (cpu_reg_file (sim_cpu (ss_sim s)))
      \<and> rf_inner_f (cpu_reg_file (sim_cpu (ss_sim s'))) = rf_inner_f (cpu_reg_file (sim_cpu (ss_sim s)))
      \<and> mem_inner (cpu_memory (sim_cpu (ss_sim s'))) = mem_inner (cpu_memory (sim_cpu (ss_sim s)))
      \<and> sim_cycle (ss_sim s') = sim_cycle (ss_sim s) \<and> elapsed_clocks (ss_sim s') = elapsed_clocks (ss_sim s)
      \<and> fatal_error (ss_sim s') = fatal_error (ss_sim s))
    \<and> (interactive_loop fuel b fpu it ot con width now s = Some (q, s'') \<longrightarrow> session_ok s'')"
proof -
  have "input_loop fuel b con width now k s = Some (r, s') \<Longrightarrow> at_rest s s'"
    by (rule loop_keepsD [OF input_loop_rests])
  moreover have "interactive_loop fuel b fpu it ot con width now s = Some (q, s'') \<Longrightarrow> session_ok s''"
    using loop_keepsD [OF interactive_loop_ok, of fuel b fpu it ot con width now s q s''] assms by (simp add: stays_ok_def)
  ultimately show ?thesis
    using assms inspected_fields [of "quiet (ss_sim s)" "quiet (ss_sim s')"] by (auto simp: at_rest_def quiet_def)
qed

section \<open>End of input\<close>

text \<open>Actions that neither read nor write the standard output.\<close>

definition mute :: "(('i, 'o) simulator, 'e, 'a) action \<Rightarrow> bool" where
  "mute m \<longleftrightarrow> (\<forall>s out. m (s\<lparr>sim_stdout := out\<rparr>) = apsnd (sim_stdout_update (\<lambda>_. out)) (m s))"

lemma mute_basic: "mute (act_ret a)" "mute (act_lift r)" "mute (act_panic p)" "mute (on_cpu n)"
  by (auto simp: mute_def act_simps split: prod.split)

lemma mute_gets: "(\<And>s out. f (s\<lparr>sim_stdout := out\<rparr>) = f s) \<Longrightarrow> mute (act_gets f)"
  by (simp add: mute_def act_gets_def)

lemma mute_modify: "(\<And>s out. f (s\<lparr>sim_stdout := out\<rparr>) = (f s)\<lparr>sim_stdout := out\<rparr>) \<Longrightarrow> mute (act_modify f)"
  by (simp add: mute_def act_modify_def)

lemma mute_bind_result:
  assumes "mute m" "\<And>a s s'. m s = (Ok a, s') \<Longrightarrow> mute (f a)"
  shows "mute (act_bind m f)"
  unfolding mute_def
proof (intro allI)
  fix s out
  obtain r s1 where m: "m s = (r, s1)" by fastforce
  then have "m (s\<lparr>sim_stdout := out\<rparr>) = (r, s1\<lparr>sim_stdout := out\<rparr>)" using assms(1) by (simp add: mute_def)
  then show "act_bind m f (s\<lparr>sim_stdout := out\<rparr>) = apsnd (sim_stdout_update (\<lambda>_. out)) (act_bind m f s)"
    using m assms(2) [of s] by (cases r) (auto simp: act_bind_def mute_def)
qed

lemma mute_attempt: "mute m \<Longrightarrow> mute (act_attempt m)"
  unfolding mute_def act_attempt_def by (auto split: prod.splits outcome.splits)

lemma sim_execute_mute:
  fixes it :: "'i input_trait" and ot :: "'o output_trait"
  shows "mute (sim_execute b fpu it ot now default_option e)"
proof -
  have plain: "do_trace default_option = False" by (simp add: default_option_def)
  have brk: "mute (break_sim b default_option reason :: ('i, 'o, control_flow) sim_act)" for reason by (simp add: mute_def break_sim_default)
  have after: "mute (after_cycle b now default_option res :: ('i, 'o, control_flow option) sim_act)" if "cr_trace res = None" for res
    using that unfolding after_cycle_def
    by (auto intro!: mute_bind_result mute_basic mute_modify mute_gets brk simp: print_trace_def exit_sim_def split: cpu_control_flow.split)
  define k :: "runtime_error + cycle_result \<Rightarrow> ('i, 'o, control_flow option) sim_act" where
    "k = (\<lambda>r. case r of
       Inr res \<Rightarrow> after_cycle b now default_option res
     | Inl e \<Rightarrow>
         act_bind (if is_fatal (level e) then act_modify (\<lambda>s. s\<lparr>fatal_error := Some e\<rparr>) else act_ret ()) (\<lambda>_.
         act_bind (break_sim b default_option Failed) (\<lambda>cf. act_ret (Some cf))))"
  have "mute (act_bind (act_attempt (on_cpu (cycle_one_full b fpu it ot (do_trace default_option)))) k)"
  proof (rule mute_bind_result)
    show "mute (act_attempt (on_cpu (cycle_one_full b fpu it ot (do_trace default_option))))"
      by (intro mute_attempt mute_basic)
    fix r and s s' :: "('i, 'o) simulator"
    assume "act_attempt (on_cpu (cycle_one_full b fpu it ot (do_trace default_option))) s = (Ok r, s')"
    then have "\<forall>res. r = Inr res \<longrightarrow> cr_trace res = None"
      using untraced_cycle by (fastforce simp: act_attempt_def zoom_def plain split: prod.splits outcome.splits)
    then show "mute (k r)"
      unfolding k_def by (cases r) (auto intro!: mute_bind_result mute_basic mute_modify brk after)
  qed
  moreover have "check_breakpoint b default_option e = (act_ret None :: ('i, 'o, _) sim_act)"
    by (auto simp: check_breakpoint_def default_option_def act_simps)
  ultimately show ?thesis unfolding sim_execute_def k_def by (simp only: act_bind_ret option.case)
qed

lemma sim_loop_mute:
  assumes "\<And>e. mute (body e)"
  shows "sim_loop fuel body e (s\<lparr>sim_stdout := out\<rparr>) = map_option (apsnd (sim_stdout_update (\<lambda>_. out))) (sim_loop fuel body e s)"
proof (induction fuel arbitrary: e s)
  case (Suc fuel)
  obtain r s1 where m: "body e s = (r, s1)" by fastforce
  then have "body e (s\<lparr>sim_stdout := out\<rparr>) = (r, s1\<lparr>sim_stdout := out\<rparr>)" using assms by (simp add: mute_def)
  then show ?case using m Suc by (auto split: outcome.split option.split)
qed simp

lemma default_run_mute:
  "single_cycle b fpu it ot now fuel default_option (s\<lparr>sim_stdout := out\<rparr>)
    = map_option (apsnd (sim_stdout_update (\<lambda>_. out))) (single_cycle b fpu it ot now fuel default_option s)"
proof -
  have body: "loop_body b fpu it ot now default_option None = sim_execute b fpu it ot now default_option"
    by (simp add: loop_body_def fun_eq_iff)
  have "opt_mode default_option = Run" by (simp add: default_option_def)
  then show ?thesis by (simp add: single_cycle_def break_sim_default sim_loop_mute sim_execute_mute body)
qed

text \<open>A session that has done nothing but print, at the end of its input.\<close>

definition ended :: "('i, 'o) session \<Rightarrow> bool" where
  "ended s \<longleftrightarrow> ss_stdin s = [] \<and> ss_opt s = default_option \<and> watching_regfile s = 0"

lemma parse_empty: "parse_command b ds [] = Ok (Dynamic None)"
  by (simp add: parse_command_def rule_command_def static_fails rule_dyn_command_def peg_steps many_def)

lemma ended_input:
  assumes "ended s"
  shows "input_loop (Suc fuel) b con width now None s
    = Some (Ok (Some None), s\<lparr>ss_sim := (ss_sim s)\<lparr>sim_stdout := sim_stdout (ss_sim s) @ [''run '', ''> '']\<rparr>\<rparr>)"
  using assms
  by (simp add: ended_def then_do_def once_def read_command_def prompt_def print_def default_option_def read_line_def parse_empty
      act_simps)

definition printed :: "string list \<Rightarrow> ('i, 'o) session \<Rightarrow> ('i, 'o) session" where
  "printed ls s = s\<lparr>ss_sim := (ss_sim s)\<lparr>sim_stdout := sim_stdout (ss_sim s) @ ls\<rparr>\<rparr>"

lemma printed_fields:
  "ended (printed ls s) \<longleftrightarrow> ended s" "ss_sim (printed ls s) = (ss_sim s)\<lparr>sim_stdout := sim_stdout (ss_sim s) @ ls\<rparr>"
  "ss_opt (printed ls s) = ss_opt s"
  by (simp_all add: printed_def ended_def)

lemma println_eq: "println t s = (Ok (), printed [t @ nl] s)"
  by (simp add: println_def print_def printed_def act_simps)

lemma ended_watched: "ended s \<Longrightarrow> print_watched b width v s = (Ok (), s)"
  by (simp add: ended_def print_watched_def default_option_def watches_bank_def bank_i_def bank_f_def act_simps Let_def)

text \<open>After a failed run the debugger is where it was, with more output.\<close>

lemma after_failure:
  assumes "ended s" "fatal_error (ss_sim s) \<noteq> None" "ob_reason ob \<in> {Failed, CannotRestart}"
  shows "\<exists>ls. after_run b width (Break ob) s = (Ok False, printed ls s)"
proof -
  obtain e where e: "get_error_msg (ss_sim s) = Some e" using assms(2) by (auto simp: get_error_msg_def)
  have "\<exists>ls. print_reason b (ob_reason ob) s = (Ok (), printed ls s)"
    using assms(3) e by (auto simp: print_reason_def act_bind_def act_read_def act_gets_def unwrap_def println_eq)
  then show ?thesis
    using assms(1) by (auto simp: after_run_def act_bind_def ended_watched printed_fields act_ret_def)
qed

text \<open>One round of the loop at the end of the input.\<close>

lemma ended_round:
  assumes "ended s" "single_cycle b fpu it ot now (Suc n) default_option (ss_sim s) = Some (Ok flow, x)"
  shows "\<exists>t. ended t \<and> ss_sim t = x\<lparr>sim_stdout := sim_stdout (ss_sim s) @ [''run '', ''> '']\<rparr>
    \<and> interactive_loop (Suc (Suc n)) b fpu it ot con width now s
      = then_do (once (after_run b width flow)) (\<lambda>stop.
          if stop then once (act_ret ()) else interactive_loop (Suc n) b fpu it ot con width now) t"
proof -
  let ?s = "printed [''run '', ''> ''] s"
  let ?t = "?s\<lparr>ss_sim := x\<lparr>sim_stdout := sim_stdout (ss_sim s) @ [''run '', ''> '']\<rparr>\<rparr>"
  have "run_command (Suc n) b fpu it ot now ?s = Some (Ok flow, ?t)"
    using assms by (simp add: run_command_def on_sim_loop_def printed_fields ended_def default_run_mute)
  then have "interactive_loop (Suc (Suc n)) b fpu it ot con width now s
      = then_do (once (after_run b width flow)) (\<lambda>stop.
          if stop then once (act_ret ()) else interactive_loop (Suc n) b fpu it ot con width now) ?t"
    using ended_input [OF assms(1), of n b con width now]
    by (simp add: then_do_def once_def update_mode_def act_ret_def printed_def del: input_loop.simps)
  moreover have "ended ?t" using assms(1) by (simp add: ended_def printed_def)
  ultimately show ?thesis by (intro exI [of _ ?t]) simp
qed

lemma ended_returns_nothing:
  assumes "ended s" "fatal_error (ss_sim s) \<noteq> None"
  shows "interactive_loop n b fpu it ot con width now s = None"
  using assms
proof (induction n arbitrary: s)
  case (Suc n)
  show ?case
  proof (cases n)
    case 0
    then show ?thesis by (simp add: then_do_def)
  next
    case (Suc m)
    let ?ob = "\<lparr>ob_watchings = \<lparr>wv_reg_map = Map.empty, wv_freg_map = Map.empty, wv_memory_map = Map.empty\<rparr>, ob_reason = CannotRestart\<rparr>"
    have "single_cycle b fpu it ot now (Suc m) default_option (ss_sim s) = Some (Ok (Break ?ob), ss_sim s)"
      using Suc.prems(2) by (simp add: single_cycle_def break_sim_default)
    from ended_round [OF Suc.prems(1) this, of con width] obtain t where t: "ended t" "fatal_error (ss_sim t) \<noteq> None"
      "interactive_loop (Suc (Suc m)) b fpu it ot con width now s
        = then_do (once (after_run b width (Break ?ob))) (\<lambda>stop.
            if stop then once (act_ret ()) else interactive_loop (Suc m) b fpu it ot con width now) t"
      using Suc.prems(2) by auto
    obtain ls where "after_run b width (Break ?ob) t = (Ok False, printed ls t)"
      using after_failure [OF t(1,2), of ?ob b width] by auto
    then show ?thesis
      using t Suc Suc.IH [of "printed ls t"] by (simp add: then_do_def once_def printed_fields del: interactive_loop.simps)
  qed
qed simp

lemma run_unique:
  assumes "single_cycle b fpu it ot now fuel opt s = Some r" "single_cycle b fpu it ot now n opt s = Some q"
  shows "q = r"
  using single_cycle_fuel [OF assms(1), of "max fuel n"] single_cycle_fuel [OF assms(2), of "max fuel n"] by simp

lemma failing_returns_nothing:
  assumes "ended s" "ss_sim s = x\<lparr>sim_stdout := out\<rparr>" "single_cycle b fpu it ot now fuel default_option x = Some (Ok (Break ob), y)"
    and "ob_reason ob \<in> {Failed, CannotRestart}" "fatal_error y \<noteq> None"
  shows "interactive_loop n b fpu it ot con width now s = None"
proof (cases "n < 2")
  case True
  then have "n = 0 \<or> n = Suc 0" by auto
  then show ?thesis by (auto simp: then_do_def)
next
  case False
  then obtain m where n: "n = Suc (Suc m)" by (metis add_2_eq_Suc le_Suc_ex not_less)
  show ?thesis
  proof (cases "single_cycle b fpu it ot now (Suc m) default_option x")
    case None
    then have "run_command (Suc m) b fpu it ot now (printed [''run '', ''> ''] s) = None"
      using assms(1,2) by (simp add: run_command_def on_sim_loop_def printed_fields ended_def default_run_mute)
    then show ?thesis
      using ended_input [OF assms(1), of m b con width now] n
      by (simp add: then_do_def once_def update_mode_def act_ret_def printed_def del: input_loop.simps)
  next
    case (Some q)
    then have "single_cycle b fpu it ot now (Suc m) default_option (ss_sim s) = Some (Ok (Break ob), y\<lparr>sim_stdout := out\<rparr>)"
      using run_unique [OF assms(3) Some] assms(2) by (simp add: default_run_mute)
    from ended_round [OF assms(1) this, of con width] obtain t where t: "ended t" "fatal_error (ss_sim t) \<noteq> None"
      "interactive_loop (Suc (Suc m)) b fpu it ot con width now s
        = then_do (once (after_run b width (Break ob))) (\<lambda>stop.
            if stop then once (act_ret ()) else interactive_loop (Suc m) b fpu it ot con width now) t"
      using assms(5) by auto
    obtain ls where "after_run b width (Break ob) t = (Ok False, printed ls t)"
      using after_failure [OF t(1,2) assms(4), of b width] by auto
    then show ?thesis
      using t n ended_returns_nothing [of "printed ls t"]
      by (simp add: then_do_def once_def printed_fields del: interactive_loop.simps)
  qed
qed

section \<open>End of input after commands\<close>

text \<open>Actions that print and do nothing else.\<close>

definition displayed :: "('i, 'o) session \<Rightarrow> ('i, 'o) session \<Rightarrow> bool" where
  "displayed s s' \<longleftrightarrow> (\<exists>out. s' = s\<lparr>ss_sim := (ss_sim s)\<lparr>sim_stdout := out\<rparr>\<rparr>)"

interpretation display: frame_relation displayed
proof
  show "displayed s s" for s :: "('i, 'o) session"
    unfolding displayed_def by (rule exI [of _ "sim_stdout (ss_sim s)"]) simp
  show "displayed s u" if "displayed s t" "displayed t u" for s t u :: "('i, 'o) session"
    using that by (fastforce simp: displayed_def)
qed

lemma displayed_fields:
  assumes "displayed s s'"
  shows "ss_stdin s' = ss_stdin s" "ss_opt s' = ss_opt s" "fatal_error (ss_sim s') = fatal_error (ss_sim s)"
  using assms by (auto simp: displayed_def)

lemma print_displays: "keeps displayed (print t)" "keeps displayed (println t)"
proof -
  show "keeps displayed (print t)" for t
    by (auto simp: keeps_def displayed_def print_def act_simps)
  then show "keeps displayed (println t)" by (simp add: println_def)
qed

lemma prompt_displays: "keeps displayed prompt"
  unfolding prompt_def by (auto intro!: display.keeps_bind display.keeps_ret print_displays display.keeps_if)

lemma report_displays: "keeps displayed (print_reason b reason)" "keeps displayed (print_watched b width v)"
proof -
  show "keeps displayed (print_reason b reason)"
    unfolding print_reason_def
    by (auto intro!: display.keeps_bind display.keeps_ret print_displays split: break_reason.split spy_watch_result_kind.split)
  have cells: "keeps displayed (print_values f p xs)" for f p xs
    by (induction xs arbitrary: p) (auto intro!: display.keeps_bind display.keeps_ret print_displays split: outcome.split)
  have regfile: "keeps displayed (print_regfile b n k)" for n k
    unfolding print_regfile_def by (auto intro!: display.keeps_bind display.keeps_ret print_displays)
  show "keeps displayed (print_watched b width v)"
    unfolding print_watched_def Let_def
    by (auto intro!: display.keeps_bind display.keeps_ret cells regfile split: prod.split)
qed

lemma empty_line:
  assumes "ss_stdin s = []"
  shows "\<exists>t. displayed s t \<and> input_loop (Suc fuel) b con width now None s = Some (Ok (Some None), t)"
proof -
  obtain u t where p: "prompt s = (u, t)" by fastforce
  then have "u = Ok ()" by (auto simp: prompt_def print_def act_simps split: if_splits)
  moreover have "displayed s t" by (rule keepsD [OF prompt_displays p])
  ultimately show ?thesis
    using p assms displayed_fields(1) [of s t]
    by (intro exI [of _ t]) (simp add: then_do_def once_def read_command_def read_line_def parse_empty act_simps)
qed

lemma restart_refused:
  assumes "ss_stdin s = []" "fatal_error (ss_sim s) \<noteq> None"
  shows "interactive_loop n b fpu it ot con width now s \<noteq> Some (Ok u, t)"
  using assms
proof (induction n arbitrary: s)
  case (Suc n)
  show ?case
  proof (cases n)
    case 0
    then show ?thesis by (simp add: then_do_def)
  next
    case (Suc m)
    obtain s1 where s1: "displayed s s1" "input_loop (Suc m) b con width now None s = Some (Ok (Some None), s1)"
      using empty_line [OF Suc.prems(1)] by blast
    have fatal: "fatal_error (ss_sim s1) \<noteq> None" "ss_stdin s1 = []"
      using displayed_fields [OF s1(1)] Suc.prems by simp_all
    obtain r x where r: "break_sim b (ss_opt s1) CannotRestart (ss_sim s1) = (r, x)" by fastforce
    let ?s2 = "s1\<lparr>ss_sim := x\<rparr>"
    have x: "fatal_error x \<noteq> None" "ss_stdin ?s2 = []"
      using inspected_fields(4) [OF break_sim_result(1) [OF r]] fatal by simp_all
    have run: "run_command (Suc m) b fpu it ot now s1 = Some (r, ?s2)"
      using fatal(1) r by (simp add: run_command_def on_sim_loop_def single_cycle_def)
    show ?thesis
    proof (cases r)
      case (Ok flow)
      then obtain ob where ob: "flow = Break ob" using break_sim_result(2) [OF r] by auto
      obtain q s3 where q: "after_run b width flow ?s2 = (q, s3)" by fastforce
      have "keeps displayed (after_run b width flow :: ('a, 'b, bool) act)"
        unfolding after_run_def ob by (auto intro!: display.keeps_bind display.keeps_ret report_displays)
      then have "displayed ?s2 s3" using q by (rule keepsD)
      then have s3: "ss_stdin s3 = []" "fatal_error (ss_sim s3) \<noteq> None"
        using displayed_fields [of ?s2 s3] x by simp_all
      have "q = Ok stop \<Longrightarrow> \<not> stop" for stop
        using q by (auto simp: after_run_def ob act_Ok)
      moreover have "interactive_loop (Suc n) b fpu it ot con width now s = then_do (once (after_run b width flow)) (\<lambda>stop.
          if stop then once (act_ret ()) else interactive_loop n b fpu it ot con width now) ?s2"
        using s1(2) run Ok Suc
        by (subst interactive_loop.simps(2))
          (simp add: then_do_def once_def update_mode_def act_ret_def del: input_loop.simps interactive_loop.simps)
      ultimately show ?thesis
        using q Suc.IH [OF s3] by (cases q) (auto simp: then_do_def once_def simp del: interactive_loop.simps)
    qed (use s1(2) run Suc in \<open>auto simp: then_do_def once_def update_mode_def act_ret_def simp del: input_loop.simps\<close>)
  qed
qed simp

text \<open>
  C38. At the end of its input the debugger behaves as the batch driver does, as long as the
  program is not stopped by a spy: started on a program with nothing typed, on any terminal (in a
  debug build of at least 20 columns), when the program halts both finish and leave the same
  machine; but when it fails, the batch driver reports the error and the debugger never returns,
  however long it is run: end of input reads as an empty line, which restarts the program, and that
  is refused for ever. This holds after any commands: from every session at the end of its input
  with a fatal error set, whatever its mode, break points and watch list, the loop of the debugger
  never returns normally.
\<close>
theorem end_of_input:
  assumes "single_cycle b fpu it ot now fuel default_option s = Some (Ok flow, s')"
    and "\<forall>ob w. flow = Break ob \<longrightarrow> ob_reason ob \<noteq> Spy w"
    and "\<forall>w. debug_assertions b \<and> terminal_columns con = Some w \<longrightarrow> 20 \<le> w"
  shows "(flow = Exit \<longrightarrow> batch_execute (Suc fuel) b fpu it ot now s = Some (Ok (), s')
        \<and> (\<exists>t. execute_interactive (Suc (Suc fuel)) b fpu it ot con now (session_new [] s) = Some (Ok (), t)
             \<and> (\<exists>out. ss_sim t = s'\<lparr>sim_stdout := out\<rparr>)))
    \<and> (flow \<noteq> Exit \<longrightarrow> (\<exists>e. batch_execute (Suc fuel) b fpu it ot now s = Some (Err e, s'))
        \<and> (\<forall>n. execute_interactive n b fpu it ot con now (session_new [] s) = None))
    \<and> (\<forall>n width ss t. ss_stdin ss = [] \<and> fatal_error (ss_sim ss) \<noteq> None \<longrightarrow>
        interactive_loop n b fpu it ot con width now ss \<noteq> Some (Ok (), t))"
proof -
  obtain width where width: "get_terminal_width b (terminal_columns con) = (Ok width :: (anyhow_error, _) outcome)"
    using assms(3) by (cases "terminal_columns con") (auto simp: get_terminal_width_def linorder_not_le [symmetric])
  have refused: "\<forall>n width ss t. ss_stdin ss = [] \<and> fatal_error (ss_sim ss) \<noteq> None \<longrightarrow>
      interactive_loop n b fpu it ot con width now ss \<noteq> Some (Ok (), t)"
    using restart_refused by blast
  show ?thesis
proof (cases flow)
  case Exit
  let ?s = "printed [''entering interactive.'' @ nl] (session_new [] s)"
  have e: "ended ?s" by (simp add: printed_fields ended_def session_new_def) (simp add: printed_def)
  have "single_cycle b fpu it ot now (Suc fuel) default_option (ss_sim ?s) = Some (Ok Exit, s'\<lparr>sim_stdout := sim_stdout (ss_sim ?s)\<rparr>)"
    using single_cycle_fuel [OF assms(1), of "Suc fuel"] Exit by (simp add: printed_fields session_new_def default_run_mute)
  from ended_round [OF e this, of con width] obtain t where t: "\<exists>out. ss_sim t = s'\<lparr>sim_stdout := out\<rparr>"
    "interactive_loop (Suc (Suc fuel)) b fpu it ot con width now ?s
      = then_do (once (after_run b width Exit)) (\<lambda>stop.
          if stop then once (act_ret ()) else interactive_loop (Suc fuel) b fpu it ot con width now) t"
    by auto
  have "execute_interactive (Suc (Suc fuel)) b fpu it ot con now (session_new [] s)
      = Some (Ok (), printed [''exiting interactive.'' @ nl] (printed [''program halts'' @ nl] t))"
    using t(2) width
    by (simp add: execute_interactive_def then_do_def once_def act_lift_def println_eq after_run_def
        act_bind_def act_ret_def del: interactive_loop.simps)
  moreover have "\<exists>out. ss_sim (printed [''exiting interactive.'' @ nl] (printed [''program halts'' @ nl] t)) = s'\<lparr>sim_stdout := out\<rparr>"
    using t(1) by (auto simp: printed_fields)
  ultimately show ?thesis
    using Exit assms(1) refused by (simp add: flow_exit_code_def is_success_def)
next
  case (Break ob)
  have "stop_state default_option flow s'" by (rule single_cycle_stop [OF assms(1)])
  then have ob: "ob_reason ob \<in> {Failed, CannotRestart}" "fatal_error s' \<noteq> None"
    using Break assms(2) by (auto simp: stop_state_def default_option_def split: break_reason.splits)
  have "\<exists>e. batch_execute (Suc fuel) b fpu it ot now s = Some (Err e, s')"
    using ob assms(1) Break by (auto simp: flow_exit_code_def is_success_def get_error_msg_def)
  moreover have "execute_interactive n b fpu it ot con now (session_new [] s) = None" for n
  proof -
    let ?s = "printed [''entering interactive.'' @ nl] (session_new [] s)"
    have e: "ended ?s" by (simp add: printed_fields ended_def session_new_def) (simp add: printed_def)
    have "interactive_loop n b fpu it ot con width now ?s = None"
      by (rule failing_returns_nothing [OF e]) (use assms(1) Break ob in \<open>auto simp: printed_fields session_new_def\<close>)
    then show ?thesis
      using width by (simp add: execute_interactive_def then_do_def once_def act_lift_def println_eq)
  qed
  ultimately show ?thesis using Break refused by simp
qed
qed

definition demo_console :: console where
  "demo_console = \<lparr>terminal_columns = None, peg_expected = (\<lambda>_ _. []), all_banks = 255\<rparr>"

theorem commands_leave_machine_witness:
  "\<exists>s s' :: (unit, unit) session. session_ok s
     \<and> input_loop 3 release_1st demo_console None 0 None s = Some (Ok (Some None), s') \<and> session_ok s'"
proof -
  obtain x :: "(unit, unit) simulator" where "demo_sim x" using sim_boot by blast
  let ?s = "session_new [] x"
  have ok: "session_ok ?s" by (simp add: session_ok_def session_new_def default_option_def)
  have e: "ended ?s" by (simp add: ended_def session_new_def)
  obtain t where run: "input_loop 3 release_1st demo_console None 0 None ?s = Some (Ok (Some None), t)"
    using ended_input [OF e, of 2] by (simp add: numeral_3_eq_3 numeral_2_eq_2 del: input_loop.simps)
  have "session_ok t"
    using commands_leave_machine [OF ok, of 3 release_1st demo_console None 0 None "Ok (Some None)" t] run by blast
  with ok run show ?thesis by blast
qed

theorem end_of_input_witness:
  "\<exists>s s' :: (unit, unit) simulator. \<exists>t out. batch_execute 3 release_1st demo_fpu empty_input empty_output 0 s = Some (Ok (), s')
     \<and> execute_interactive 4 release_1st demo_fpu empty_input empty_output demo_console 0 (session_new [] s) = Some (Ok (), t)
     \<and> ss_sim t = s'\<lparr>sim_stdout := out\<rparr>"
proof -
  obtain s :: "(unit, unit) simulator" where s: "demo_sim s" using sim_boot by blast
  obtain s' where run: "batch_execute 3 release_1st demo_fpu empty_input empty_output 0 s = Some (Ok (), s')"
    "single_cycle release_1st demo_fpu empty_input empty_output 0 2 default_option s = Some (Ok Exit, s')"
    by (rule demo_run [OF s])
  have con: "\<forall>w. debug_assertions release_1st \<and> terminal_columns demo_console = Some w \<longrightarrow> 20 \<le> w" by simp
  have fuel: "Suc (Suc 2) = 4" by simp
  obtain t where t: "execute_interactive 4 release_1st demo_fpu empty_input empty_output demo_console 0 (session_new [] s) = Some (Ok (), t)"
    "\<exists>out. ss_sim t = s'\<lparr>sim_stdout := out\<rparr>"
    using end_of_input [OF run(2) _ con] unfolding fuel by blast
  with run(1) show ?thesis by blast
qed

end
