(* ===== verification/Sld.thy ===== *)
theory Sld
  imports Loops Float_Text Ty Errors Io
begin

text \<open>
  \<^verbatim>\<open>core_sim/src/sld.rs\<close>: the scene description given to a ray tracer as input. The text is
  parsed into a sequence of typed words, which the input device then hands out one by one. The
  three parsers of the \<^verbatim>\<open>nom\<close> crate the code calls are the fields of a record; what the code
  relies on is \<open>nom_lawful\<close>. An \<^verbatim>\<open>i32\<close> is kept as its 32-bit word. The loops take fuel.
\<close>

section \<open>Parsers of the library\<close>

record 'e nom =
  multispace0 :: "string \<Rightarrow> ('e, string \<times> string) outcome"
  nom_i32 :: "string \<Rightarrow> ('e, string \<times> u32) outcome"
  recognize_float :: "string \<Rightarrow> ('e, string \<times> string) outcome"
  nom_show :: "'e \<Rightarrow> string"

text \<open>
  As documented: none of the three panics, each returns the rest of the input, white space may be
  empty but numbers are not, and what \<^verbatim>\<open>recognize_float\<close> recognizes is the text of a number.
\<close>

definition nom_lawful :: "'e nom \<Rightarrow> bool" where
  "nom_lawful n \<longleftrightarrow>
     (\<forall>s. \<not> is_panic (multispace0 n s) \<and> \<not> is_panic (nom_i32 n s) \<and> \<not> is_panic (recognize_float n s)
        \<and> (\<forall>r v. multispace0 n s = Ok (r, v) \<longrightarrow> length r \<le> length s)
        \<and> (\<forall>r v. nom_i32 n s = Ok (r, v) \<longrightarrow> length r < length s)
        \<and> (\<forall>r v. recognize_float n s = Ok (r, v) \<longrightarrow> length r < length s \<and> f32_from_str v \<noteq> None))"

section \<open>Data\<close>

record sld_info = num_objects :: usize

record sld_data_builder =
  sb_seq :: "typed_u32 list"
  sb_info :: "sld_info option"

record sld_data =
  sld_seq :: "typed_u32 list"
  sld_read_index :: usize
  sld_info_of :: sld_info

definition sld_builder_new :: sld_data_builder where
  "sld_builder_new = \<lparr>sb_seq = [], sb_info = None\<rparr>"

definition push_int :: "u32 \<Rightarrow> sld_data_builder \<Rightarrow> sld_data_builder" where
  "push_int v b = b\<lparr>sb_seq := sb_seq b @ [typed v I32]\<rparr>"

definition push_float :: "f32 \<Rightarrow> sld_data_builder \<Rightarrow> sld_data_builder" where
  "push_float v b = b\<lparr>sb_seq := sb_seq b @ [typed (to_bits v) F32]\<rparr>"

section \<open>Readers\<close>

definition read_int :: "'e nom \<Rightarrow> string \<Rightarrow> (sld_data_builder, 'e, string \<times> u32) action" where
  "read_int n input =
     act_bind (act_lift (multispace0 n input)) (\<lambda>(input, _).
     act_bind (act_lift (nom_i32 n input)) (\<lambda>(input, v).
     act_bind (act_modify (push_int v)) (\<lambda>_.
     act_ret (input, v))))"

definition read_float :: "'e nom \<Rightarrow> string \<Rightarrow> (sld_data_builder, 'e, string \<times> unit) action" where
  "read_float n input =
     act_bind (act_lift (multispace0 n input)) (\<lambda>(input, _).
     act_bind (act_lift (recognize_float n input)) (\<lambda>(input, v).
     act_bind (act_lift (case f32_from_str v of Some x \<Rightarrow> Ok x | None \<Rightarrow> Panic UnwrapFailed)) (\<lambda>x.
     act_bind (act_modify (push_float x)) (\<lambda>_.
     act_ret (input, ())))))"

definition read_vec3 :: "'e nom \<Rightarrow> string \<Rightarrow> (sld_data_builder, 'e, string \<times> unit) action" where
  "read_vec3 n input =
     act_bind (read_float n input) (\<lambda>(input, _).
     act_bind (read_float n input) (\<lambda>(input, _).
     read_float n input))"

definition read_sld_env :: "'e nom \<Rightarrow> string \<Rightarrow> (sld_data_builder, 'e, string \<times> unit) action" where
  "read_sld_env n input =
     act_bind (read_vec3 n input) (\<lambda>(input, _).
     act_bind (read_float n input) (\<lambda>(input, _).
     act_bind (read_float n input) (\<lambda>(input, _).
     act_bind (read_int n input) (\<lambda>(input, _).
     act_bind (read_float n input) (\<lambda>(input, _).
     act_bind (read_float n input) (\<lambda>(input, _).
     read_float n input))))))"

text \<open>The body of the loop of \<^verbatim>\<open>read_objects\<close> after the identifier of an object.\<close>

definition read_object :: "'e nom \<Rightarrow> string \<Rightarrow> (sld_data_builder, 'e, string) action" where
  "read_object n input =
     act_bind (read_int n input) (\<lambda>(input, _).
     act_bind (read_int n input) (\<lambda>(input, _).
     act_bind (read_int n input) (\<lambda>(input, is_rot).
     act_bind (read_vec3 n input) (\<lambda>(input, _).
     act_bind (read_vec3 n input) (\<lambda>(input, _).
     act_bind (read_float n input) (\<lambda>(input, _).
     act_bind (read_float n input) (\<lambda>(input, _).
     act_bind (read_float n input) (\<lambda>(input, _).
     act_bind (read_vec3 n input) (\<lambda>(input, _).
     if is_rot \<noteq> 0 then act_bind (read_vec3 n input) (\<lambda>(input, _). act_ret input)
     else act_ret input)))))))))"

fun read_objects :: "nat \<Rightarrow> 'e nom \<Rightarrow> string \<Rightarrow> usize \<Rightarrow> (sld_data_builder, 'e, string \<times> usize) looping" where
  "read_objects 0 n input index = (\<lambda>_. None)"
| "read_objects (Suc fuel) n input index =
     then_do (once (read_int n input)) (\<lambda>(input, id).
       if id = -1 then once (act_ret (input, index))
       else then_do (once (read_object n input)) (\<lambda>input. read_objects fuel n input (index + 1)))"

text \<open>The inner loop of \<^verbatim>\<open>read_and_net\<close>: numbers up to and including \<open>-1\<close>.\<close>

fun read_row :: "nat \<Rightarrow> 'e nom \<Rightarrow> string \<Rightarrow> (sld_data_builder, 'e, string) looping" where
  "read_row 0 n input = (\<lambda>_. None)"
| "read_row (Suc fuel) n input =
     then_do (once (read_int n input)) (\<lambda>(input, id).
       if id = -1 then once (act_ret input) else read_row fuel n input)"

fun read_and_net :: "nat \<Rightarrow> 'e nom \<Rightarrow> string \<Rightarrow> (sld_data_builder, 'e, string \<times> unit) looping" where
  "read_and_net 0 n input = (\<lambda>_. None)"
| "read_and_net (Suc fuel) n input =
     then_do (once (read_int n input)) (\<lambda>(input, id).
       if id = -1 then once (act_ret (input, ()))
       else then_do (read_row fuel n input) (\<lambda>input. read_and_net fuel n input))"

definition read_or_net :: "nat \<Rightarrow> 'e nom \<Rightarrow> string \<Rightarrow> (sld_data_builder, 'e, string \<times> unit) looping" where
  "read_or_net fuel n input = read_and_net fuel n input"

definition read_sld :: "nat \<Rightarrow> 'e nom \<Rightarrow> string \<Rightarrow> (sld_data_builder, 'e, string \<times> sld_info) looping" where
  "read_sld fuel n input =
     then_do (once (read_sld_env n input)) (\<lambda>(input, _).
     then_do (read_objects fuel n input 0) (\<lambda>(input, k).
     then_do (read_and_net fuel n input) (\<lambda>(input, _).
     then_do (read_or_net fuel n input) (\<lambda>(input, _).
     once (act_ret (input, \<lparr>num_objects = k\<rparr>))))))"

definition from_sld :: "nat \<Rightarrow> 'e nom \<Rightarrow> string \<Rightarrow> ('e, sld_data_builder) outcome option" where
  "from_sld fuel n input =
     (case read_sld fuel n input sld_builder_new of
        None \<Rightarrow> None
      | Some (Ok (_, info), s) \<Rightarrow> Some (Ok (s\<lparr>sb_info := Some info\<rparr>))
      | Some (Err e, s) \<Rightarrow> Some (Err e)
      | Some (Panic p, s) \<Rightarrow> Some (Panic p))"

definition sld_parse :: "nat \<Rightarrow> 'e nom \<Rightarrow> string \<Rightarrow> (anyhow_error, sld_data) outcome option" where
  "sld_parse fuel n sld_str =
     map_option (\<lambda>r.
       bind_out (map_err (\<lambda>e. Message (''failed to parse: '' @ nom_show n e)) r) (\<lambda>b.
       bind_out (case sb_info b of Some i \<Rightarrow> Ok i | None \<Rightarrow> Panic UnwrapFailed) (\<lambda>i.
       Ok \<lparr>sld_seq = sb_seq b, sld_read_index = 0, sld_info_of = i\<rparr>)))
     (from_sld fuel n sld_str)"

section \<open>The input device\<close>

definition sld_next :: "(sld_data, anyhow_error, typed_u32) action" where
  "sld_next =
     act_read (\<lambda>d. if sld_read_index d < length (sld_seq d) then Ok (sld_seq d ! sld_read_index d)
                   else Panic IndexOutOfBounds)"

definition sld_inw :: "(sld_data, anyhow_error, u32) action" where
  "sld_inw =
     act_bind sld_next (\<lambda>v.
     act_bind (act_gets sld_read_index) (\<lambda>i.
     case as_i32 v of
       None \<Rightarrow> act_err (TypedRead (ty_of v) I32 i)
     | Some x \<Rightarrow>
         act_bind (act_modify (\<lambda>d. d\<lparr>sld_read_index := sld_read_index d + 1\<rparr>)) (\<lambda>_.
         act_ret (word_of_int x))))"

definition sld_finw :: "(sld_data, anyhow_error, f32) action" where
  "sld_finw =
     act_bind sld_next (\<lambda>v.
     act_bind (act_gets sld_read_index) (\<lambda>i.
     case as_f32 v of
       None \<Rightarrow> act_err (TypedRead (ty_of v) F32 i)
     | Some x \<Rightarrow>
         act_bind (act_modify (\<lambda>d. d\<lparr>sld_read_index := sld_read_index d + 1\<rparr>)) (\<lambda>_.
         act_ret x)))"

definition sld_input :: "sld_data input_trait" where
  "sld_input = \<lparr>inw = sld_inw, finw = sld_finw\<rparr>"

section \<open>Termination\<close>

abbreviation shorter :: "string \<Rightarrow> string \<times> 'a \<Rightarrow> bool" where
  "shorter s \<equiv> \<lambda>(r, _). length r < length s"

lemma nom_delivers:
  assumes "nom_lawful n"
  shows "delivers (once (act_lift (multispace0 n s))) (\<lambda>(r, _). length r \<le> length s)"
    "delivers (once (act_lift (nom_i32 n s))) (shorter s)"
    "delivers (once (act_lift (recognize_float n s))) (\<lambda>(r, v). length r < length s \<and> f32_from_str v \<noteq> None)"
  using assms unfolding nom_lawful_def by (auto intro!: delivers_lift)

lemma read_number_consumes:
  assumes n: "nom_lawful n"
  shows "delivers (once (read_int n s)) (shorter s)" "delivers (once (read_float n s)) (shorter s)"
proof -
  show "delivers (once (read_int n s)) (shorter s)"
    unfolding read_int_def
    by (rule delivers_bind [OF nom_delivers(1) [OF n]], clarify, rule delivers_bind [OF nom_delivers(2) [OF n]])
      (auto intro!: delivers_bind delivers_modify delivers_ret)
  show "delivers (once (read_float n s)) (shorter s)"
    unfolding read_float_def
    by (rule delivers_bind [OF nom_delivers(1) [OF n]], clarify, rule delivers_bind [OF nom_delivers(3) [OF n]])
      (auto intro!: delivers_bind delivers_modify delivers_ret delivers_lift)
qed

lemma consumes_bind:
  assumes "delivers (once m) (shorter s)" "\<And>r v. delivers (once (f r v)) (shorter r)"
  shows "delivers (once (act_bind m (\<lambda>(r, v). f r v))) (shorter s)"
  by (rule delivers_bind [OF assms(1)]) (auto intro: delivers_weaken [OF assms(2)])

lemma group_consumes:
  assumes n: "nom_lawful n"
  shows "delivers (once (read_vec3 n s)) (shorter s)" "delivers (once (read_sld_env n s)) (shorter s)"
    "delivers (once (read_object n s)) (\<lambda>r. length r < length s)"
proof -
  note num = read_number_consumes [OF n]
  show v: "delivers (once (read_vec3 n s)) (shorter s)" for s
    unfolding read_vec3_def by (intro consumes_bind num)
  show "delivers (once (read_sld_env n s)) (shorter s)"
    unfolding read_sld_env_def by (intro consumes_bind num v)
  have last: "delivers (once (if rot \<noteq> 0 then act_bind (read_vec3 n r) (\<lambda>(r, _). act_ret r) else act_ret r))
      (\<lambda>r'. length r' \<le> length r)" for rot :: u32 and r
    by (auto intro!: delivers_bind [OF v] delivers_ret)
  have step: "delivers (once (act_bind m (\<lambda>(r, v). f r v))) (\<lambda>r'. length r' < length t)"
    if "delivers (once m) (shorter t)" "\<And>r v. delivers (once (f r v)) (\<lambda>r'. length r' \<le> length r)"
    for m :: "(sld_data_builder, 'a, string \<times> 'b) action" and f and t :: string
    by (rule delivers_bind [OF that(1)]) (auto intro: delivers_weaken [OF that(2)])
  have weak: "delivers m (\<lambda>r'. length r' < length t) \<Longrightarrow> delivers m (\<lambda>r'. length r' \<le> length t)"
    for m :: "(sld_data_builder, 'a, string) looping" and t :: string
    by (auto intro: delivers_weaken)
  show "delivers (once (read_object n s)) (\<lambda>r. length r < length s)"
    unfolding read_object_def by (rule last num v step weak)+
qed

lemma loops_deliver:
  assumes n: "nom_lawful n"
  shows "length s < fuel \<Longrightarrow> delivers (read_objects fuel n s k) (shorter s)"
    "length s < fuel \<Longrightarrow> delivers (read_row fuel n s) (\<lambda>r. length r < length s)"
    "length s < fuel \<Longrightarrow> delivers (read_and_net fuel n s) (shorter s)"
proof -
  show "length s < fuel \<Longrightarrow> delivers (read_objects fuel n s k) (shorter s)"
  proof (induction fuel arbitrary: s k)
    case (Suc fuel)
    show ?case
      unfolding read_objects.simps
    proof (rule delivers_then [OF read_number_consumes(1) [OF n]], clarify)
      fix r :: string and v :: u32
      assume r: "length r < length s"
      have "delivers (then_do (once (read_object n r)) (\<lambda>input. read_objects fuel n input (k + 1))) (shorter s)"
        by (rule delivers_then [OF group_consumes(3) [OF n]], rule delivers_weaken [OF Suc.IH]) (use r Suc.prems in auto)
      then show "delivers (if v = -1 then once (act_ret (r, k))
          else then_do (once (read_object n r)) (\<lambda>input. read_objects fuel n input (k + 1))) (shorter s)"
        using r by (auto intro: delivers_ret)
    qed
  qed simp
  show row: "length s < fuel \<Longrightarrow> delivers (read_row fuel n s) (\<lambda>r. length r < length s)" for s fuel
  proof (induction fuel arbitrary: s)
    case (Suc fuel)
    show ?case
      unfolding read_row.simps
    proof (rule delivers_then [OF read_number_consumes(1) [OF n]], clarify)
      fix r :: string and v :: u32
      assume r: "length r < length s"
      have "delivers (read_row fuel n r) (\<lambda>r. length r < length s)"
        by (rule delivers_weaken [OF Suc.IH]) (use r Suc.prems in auto)
      then show "delivers (if v = -1 then once (act_ret r) else read_row fuel n r) (\<lambda>r. length r < length s)"
        using r by (auto intro: delivers_ret)
    qed
  qed simp
  show "length s < fuel \<Longrightarrow> delivers (read_and_net fuel n s) (shorter s)"
  proof (induction fuel arbitrary: s)
    case (Suc fuel)
    show ?case
      unfolding read_and_net.simps
    proof (rule delivers_then [OF read_number_consumes(1) [OF n]], clarify)
      fix r :: string and v :: u32
      assume r: "length r < length s"
      have "delivers (then_do (read_row fuel n r) (\<lambda>input. read_and_net fuel n input)) (shorter s)"
        by (rule delivers_then [OF row], use r Suc.prems in simp, rule delivers_weaken [OF Suc.IH])
          (use r Suc.prems in auto)
      then show "delivers (if v = -1 then once (act_ret (r, ()))
          else then_do (read_row fuel n r) (\<lambda>input. read_and_net fuel n input)) (shorter s)"
        using r by (auto intro: delivers_ret)
    qed
  qed simp
qed

lemma read_sld_delivers:
  assumes n: "nom_lawful n" and fuel: "length s < fuel"
  shows "delivers (read_sld fuel n s) (\<lambda>_. True)"
proof -
  have chain: "delivers (then_do m (\<lambda>(r, v). f r v)) (\<lambda>_. True)"
    if "delivers m (shorter t)" "length t \<le> length s"
      "\<And>r v. length r \<le> length s \<Longrightarrow> delivers (f r v) (\<lambda>_. True)"
    for m :: "(sld_data_builder, 'a, string \<times> 'b) looping" and t
      and f :: "string \<Rightarrow> 'b \<Rightarrow> (sld_data_builder, 'a, string \<times> sld_info) looping"
    by (rule delivers_then [OF that(1)]) (use that(2,3) in auto)
  show ?thesis
    unfolding read_sld_def read_or_net_def
    by (intro chain [OF group_consumes(2) [OF n]] chain [OF loops_deliver(1) [OF n]] chain [OF loops_deliver(3) [OF n]]
        delivers_ret) (use fuel in auto)
qed

section \<open>Layout\<close>

text \<open>What a reader appends to the sequence when it succeeds.\<close>

definition appends :: "(sld_data_builder, 'e, 'a) looping \<Rightarrow> ('a \<Rightarrow> typed_u32 list \<Rightarrow> bool) \<Rightarrow> bool" where
  "appends m P \<longleftrightarrow>
     (\<forall>s a s'. m s = Some (Ok a, s') \<longrightarrow> (\<exists>xs. sb_seq s' = sb_seq s @ xs \<and> P a xs))"

lemma appends_then:
  assumes "appends m P" "\<And>a xs. P a xs \<Longrightarrow> appends (f a) (\<lambda>b ys. Q b (xs @ ys))"
  shows "appends (then_do m f) Q"
  using assms unfolding appends_def then_do_Ok by (metis append.assoc)

lemma appends_bind:
  assumes "appends (once m) P" "\<And>a xs. P a xs \<Longrightarrow> appends (once (f a)) (\<lambda>b ys. Q b (xs @ ys))"
  shows "appends (once (act_bind m f)) Q"
  unfolding once_bind using assms by (rule appends_then)

lemma appends_weaken: "appends m P \<Longrightarrow> (\<And>a xs. P a xs \<Longrightarrow> Q a xs) \<Longrightarrow> appends m Q"
  unfolding appends_def by blast

lemma typed_eq [simp]: "typed v t = typed w u \<longleftrightarrow> v = w \<and> t = u"
  by (auto simp: typed_def)

lemma ty_of_typed [simp]: "ty_of (typed v t) = t"
  by (simp add: typed_def)

lemma appends_basic:
  "Q a [] \<Longrightarrow> appends (once (act_ret a)) Q"
  "Q a [typed v I32] \<Longrightarrow> appends (once (act_bind (act_modify (push_int v)) (\<lambda>_. act_ret a))) Q"
  "Q a [typed (to_bits x) F32] \<Longrightarrow> appends (once (act_bind (act_modify (push_float x)) (\<lambda>_. act_ret a))) Q"
  by (auto simp: appends_def once_def act_simps push_int_def push_float_def)

lemma appends_lift: "(\<And>a. appends (once (f a)) Q) \<Longrightarrow> appends (once (act_bind (act_lift r) f)) Q"
  by (rule appends_bind [where P = "\<lambda>_ xs. xs = []"]) (auto simp: appends_def once_def act_lift_def)

lemma number_appends:
  "appends (once (read_int n s)) (\<lambda>a xs. xs = [typed (snd a) I32])"
  "appends (once (read_float n s)) (\<lambda>_ xs. map ty_of xs = [F32])"
  unfolding read_int_def read_float_def
  by (auto intro!: appends_lift appends_basic)

lemma vec3_appends: "appends (once (read_vec3 n s)) (\<lambda>_ xs. map ty_of xs = [F32, F32, F32])"
  unfolding read_vec3_def
  by (auto intro!: appends_bind [OF number_appends(2)] appends_weaken [OF number_appends(2)])

text \<open>The shape of a scene: the environment, the objects, and two nets of rows.\<close>

definition env_seq :: "typed_u32 list \<Rightarrow> bool" where
  "env_seq xs \<longleftrightarrow> map ty_of xs = [F32, F32, F32, F32, F32, I32, F32, F32, F32]"

definition object_seq :: "typed_u32 list \<Rightarrow> bool" where
  "object_seq xs \<longleftrightarrow>
     (\<exists>id a b rot fs. xs = typed id I32 # typed a I32 # typed b I32 # typed rot I32 # fs \<and> id \<noteq> -1
        \<and> map ty_of fs = replicate (if rot = 0 then 12 else 15) F32)"

inductive objects_seq :: "typed_u32 list \<Rightarrow> nat \<Rightarrow> bool" where
  no_object: "objects_seq [typed (-1) I32] 0"
| an_object: "object_seq xs \<Longrightarrow> objects_seq ys k \<Longrightarrow> objects_seq (xs @ ys) (Suc k)"

inductive row_seq :: "typed_u32 list \<Rightarrow> bool" where
  row_end: "row_seq [typed (-1) I32]"
| row_entry: "v \<noteq> -1 \<Longrightarrow> row_seq xs \<Longrightarrow> row_seq (typed v I32 # xs)"

inductive net_seq :: "typed_u32 list \<Rightarrow> bool" where
  net_end: "net_seq [typed (-1) I32]"
| net_row: "v \<noteq> -1 \<Longrightarrow> row_seq xs \<Longrightarrow> net_seq ys \<Longrightarrow> net_seq (typed v I32 # xs @ ys)"

lemma env_appends: "appends (once (read_sld_env n s)) (\<lambda>_. env_seq)"
  unfolding read_sld_env_def env_seq_def
  by (auto intro!: appends_bind [OF number_appends(1)] appends_bind [OF number_appends(2)] appends_bind [OF vec3_appends]
      appends_weaken [OF number_appends(2)])

lemma object_appends:
  assumes "w \<noteq> -1"
  shows "appends (once (read_object n s)) (\<lambda>_ xs. object_seq (typed w I32 # xs))"
proof -
  have last: "appends (once (if rot \<noteq> 0 then act_bind (read_vec3 n r) (\<lambda>(r, _). act_ret r) else act_ret r))
      (\<lambda>_ xs. map ty_of xs = replicate (if rot = 0 then 0 else 3) F32)" for rot :: u32 and r
    by (auto intro!: appends_bind [OF vec3_appends] appends_basic simp: numeral_3_eq_3)
  show ?thesis
    unfolding read_object_def object_seq_def
    by (auto intro!: appends_bind [OF number_appends(1)] appends_bind [OF number_appends(2)] appends_bind [OF vec3_appends]
        appends_weaken [OF last] simp: eval_nat_numeral) (use assms in blast)+
qed

lemma objects_append: "appends (read_objects fuel n s k) (\<lambda>a xs. k \<le> snd a \<and> objects_seq xs (snd a - k))"
proof (induction fuel arbitrary: s k)
  case (Suc fuel)
  have rest: "appends (then_do (once (read_object n r)) (\<lambda>input. read_objects fuel n input (k + 1)))
      (\<lambda>a xs. k \<le> snd a \<and> objects_seq (typed w I32 # xs) (snd a - k))" if "w \<noteq> -1" for r w
  proof (rule appends_then [OF object_appends [OF that]])
    fix input xs
    assume "object_seq (typed w I32 # xs)"
    then show "appends (read_objects fuel n input (k + 1))
        (\<lambda>b ys. k \<le> snd b \<and> objects_seq (typed w I32 # xs @ ys) (snd b - k))"
      using an_object [of "typed w I32 # xs"]
      by (auto intro!: appends_weaken [OF Suc.IH]) (metis Suc_diff_Suc Suc_le_eq)
  qed
  show ?case
    unfolding read_objects.simps
    by (rule appends_then [OF number_appends(1)])
      (use rest in \<open>auto intro!: appends_basic objects_seq.intros\<close>)
qed (simp add: appends_def)

lemma row_appends: "appends (read_row fuel n s) (\<lambda>_. row_seq)"
proof (induction fuel arbitrary: s)
  case (Suc fuel)
  show ?case
    unfolding read_row.simps
    by (rule appends_then [OF number_appends(1)])
      (auto intro!: appends_basic row_seq.intros appends_weaken [OF Suc.IH])
qed (simp add: appends_def)

lemma net_appends: "appends (read_and_net fuel n s) (\<lambda>_. net_seq)"
proof (induction fuel arbitrary: s)
  case (Suc fuel)
  show ?case
    unfolding read_and_net.simps
    by (rule appends_then [OF number_appends(1)])
      (auto intro!: appends_basic net_seq.intros appends_then [OF row_appends] appends_weaken [OF Suc.IH])
qed (simp add: appends_def)

definition scene_seq :: "typed_u32 list \<Rightarrow> nat \<Rightarrow> bool" where
  "scene_seq xs k \<longleftrightarrow>
     (\<exists>env objs ands ors. xs = env @ objs @ ands @ ors \<and> env_seq env \<and> objects_seq objs k \<and> net_seq ands \<and> net_seq ors)"

lemma read_sld_appends: "appends (read_sld fuel n s) (\<lambda>a xs. scene_seq xs (num_objects (snd a)))"
proof -
  have fin: "appends (once (act_ret (r, \<lparr>num_objects = k\<rparr>)))
      (\<lambda>b ys. scene_seq (env @ objs @ ands @ ors @ ys) (num_objects (snd b)))"
    if "env_seq env" "objects_seq objs k" "net_seq ands" "net_seq ors" for r k env objs ands ors
    using that by (auto intro!: appends_basic simp: scene_seq_def) blast
  show ?thesis
    unfolding read_sld_def read_or_net_def
    by (auto intro!: appends_then [OF env_appends] appends_then [OF objects_append] appends_then [OF net_appends] fin)
qed

lemma sld_parse_Ok:
  assumes "sld_parse fuel n s = Some (Ok d)"
  shows "scene_seq (sld_seq d) (num_objects (sld_info_of d)) \<and> sld_read_index d = 0"
proof -
  obtain r info b where r: "read_sld fuel n s sld_builder_new = Some (Ok (r, info), b)"
    "sld_seq d = sb_seq b" "sld_info_of d = info" "sld_read_index d = 0"
    using assms by (auto simp: sld_parse_def from_sld_def split: option.splits prod.splits outcome.splits)
  then show ?thesis
    using read_sld_appends [of fuel n s] by (fastforce simp: appends_def sld_builder_new_def)
qed

text \<open>
  C26. Every scene the parser accepts has the layout a ray tracer reads: nine words of
  environment with the types given, then the objects, as many as \<^verbatim>\<open>num_objects\<close> says, each
  with four integers and 12 floats or 15 when it is rotated, closed by \<open>-1\<close>, and the two nets of
  rows closed by \<open>-1\<close>; the device starts at the first word.
\<close>
theorem sld_layout:
  assumes "sld_parse fuel n s = Some (Ok d)"
  shows "scene_seq (sld_seq d) (num_objects (sld_info_of d)) \<and> sld_read_index d = 0"
  by (rule sld_parse_Ok [OF assms])

text \<open>
  C27. Parsing a scene ends: with parsers of numbers that consume what they accept, fuel above the
  length of the text always suffices, and parsing never panics: it returns a scene or the message
  of the parser.
\<close>
theorem sld_parse_terminates:
  assumes "nom_lawful n" "length s < fuel"
  shows "(\<exists>d. sld_parse fuel n s = Some (Ok d)) \<or> (\<exists>e. sld_parse fuel n s = Some (Err (Message (''failed to parse: '' @ nom_show n e))))"
proof -
  have "case read_sld fuel n s sld_builder_new of None \<Rightarrow> False | Some (Ok _, _) \<Rightarrow> True | Some (Err _, _) \<Rightarrow> True
    | Some (Panic _, _) \<Rightarrow> False"
    using read_sld_delivers [OF assms] unfolding delivers_def by blast
  then show ?thesis
    by (auto simp: sld_parse_def from_sld_def split: option.splits prod.splits outcome.splits)
qed

section \<open>Reading the device\<close>

datatype sld_read = ReadI u32 | ReadF f32

definition read_of :: "typed_u32 \<Rightarrow> sld_read" where
  "read_of v = (if ty_of v = F32 then ReadF (Bits (raw_value v)) else ReadI (raw_value v))"

text \<open>One read of either kind, and a program of reads.\<close>

fun sld_read_one :: "ty \<Rightarrow> (sld_data, anyhow_error, sld_read) action" where
  "sld_read_one F32 = act_bind (finw sld_input) (\<lambda>x. act_ret (ReadF x))"
| "sld_read_one _ = act_bind (inw sld_input) (\<lambda>v. act_ret (ReadI v))"

fun sld_reads :: "ty list \<Rightarrow> (sld_data, anyhow_error, sld_read list) action" where
  "sld_reads [] = act_ret []"
| "sld_reads (t # ts) = act_bind (sld_read_one t) (\<lambda>v. act_bind (sld_reads ts) (\<lambda>vs. act_ret (v # vs)))"

lemma sld_inw_cases:
  "sld_inw d =
     (if sld_read_index d < length (sld_seq d) then
        let v = sld_seq d ! sld_read_index d in
        if ty_of v = I32 then (Ok (raw_value v), d\<lparr>sld_read_index := sld_read_index d + 1\<rparr>)
        else (Err (TypedRead (ty_of v) I32 (sld_read_index d)), d)
      else (Panic IndexOutOfBounds, d))"
  by (simp add: sld_inw_def sld_next_def act_simps as_i32_def Let_def)

lemma sld_finw_cases:
  "sld_finw d =
     (if sld_read_index d < length (sld_seq d) then
        let v = sld_seq d ! sld_read_index d in
        if ty_of v = F32 then (Ok (Bits (raw_value v)), d\<lparr>sld_read_index := sld_read_index d + 1\<rparr>)
        else (Err (TypedRead (ty_of v) F32 (sld_read_index d)), d)
      else (Panic IndexOutOfBounds, d))"
  by (simp add: sld_finw_def sld_next_def act_simps as_f32_def Let_def)

lemma sld_read_one_ok:
  assumes "sld_read_index d < length (sld_seq d)" "ty_of (sld_seq d ! sld_read_index d) = t" "t = I32 \<or> t = F32"
  shows "sld_read_one t d = (Ok (read_of (sld_seq d ! sld_read_index d)), d\<lparr>sld_read_index := sld_read_index d + 1\<rparr>)"
  using assms by (auto simp: sld_input_def act_bind_def act_ret_def sld_inw_cases sld_finw_cases read_of_def Let_def)

lemma sld_reads_ok:
  assumes "drop (sld_read_index d) (sld_seq d) = xs @ ys" "list_all (\<lambda>v. ty_of v = I32 \<or> ty_of v = F32) xs"
  shows "sld_reads (map ty_of xs) d = (Ok (map read_of xs), d\<lparr>sld_read_index := sld_read_index d + length xs\<rparr>)"
  using assms
proof (induction xs arbitrary: d)
  case (Cons x xs)
  have at: "sld_read_index d < length (sld_seq d)" "sld_seq d ! sld_read_index d = x"
    "drop (Suc (sld_read_index d)) (sld_seq d) = xs @ ys"
    using drop_eq_Nil [of "sld_read_index d" "sld_seq d"] nth_via_drop [of "sld_read_index d" "sld_seq d" x "xs @ ys"] Cons.prems(1)
    by (simp_all add: not_le) (metis drop_Suc list.sel(3) tl_drop)
  then show ?case
    using Cons.prems(2) Cons.IH [of "d\<lparr>sld_read_index := sld_read_index d + 1\<rparr>"]
    by (simp add: act_bind_def act_ret_def sld_read_one_ok)
qed (simp add: act_ret_def)

lemma scene_types:
  assumes "scene_seq xs k"
  shows "list_all (\<lambda>v. ty_of v = I32 \<or> ty_of v = F32) xs"
proof -
  let ?P = "list_all (\<lambda>v. ty_of v = I32 \<or> ty_of v = F32)"
  have types: "?P xs" if "set (map ty_of xs) \<subseteq> {I32, F32}" for xs
    using that by (auto simp: list_all_iff)
  have "env_seq xs \<Longrightarrow> ?P xs" for xs
    by (rule types) (simp add: env_seq_def)
  moreover have obj: "object_seq xs \<Longrightarrow> ?P xs" for xs
    by (rule types) (auto simp: object_seq_def simp del: set_map)
  have "objects_seq xs k \<Longrightarrow> ?P xs" for xs k
    by (induction rule: objects_seq.induct) (auto dest: obj)
  moreover have row: "row_seq xs \<Longrightarrow> ?P xs" for xs
    by (induction rule: row_seq.induct) auto
  have "net_seq xs \<Longrightarrow> ?P xs" for xs
    by (induction rule: net_seq.induct) (auto dest: row)
  ultimately show ?thesis using assms by (auto simp: scene_seq_def)
qed

text \<open>
  C25. The input device replays the scene: a program that reads integers and floats in the order
  of the parsed scene gets every word, in order, and ends exactly at the end; and at any point a
  read of the other kind is refused with both types and the index, and does not advance.
\<close>
theorem sld_replay:
  assumes "sld_parse fuel n s = Some (Ok d)"
  shows "sld_reads (map ty_of (sld_seq d)) d = (Ok (map read_of (sld_seq d)), d\<lparr>sld_read_index := length (sld_seq d)\<rparr>)
    \<and> (\<forall>i < length (sld_seq d). let d' = d\<lparr>sld_read_index := i\<rparr>; t = ty_of (sld_seq d ! i) in
         (t \<noteq> I32 \<longrightarrow> inw sld_input d' = (Err (TypedRead t I32 i), d'))
       \<and> (t \<noteq> F32 \<longrightarrow> finw sld_input d' = (Err (TypedRead t F32 i), d')))"
proof -
  have ok: "scene_seq (sld_seq d) (num_objects (sld_info_of d))" "sld_read_index d = 0" using sld_parse_Ok [OF assms] by auto
  show ?thesis
    using sld_reads_ok [of d "sld_seq d" "[]"] scene_types [OF ok(1)] ok(2)
    by (simp add: sld_input_def sld_inw_cases sld_finw_cases Let_def)
qed

section \<open>An implementation of the parsers\<close>

definition is_space :: "char \<Rightarrow> bool" where
  "is_space c \<longleftrightarrow> c \<in> {CHR '' '', CHR 0x09, CHR 0x0D, CHR 0x0A}"

definition simple_i32 :: "string \<Rightarrow> (string, string \<times> u32) outcome" where
  "simple_i32 s =
     (let (neg, t) = split_sign s; ds = takeWhile is_digit t; v = digits_value ds
      in if ds = [] \<or> (if neg then v > 2 ^ 31 else v \<ge> 2 ^ 31) then Err s
         else Ok (dropWhile is_digit t, word_of_int (if neg then - int v else int v)))"

definition is_float_char :: "char \<Rightarrow> bool" where
  "is_float_char c \<longleftrightarrow> is_digit c \<or> c \<in> set ''+-.eE''"

definition simple_float :: "string \<Rightarrow> (string, string \<times> string) outcome" where
  "simple_float s =
     (if f32_from_str (takeWhile is_float_char s) = None then Err s
      else Ok (dropWhile is_float_char s, takeWhile is_float_char s))"

definition simple_nom :: "string nom" where
  "simple_nom = \<lparr>multispace0 = (\<lambda>s. Ok (dropWhile is_space s, takeWhile is_space s)),
     nom_i32 = simple_i32, recognize_float = simple_float, nom_show = id\<rparr>"

lemma dropWhile_shorter: "takeWhile P s \<noteq> [] \<Longrightarrow> length (dropWhile P s) < length s"
  by (cases s) (auto split: if_splits intro: le_imp_less_Suc length_dropWhile_le)

lemma f32_from_str_Nil: "f32_from_str [] = None"
  by (simp add: f32_from_str_def split_sign_def parse_number_def)

lemma simple_nom_lawful: "nom_lawful simple_nom"
proof -
  have sign: "length (snd (split_sign s)) \<le> length s" for s
    by (auto simp: split_sign_def split: list.splits)
  have "simple_i32 s = Ok (r, v) \<Longrightarrow> length r < length s" for s r v
    using sign [of s] dropWhile_shorter [of is_digit "snd (split_sign s)"]
    by (auto simp: simple_i32_def Let_def split: prod.splits if_splits)
  moreover have "simple_float s = Ok (r, v) \<Longrightarrow> length r < length s \<and> f32_from_str v \<noteq> None" for s r v
  proof -
    assume ok: "simple_float s = Ok (r, v)"
    then have v: "f32_from_str v \<noteq> None" "v = takeWhile is_float_char s" "r = dropWhile is_float_char s"
      unfolding simple_float_def by (simp_all split: if_splits)
    then have "takeWhile is_float_char s \<noteq> []" using f32_from_str_Nil by metis
    then show "length r < length s \<and> f32_from_str v \<noteq> None"
      using v dropWhile_shorter by blast
  qed
  moreover have "\<not> is_panic (simple_i32 s)" "\<not> is_panic (simple_float s)" for s
    unfolding simple_i32_def simple_float_def Let_def by (simp_all split: prod.split)
  ultimately show ?thesis
    unfolding nom_lawful_def simple_nom_def nom.select_convs
    by (metis is_panic.simps(2) length_dropWhile_le outcome.inject(1) prod.inject)
qed

theorem sld_parse_terminates_witness:
  "nom_lawful simple_nom \<and> length ''-1'' < 3
   \<and> ((\<exists>d. sld_parse 3 simple_nom ''-1'' = Some (Ok d))
     \<or> (\<exists>e. sld_parse 3 simple_nom ''-1'' = Some (Err (Message (''failed to parse: '' @ nom_show simple_nom e)))))"
  using sld_parse_terminates [OF simple_nom_lawful, of "''-1''" 3] simple_nom_lawful by simp

text \<open>A scene without objects.\<close>

definition empty_scene :: string where
  "empty_scene = ''1 1 1 1 1 1 1 1 1 -1 -1 -1''"

lemma one_text: "\<exists>x. f32_from_str ''1'' = Some x"
  by (simp add: f32_from_str_def split_sign_def parse_number_def parse_exponent_def is_digit_def ascii_lower_def Let_def)

lemma empty_scene_parses: "\<exists>d. sld_parse 1 simple_nom empty_scene = Some (Ok d) \<and> num_objects (sld_info_of d) = 0"
proof -
  obtain x where x: "f32_from_str ''1'' = Some x" using one_text by blast
  show ?thesis
    by (simp add: sld_parse_def from_sld_def read_sld_def read_sld_env_def read_vec3_def read_float_def read_int_def
        simple_nom_def simple_i32_def simple_float_def is_space_def is_digit_def is_float_char_def empty_scene_def
        then_do_def once_def act_simps x Let_def split_sign_def digits_value_def push_int_def push_float_def
        sld_builder_new_def read_or_net_def)
qed

theorem sld_layout_witness:
  "\<exists>d. sld_parse 1 simple_nom empty_scene = Some (Ok d) \<and> scene_seq (sld_seq d) 0"
  using empty_scene_parses sld_layout by metis

theorem sld_replay_witness:
  "\<exists>d. sld_parse 1 simple_nom empty_scene = Some (Ok d)
     \<and> fst (sld_reads (map ty_of (sld_seq d)) d) = Ok (map read_of (sld_seq d))"
  using empty_scene_parses sld_replay by (metis fst_conv)

end
