(* ===== verification/Ppm.thy ===== *)
theory Ppm
  imports Io
begin

text \<open>
  \<^verbatim>\<open>core_sim/src/ppm.rs\<close>: checking the header of the picture a ray tracer has written. The
  parsers of the \<^verbatim>\<open>nom\<close> crate are the fields of a record, with their documented behaviour
  as \<open>nom_bytes_lawful\<close>.
\<close>

section \<open>Parsers of the library\<close>

record 'e nom_bytes =
  tag :: "u8 list \<Rightarrow> u8 list \<Rightarrow> ('e, u8 list \<times> u8 list) outcome"
  multispace1 :: "u8 list \<Rightarrow> ('e, u8 list \<times> u8 list) outcome"
  nom_u32 :: "u8 list \<Rightarrow> ('e, u8 list \<times> u32) outcome"
  nom_bytes_show :: "'e \<Rightarrow> string"

definition is_space_byte :: "u8 \<Rightarrow> bool" where
  "is_space_byte c \<longleftrightarrow> c \<in> {32, 9, 13, 10}"

definition is_digit_byte :: "u8 \<Rightarrow> bool" where
  "is_digit_byte c \<longleftrightarrow> is_digit (char_of (unat c))"

definition bytes_value :: "u8 list \<Rightarrow> nat" where
  "bytes_value bs = digits_value (map (\<lambda>c. char_of (unat c)) bs)"

definition nom_bytes_lawful :: "'e nom_bytes \<Rightarrow> bool" where
  "nom_bytes_lawful n \<longleftrightarrow>
     (\<forall>t s. tag n t (t @ s) = Ok (s, t))
     \<and> (\<forall>t s. take (length t) s \<noteq> t \<longrightarrow> (\<exists>e. tag n t s = Err e))
     \<and> (\<forall>s. takeWhile is_space_byte s \<noteq> [] \<longrightarrow>
          multispace1 n s = Ok (dropWhile is_space_byte s, takeWhile is_space_byte s))
     \<and> (\<forall>s. let ds = takeWhile is_digit_byte s in ds \<noteq> [] \<and> bytes_value ds < 2 ^ 32 \<longrightarrow>
          nom_u32 n s = Ok (dropWhile is_digit_byte s, word_of_nat (bytes_value ds)))"

section \<open>The header\<close>

record ppm_header_info =
  ppm_width :: u32
  ppm_height :: u32
  ppm_color :: u32

text \<open>The tuple of parsers runs from left to right and stops at the first error.\<close>

definition parse_ppmv6_header :: "'e nom_bytes \<Rightarrow> u8 list \<Rightarrow> ('e, u8 list \<times> ppm_header_info) outcome" where
  "parse_ppmv6_header n input =
     bind_out (tag n [80, 54] input) (\<lambda>(input, _).
     bind_out (multispace1 n input) (\<lambda>(input, _).
     bind_out (nom_u32 n input) (\<lambda>(input, width).
     bind_out (multispace1 n input) (\<lambda>(input, _).
     bind_out (nom_u32 n input) (\<lambda>(input, height).
     bind_out (multispace1 n input) (\<lambda>(input, _).
     bind_out (nom_u32 n input) (\<lambda>(input, color).
     bind_out (multispace1 n input) (\<lambda>(input, _).
     Ok (input, \<lparr>ppm_width = width, ppm_height = height, ppm_color = color\<rparr>)))))))))"

definition verify_header :: "'e nom_bytes \<Rightarrow> ppm_data \<Rightarrow> (anyhow_error, ppm_header_info) outcome" where
  "verify_header n d =
     bind_out (map_err (\<lambda>e. Message (''invalid header had been generated. failed to parse header: '' @ nom_bytes_show n e))
        (parse_ppmv6_header n (ppm_inner d))) (\<lambda>(_, h). Ok h)"

definition ppm_into_inner :: "ppm_data \<Rightarrow> u8 list" where
  "ppm_into_inner d = ppm_inner d"

section \<open>Reading back a written header\<close>

definition decimal_bytes :: "u32 \<Rightarrow> u8 list" where
  "decimal_bytes w = map (\<lambda>c. word_of_nat (of_char c)) (show_u32 w)"

definition ppm_header_bytes :: "u8 \<Rightarrow> ppm_header_info \<Rightarrow> u8 list" where
  "ppm_header_bytes sp h =
     [80, 54] @ [sp] @ decimal_bytes (ppm_width h) @ [sp] @ decimal_bytes (ppm_height h) @ [sp]
       @ decimal_bytes (ppm_color h) @ [sp]"

lemma char_of_byte [simp]: "char_of (unat (word_of_nat (of_char c) :: u8)) = c"
proof -
  have "(of_char c :: nat) < 256" by (rule nat_of_char_less_256)
  then show ?thesis by (simp add: unsigned_of_nat take_bit_nat_eq_self)
qed

lemma decimal_digits: "list_all is_digit_byte (decimal_bytes w)" "decimal_bytes w \<noteq> []"
  "bytes_value (decimal_bytes w) = unat w"
  by (auto simp: decimal_bytes_def list_all_iff is_digit_byte_def bytes_value_def comp_def show_u32_def is_digit_show_nat)

lemma digit_not_space: "is_digit_byte c \<Longrightarrow> \<not> is_space_byte c"
  by (auto simp: is_digit_byte_def is_space_byte_def is_digit_def)

lemma takeWhile_prefix:
  assumes "list_all P xs" "ys = [] \<or> \<not> P (hd ys)"
  shows "takeWhile P (xs @ ys) = xs" "dropWhile P (xs @ ys) = ys"
  using assms by (induction xs) (cases ys; simp)+

lemma nom_number:
  assumes "nom_bytes_lawful n" "is_space_byte sp"
  shows "nom_u32 n (decimal_bytes w @ sp # rest) = Ok (sp # rest, w)"
proof -
  have "\<not> is_digit_byte sp" using assms(2) digit_not_space by blast
  then have split: "takeWhile is_digit_byte (decimal_bytes w @ sp # rest) = decimal_bytes w"
    "dropWhile is_digit_byte (decimal_bytes w @ sp # rest) = sp # rest"
    using takeWhile_prefix [OF decimal_digits(1), of "sp # rest"] by simp_all
  have "bytes_value (decimal_bytes w) < 2 ^ 32" using decimal_digits(3) [of w] unsigned_less [of w] by simp
  then show ?thesis
    using assms(1) split decimal_digits(2,3) unfolding nom_bytes_lawful_def Let_def by simp
qed

lemma nom_space:
  assumes "nom_bytes_lawful n" "is_space_byte sp" "rest = [] \<or> \<not> is_space_byte (hd rest)"
  shows "multispace1 n (sp # rest) = Ok (rest, [sp])"
  using assms takeWhile_prefix [of is_space_byte "[sp]" rest] unfolding nom_bytes_lawful_def by simp

lemma nom_space_number:
  assumes "nom_bytes_lawful n" "is_space_byte sp"
  shows "multispace1 n (sp # decimal_bytes w @ rest) = Ok (decimal_bytes w @ rest, [sp])"
proof (rule nom_space [OF assms])
  show "decimal_bytes w @ rest = [] \<or> \<not> is_space_byte (hd (decimal_bytes w @ rest))"
    using decimal_digits(1,2) [of w] digit_not_space by (cases "decimal_bytes w") auto
qed

lemma header_parsed:
  assumes "nom_bytes_lawful n" "is_space_byte sp"
  shows "\<exists>rest. parse_ppmv6_header n (ppm_header_bytes sp h @ pixels) = Ok (rest, h)"
proof -
  have tag: "tag n [80, 54] (80 # 54 # s) = Ok (s, [80, 54])" for s
    using assms(1) unfolding nom_bytes_lawful_def by (metis append_Cons append_Nil)
  have last: "\<exists>r v. multispace1 n (sp # pixels) = Ok (r, v)"
    using assms unfolding nom_bytes_lawful_def by simp
  then show ?thesis
    by (auto simp: parse_ppmv6_header_def ppm_header_bytes_def tag nom_space_number [OF assms] nom_number [OF assms])
qed

text \<open>
  C28. A header read back: whatever picture follows, a header of width, height and colour depth
  written in decimal between single white space characters is accepted with exactly these numbers;
  a picture that does not start with \<^verbatim>\<open>P6\<close> is refused.
\<close>
theorem ppm_header_roundtrip:
  assumes "nom_bytes_lawful n" "is_space_byte sp"
  shows "verify_header n \<lparr>ppm_inner = ppm_header_bytes sp h @ pixels\<rparr> = Ok h
    \<and> (take 2 bytes \<noteq> [80, 54] \<longrightarrow> (\<exists>m. verify_header n \<lparr>ppm_inner = bytes\<rparr> = Err (Message m)))"
proof -
  have "take 2 bytes \<noteq> [80, 54] \<Longrightarrow> \<exists>e. tag n [80, 54] bytes = Err e"
    using assms(1) unfolding nom_bytes_lawful_def by (metis length_Cons list.size(3) numeral_2_eq_2)
  then show ?thesis
    using header_parsed [OF assms, of h pixels] by (auto simp: verify_header_def parse_ppmv6_header_def)
qed

section \<open>An implementation of the parsers\<close>

definition simple_nom_bytes :: "unit nom_bytes" where
  "simple_nom_bytes =
     \<lparr>tag = (\<lambda>t s. if take (length t) s = t then Ok (drop (length t) s, t) else Err ()),
      multispace1 = (\<lambda>s. if takeWhile is_space_byte s = [] then Err ()
        else Ok (dropWhile is_space_byte s, takeWhile is_space_byte s)),
      nom_u32 = (\<lambda>s. let ds = takeWhile is_digit_byte s in
        if ds = [] \<or> bytes_value ds \<ge> 2 ^ 32 then Err () else Ok (dropWhile is_digit_byte s, word_of_nat (bytes_value ds))),
      nom_bytes_show = (\<lambda>_. ''parse error'')\<rparr>"

lemma simple_nom_bytes_lawful: "nom_bytes_lawful simple_nom_bytes"
  by (auto simp: nom_bytes_lawful_def simple_nom_bytes_def Let_def)

theorem ppm_header_roundtrip_witness:
  "nom_bytes_lawful simple_nom_bytes \<and> is_space_byte 10
   \<and> verify_header simple_nom_bytes
       \<lparr>ppm_inner = ppm_header_bytes 10 \<lparr>ppm_width = 128, ppm_height = 128, ppm_color = 255\<rparr> @ [7]\<rparr>
     = Ok \<lparr>ppm_width = 128, ppm_height = 128, ppm_color = 255\<rparr>"
proof -
  have sp: "is_space_byte 10" by (simp add: is_space_byte_def)
  show ?thesis using ppm_header_roundtrip [OF simple_nom_bytes_lawful sp] simple_nom_bytes_lawful sp by blast
qed

end
