(* ===== verification/Cli.thy ===== *)
theory Cli
  imports Debugger Sld Ppm
begin

text \<open>
  \<^verbatim>\<open>cli/src/main.rs\<close>: the command line after \<^verbatim>\<open>clap\<close> has parsed it. The files, the JSON
  reader, the parsers of \<^verbatim>\<open>nom\<close>, the terminal and whether the log is on are fields of \<open>host\<close>;
  what the program does to the outside is the record \<open>world\<close>.
\<close>

section \<open>Arguments and surroundings\<close>

type_synonym path = string

record common_args =
  ca_input :: path
  ca_interactive :: bool
  ca_verbose :: bool
  ca_debug_symbol :: "path option"

record rt_args =
  rt_delegate :: common_args
  rt_sld :: path
  rt_ppm :: path

record exe_args =
  ex_delegate :: common_args
  ex_stdin :: "path option"
  ex_stdout :: "path option"

datatype cli_command = Rt rt_args | Exe exe_args

text \<open>
  Opening and reading a file gives its bytes or a message; a failed write says what the file
  holds then. The log is on when the environment or \<^verbatim>\<open>--verbose\<close> says so.
\<close>

record ('n, 'm) host =
  h_build :: build
  h_fpu :: binding
  h_read :: "path \<Rightarrow> (string, u8 list) outcome"
  h_create :: "path \<Rightarrow> (string, unit) outcome"
  h_write :: "path \<Rightarrow> u8 list \<Rightarrow> (string \<times> u8 list, unit) outcome"
  h_json :: "u8 list \<Rightarrow> (string, debug_symbol_raw) outcome"
  h_nom :: "'n nom"
  h_nom_bytes :: "'m nom_bytes"
  h_console :: console
  h_stdin :: "stdin_line list"
  h_log :: "bool \<Rightarrow> bool"
  h_begin :: nat
  h_end :: nat

record world =
  files :: "path \<Rightarrow> u8 list option"
  logged :: "string list"

type_synonym 'a program_part = "(world, anyhow_error, 'a) looping"

definition lift_msg :: "(string, 'a) outcome \<Rightarrow> 'a program_part" where
  "lift_msg r = once (act_lift (map_err Message r))"

definition log_info :: "bool \<Rightarrow> string \<Rightarrow> unit program_part" where
  "log_info on t = once (if on then act_modify (\<lambda>w. w\<lparr>logged := logged w @ [t]\<rparr>) else act_ret ())"

text \<open>UTF-8, which \<^verbatim>\<open>read_to_string\<close> insists on.\<close>

definition is_cont :: "u8 \<Rightarrow> bool" where
  "is_cont c \<longleftrightarrow> 0x80 \<le> c \<and> c \<le> 0xBF"

fun utf8_valid :: "u8 list \<Rightarrow> bool" where
  "utf8_valid [] = True"
| "utf8_valid (a # s) =
     (if a \<le> 0x7F then utf8_valid s
      else case s of
        [] \<Rightarrow> False
      | b # s1 \<Rightarrow>
          if 0xC2 \<le> a \<and> a \<le> 0xDF then is_cont b \<and> utf8_valid s1
          else case s1 of
            [] \<Rightarrow> False
          | c # s2 \<Rightarrow>
              if 0xE0 \<le> a \<and> a \<le> 0xEF then
                is_cont b \<and> is_cont c \<and> (a = 0xE0 \<longrightarrow> 0xA0 \<le> b) \<and> (a = 0xED \<longrightarrow> b \<le> 0x9F) \<and> utf8_valid s2
              else case s2 of
                [] \<Rightarrow> False
              | d # s3 \<Rightarrow>
                  0xF0 \<le> a \<and> a \<le> 0xF4 \<and> is_cont b \<and> is_cont c \<and> is_cont d
                  \<and> (a = 0xF0 \<longrightarrow> 0x90 \<le> b) \<and> (a = 0xF4 \<longrightarrow> b \<le> 0x8F) \<and> utf8_valid s3)"

definition read_to_string :: "u8 list \<Rightarrow> (string, string) outcome" where
  "read_to_string bs =
     (if utf8_valid bs then Ok (map (\<lambda>c. char_of (unat c)) bs) else Err ''stream did not contain valid UTF-8'')"

section \<open>Parts of the program\<close>

definition read_input :: "('n, 'm) host \<Rightarrow> path \<Rightarrow> u8 list program_part" where
  "read_input h p = lift_msg (h_read h p)"

definition read_dbg_symb :: "('n, 'm) host \<Rightarrow> path option \<Rightarrow> debug_symbol program_part" where
  "read_dbg_symb h d =
     (case d of
        Some p \<Rightarrow> then_do (lift_msg (h_read h p)) (\<lambda>f. then_do (lift_msg (h_json h f)) (\<lambda>raw. once (act_ret (ds_of_raw raw))))
      | None \<Rightarrow> once (act_ret debug_symbol_default))"

definition output_stat :: "nat \<Rightarrow> ('n, 'm) host \<Rightarrow> bool \<Rightarrow> ('i, 'o) simulator \<Rightarrow> unit program_part" where
  "output_stat fuel h on sim =
     then_do (once (act_lift (get_terminal_width (h_build h) (terminal_columns (h_console h))))) (\<lambda>cols.
     if on then
       then_do (once (act_lift (collect_stat sim))) (\<lambda>ss.
       case stats_view fuel (h_build h) (case cols of Some c \<Rightarrow> unat c | None \<Rightarrow> 120) ss of
         None \<Rightarrow> (\<lambda>w. None)
       | Some r \<Rightarrow> then_do (once (act_lift (bind_out r show_stat_all_view))) (\<lambda>t. log_info on (''statistics:'' @ nl @ t)))
     else once (act_ret ()))"

definition execute_sim ::
  "nat \<Rightarrow> ('n, 'm) host \<Rightarrow> 'i input_trait \<Rightarrow> 'o output_trait \<Rightarrow> bool \<Rightarrow> (('i, 'o) simulator, anyhow_error, unit) looping" where
  "execute_sim fuel h it ot interactive sim =
     (if interactive
      then map_option (apsnd ss_sim)
        (execute_interactive fuel (h_build h) (h_fpu h) it ot (h_console h) (h_end h) (session_new (h_stdin h) sim))
      else batch_execute fuel (h_build h) (h_fpu h) it ot (h_end h) sim)"

definition cpu_into_output :: "('i, 'o) cpu \<Rightarrow> 'o" where
  "cpu_into_output c = cpu_output c"

definition into_output :: "('i, 'o) simulator \<Rightarrow> 'o" where
  "into_output sim = cpu_into_output (sim_cpu sim)"

text \<open>Creating the simulator, giving it the symbols and running it.\<close>

definition simulate ::
  "nat \<Rightarrow> ('n, 'm) host \<Rightarrow> 'i input_trait \<Rightarrow> 'o output_trait \<Rightarrow> bool \<Rightarrow> u8 list \<Rightarrow> 'i \<Rightarrow> 'o \<Rightarrow> debug_symbol
    \<Rightarrow> ('i, 'o) simulator program_part" where
  "simulate fuel h it ot interactive mem input output ds =
     then_do (once (act_lift (sim_new (h_build h) (h_begin h) mem input output))) (\<lambda>sim w.
     map_option (\<lambda>(r, sim'). (bind_out r (\<lambda>_. Ok sim'), w)) (execute_sim fuel h it ot interactive (provide_dbg_symb ds sim)))"

text \<open>\<^verbatim>\<open>File::create\<close> truncates, then \<^verbatim>\<open>write_all\<close>.\<close>

definition write_file :: "('n, 'm) host \<Rightarrow> path \<Rightarrow> u8 list \<Rightarrow> unit program_part" where
  "write_file h p bytes =
     then_do (lift_msg (h_create h p)) (\<lambda>_.
     then_do (once (act_modify (\<lambda>w. w\<lparr>files := (files w)(p \<mapsto> [])\<rparr>))) (\<lambda>_.
     case h_write h p bytes of
       Ok _ \<Rightarrow> once (act_modify (\<lambda>w. w\<lparr>files := (files w)(p \<mapsto> bytes)\<rparr>))
     | Err (m, part) \<Rightarrow>
         then_do (once (act_modify (\<lambda>w. w\<lparr>files := (files w)(p \<mapsto> part)\<rparr>))) (\<lambda>_. once (act_err (Message m)))
     | Panic x \<Rightarrow> once (act_panic x)))"

section \<open>The ray tracer\<close>

definition show_header_info :: "ppm_header_info \<Rightarrow> string" where
  "show_header_info i =
     ''PPMHeaderInfo { width: '' @ show_u32 (ppm_width i) @ '', height: '' @ show_u32 (ppm_height i)
       @ '', color: '' @ show_u32 (ppm_color i) @ '' }''"

definition main_rt :: "nat \<Rightarrow> ('n, 'm) host \<Rightarrow> rt_args \<Rightarrow> unit program_part" where
  "main_rt fuel h a =
     (let c = rt_delegate a; on = h_log h (ca_verbose c) in
      then_do (read_input h (ca_input c)) (\<lambda>mem.
      then_do (lift_msg (bind_out (h_read h (rt_sld a)) read_to_string)) (\<lambda>sld.
      then_do (read_dbg_symb h (ca_debug_symbol c)) (\<lambda>ds.
      then_do (\<lambda>w. map_option (\<lambda>r. (r, w)) (sld_parse fuel (h_nom h) sld)) (\<lambda>input.
      then_do (log_info on (''finished parsing SLD. # of object: '' @ show_nat (num_objects (sld_info_of input)))) (\<lambda>_.
      then_do (simulate fuel h sld_input ppm_output_trait (ca_interactive c) mem input ppm_new ds) (\<lambda>sim.
      then_do (log_info on ''finished execution.'') (\<lambda>_.
      then_do (output_stat fuel h on sim) (\<lambda>_.
      then_do (once (act_lift (verify_header (h_nom_bytes h) (into_output sim)))) (\<lambda>i.
      then_do (log_info on (''PPM generated. '' @ show_header_info i)) (\<lambda>_.
      write_file h (rt_ppm a) (ppm_into_inner (into_output sim)))))))))))))"

section \<open>Other programs\<close>

definition binary_into_inner :: "binary_output \<Rightarrow> u8 list" where
  "binary_into_inner o' = bo_content o'"

text \<open>The macro \<^verbatim>\<open>b_out!\<close>, for either kind of output.\<close>

definition exe_out ::
  "nat \<Rightarrow> ('n, 'm) host \<Rightarrow> exe_args \<Rightarrow> u8 list \<Rightarrow> debug_symbol \<Rightarrow> 'o output_trait \<Rightarrow> 'o \<Rightarrow> 'o program_part" where
  "exe_out fuel h a mem ds ot output =
     (let c = ex_delegate a; on = h_log h (ca_verbose c) in
      case ex_stdin a of
        Some p \<Rightarrow>
          then_do (lift_msg (h_read h p)) (\<lambda>buf.
          then_do (simulate fuel h binary_input_trait ot (ca_interactive c) mem (binary_input_new buf) output ds) (\<lambda>sim.
          then_do (output_stat fuel h on sim) (\<lambda>_. once (act_ret (into_output sim)))))
      | None \<Rightarrow>
          then_do (simulate fuel h empty_input ot (ca_interactive c) mem () output ds) (\<lambda>sim.
          then_do (output_stat fuel h on sim) (\<lambda>_. once (act_ret (into_output sim)))))"

definition main_exe :: "nat \<Rightarrow> ('n, 'm) host \<Rightarrow> exe_args \<Rightarrow> unit program_part" where
  "main_exe fuel h a =
     (let c = ex_delegate a in
      then_do (read_input h (ca_input c)) (\<lambda>mem.
      then_do (read_dbg_symb h (ca_debug_symbol c)) (\<lambda>ds.
      case ex_stdout a of
        Some p \<Rightarrow>
          then_do (exe_out fuel h a mem ds binary_output_trait binary_output_new) (\<lambda>out.
          write_file h p (binary_into_inner out))
      | None \<Rightarrow> then_do (exe_out fuel h a mem ds empty_output ()) (\<lambda>_. once (act_ret ())))))"

fun main_cli :: "nat \<Rightarrow> ('n, 'm) host \<Rightarrow> cli_command \<Rightarrow> unit program_part" where
  "main_cli fuel h (Rt a) = main_rt fuel h a"
| "main_cli fuel h (Exe a) = main_exe fuel h a"

end
