(* ===== verification/Cli_Run.thy ===== *)
theory Cli_Run
  imports Cli
begin

text \<open>
  What a run of the program without the debugger leaves behind: the output file holds what the
  simulated program wrote, it is touched only after that program has halted, and no other file is.
\<close>

section \<open>Parts that leave the files alone\<close>

definition spares :: "'a program_part \<Rightarrow> ('a \<Rightarrow> bool) \<Rightarrow> bool" where
  "spares m Q \<longleftrightarrow> (\<forall>w r w'. m w = Some (r, w') \<longrightarrow> files w' = files w \<and> (\<forall>a. r = Ok a \<longrightarrow> Q a))"

lemma sparesD: "spares m Q \<Longrightarrow> m w = Some (r, w') \<Longrightarrow> files w' = files w \<and> (\<forall>a. r = Ok a \<longrightarrow> Q a)"
  by (simp add: spares_def)

lemma spares_then:
  assumes "spares m Q" "\<And>a. Q a \<Longrightarrow> spares (f a) R"
  shows "spares (then_do m f) R"
  unfolding spares_def
proof (intro allI impI)
  fix w r w' assume run: "then_do m f w = Some (r, w')"
  obtain q w1 where m: "m w = Some (q, w1)" using run by (cases "m w") (auto simp: then_do_def)
  show "files w' = files w \<and> (\<forall>a. r = Ok a \<longrightarrow> R a)"
    using run m sparesD [OF assms(1) m] assms(2) [THEN sparesD] by (cases q) (auto simp: then_do_def)
qed

lemma spares_weaken: "spares m Q \<Longrightarrow> (\<And>a. Q a \<Longrightarrow> R a) \<Longrightarrow> spares m R"
  by (auto simp: spares_def)

lemma spares_ret: "Q a \<Longrightarrow> spares (once (act_ret a)) Q"
  by (auto simp: spares_def once_def act_ret_def)

lemma spares_lift: "spares (once (act_lift x)) (\<lambda>a. x = Ok a)"
  by (auto simp: spares_def once_def act_lift_def)

lemma spares_lift_msg: "spares (lift_msg x) (\<lambda>a. x = Ok a)"
  by (cases x) (auto simp: spares_def lift_msg_def once_def act_lift_def)

lemma spares_pure: "spares (\<lambda>w. map_option (\<lambda>r. (r, w)) x) (\<lambda>a. x = Some (Ok a))"
  by (auto simp: spares_def)

lemma spares_stuck: "spares (\<lambda>w. None) Q"
  by (simp add: spares_def)

lemma spares_log: "spares (log_info on t) (\<lambda>_. True)"
  by (auto simp: spares_def log_info_def once_def act_modify_def act_ret_def)

lemmas spares_any = spares_weaken [OF _ TrueI]

lemma spares_dbg_symb: "spares (read_dbg_symb h d) (\<lambda>_. True)"
  by (auto simp: read_dbg_symb_def intro!: spares_then [OF spares_lift_msg] spares_ret split: option.split)

lemma spares_stat: "spares (output_stat fuel h on sim) (\<lambda>_. True)"
  unfolding output_stat_def
  by (auto intro!: spares_then [OF spares_lift] spares_ret spares_log spares_stuck split: option.split)

section \<open>The run\<close>

text \<open>
  \<open>halted_with h it ot img i o' out\<close>: the image was loaded next to the devices \<open>i\<close> and \<open>o'\<close>, the
  machine ran to the end marker, and \<open>out\<close> is what the output device held then.
\<close>

definition halted_with ::
  "('n, 'm) host \<Rightarrow> 'i input_trait \<Rightarrow> 'o output_trait \<Rightarrow> u8 list \<Rightarrow> 'i \<Rightarrow> 'o \<Rightarrow> 'o \<Rightarrow> bool" where
  "halted_with h it ot img i o' out \<longleftrightarrow>
     (\<exists>ds s s'. sim_new (h_build h) (h_begin h) img i o' = (Ok s :: (anyhow_error, _) outcome)
        \<and> exited (h_build h) (h_fpu h) it ot (provide_dbg_symb ds s) s' \<and> out = into_output s')"

lemma spares_simulate:
  assumes "\<not> interactive"
  shows "spares (simulate fuel h it ot interactive img i o' ds) (\<lambda>sim. halted_with h it ot img i o' (into_output sim))"
  unfolding simulate_def
proof (rule spares_then [OF spares_lift])
  fix s assume s: "sim_new (h_build h) (h_begin h) img i o' = (Ok s :: (anyhow_error, _) outcome)"
  show "spares (\<lambda>w. map_option (\<lambda>(r, sim'). (bind_out r (\<lambda>_. Ok sim'), w)) (execute_sim fuel h it ot interactive (provide_dbg_symb ds s)))
      (\<lambda>sim. halted_with h it ot img i o' (into_output sim))"
    unfolding spares_def
  proof (intro allI impI)
    fix w w' :: world and r assume "map_option (\<lambda>(r, sim'). (bind_out r (\<lambda>_. Ok sim'), w)) (execute_sim fuel h it ot interactive (provide_dbg_symb ds s)) = Some (r, w')"
    then obtain q s' where q: "batch_execute fuel (h_build h) (h_fpu h) it ot (h_end h) (provide_dbg_symb ds s) = Some (q, s')"
      and r: "r = bind_out q (\<lambda>_. Ok s')" "w' = w"
      using assms by (auto simp: execute_sim_def)
    show "files w' = files w \<and> (\<forall>a. r = Ok a \<longrightarrow> halted_with h it ot img i o' (into_output a))"
    proof (cases q)
      case (Ok u)
      then have "exited (h_build h) (h_fpu h) it ot (provide_dbg_symb ds s) s'" using batch_exited q by simp
      then have "halted_with h it ot img i o' (into_output s')" unfolding halted_with_def using s by blast
      then show ?thesis using r Ok by simp
    qed (use r in simp_all)
  qed
qed

section \<open>Writing the result\<close>

text \<open>
  \<open>ends F m P\<close>: started with the files \<open>F\<close>, the part either fails and leaves them as they are,
  or what it returns and leaves satisfies \<open>P\<close>.
\<close>

definition ends :: "(path \<Rightarrow> u8 list option) \<Rightarrow> unit program_part \<Rightarrow> ((anyhow_error, unit) outcome \<Rightarrow> world \<Rightarrow> bool) \<Rightarrow> bool" where
  "ends F m P \<longleftrightarrow>
     (\<forall>w r w'. files w = F \<longrightarrow> m w = Some (r, w') \<longrightarrow> (files w' = F \<and> r \<noteq> Ok ()) \<or> P r w')"

lemma ends_then:
  assumes "spares m Q" "\<And>a. Q a \<Longrightarrow> ends F (f a) P"
  shows "ends F (then_do m f) P"
  unfolding ends_def
proof (intro allI impI)
  fix w r w' assume F: "files w = F" and run: "then_do m f w = Some (r, w')"
  obtain q w1 where m: "m w = Some (q, w1)" using run by (cases "m w") (auto simp: then_do_def)
  note spares = sparesD [OF assms(1) m]
  show "(files w' = F \<and> r \<noteq> Ok ()) \<or> P r w'"
  proof (cases q)
    case (Ok a)
    then have "f a w1 = Some (r, w')" using run m by (simp add: then_do_def)
    then show ?thesis using assms(2) [of a] spares Ok F unfolding ends_def by blast
  qed (use run m spares F in \<open>auto simp: then_do_def\<close>)
qed

definition written ::
  "(path \<Rightarrow> u8 list option) \<Rightarrow> path \<Rightarrow> u8 list \<Rightarrow> (anyhow_error, unit) outcome \<Rightarrow> world \<Rightarrow> bool" where
  "written F p bytes r w' \<longleftrightarrow> (\<forall>q. q \<noteq> p \<longrightarrow> files w' q = F q) \<and> (r = Ok () \<longrightarrow> files w' p = Some bytes)"

lemma ends_write: "ends F (write_file h p bytes) (written F p bytes)"
  unfolding write_file_def
proof (rule ends_then [OF spares_lift_msg])
  fix u :: unit
  show "ends F (then_do (once (act_modify (\<lambda>w. w\<lparr>files := (files w)(p \<mapsto> [])\<rparr>)))
      (\<lambda>_. case h_write h p bytes of
         Ok _ \<Rightarrow> once (act_modify (\<lambda>w. w\<lparr>files := (files w)(p \<mapsto> bytes)\<rparr>))
       | Err (m, part) \<Rightarrow>
           then_do (once (act_modify (\<lambda>w. w\<lparr>files := (files w)(p \<mapsto> part)\<rparr>))) (\<lambda>_. once (act_err (Message m)))
       | Panic x \<Rightarrow> once (act_panic x))) (written F p bytes)"
    by (cases "h_write h p bytes")
      (auto simp: ends_def written_def then_do_def once_def act_modify_def act_err_def act_panic_def split: prod.splits)
qed

lemma ends_weaken: "ends F m P \<Longrightarrow> (\<And>r w. P r w \<Longrightarrow> R r w) \<Longrightarrow> ends F m R"
  unfolding ends_def by blast

lemma ends_spares: "spares m (\<lambda>_. Q) \<Longrightarrow> ends F m (\<lambda>r w'. files w' = F \<and> Q)"
  unfolding spares_def ends_def by (metis (full_types) outcome.exhaust)

section \<open>Both programs\<close>

text \<open>The outcome of the ray tracer, and of any other program with each choice of devices.\<close>

definition rt_outcome :: "nat \<Rightarrow> ('n, 'm) host \<Rightarrow> rt_args \<Rightarrow> u8 list \<Rightarrow> ppm_data \<Rightarrow> bool" where
  "rt_outcome fuel h a img out \<longleftrightarrow>
     (\<exists>text d i. bind_out (h_read h (rt_sld a)) read_to_string = Ok text \<and> sld_parse fuel (h_nom h) text = Some (Ok d)
        \<and> halted_with h sld_input ppm_output_trait img d ppm_new out
        \<and> verify_header (h_nom_bytes h) out = (Ok i :: (anyhow_error, _) outcome))"

definition exe_outcome :: "('n, 'm) host \<Rightarrow> exe_args \<Rightarrow> 'o output_trait \<Rightarrow> 'o \<Rightarrow> u8 list \<Rightarrow> 'o \<Rightarrow> bool" where
  "exe_outcome h a ot o' img out \<longleftrightarrow>
     (case ex_stdin a of
        None \<Rightarrow> halted_with h empty_input ot img () o' out
      | Some p \<Rightarrow> (\<exists>buf. h_read h p = Ok buf \<and> halted_with h binary_input_trait ot img (binary_input_new buf) o' out))"

lemma spares_exe_out:
  assumes "\<not> ca_interactive (ex_delegate a)"
  shows "spares (exe_out fuel h a img ds ot o') (exe_outcome h a ot o' img)"
proof -
  have run: "spares (then_do (simulate fuel h it ot (ca_interactive (ex_delegate a)) img i o' ds)
      (\<lambda>sim. then_do (output_stat fuel h on sim) (\<lambda>_. once (act_ret (into_output sim))))) (halted_with h it ot img i o')" for it i on
    by (rule spares_then [OF spares_simulate [OF assms]]) (rule spares_then [OF spares_stat], rule spares_ret)
  show ?thesis
  proof (cases "ex_stdin a")
    case None
    then show ?thesis using run [of empty_input "()"] by (simp add: exe_out_def exe_outcome_def [abs_def] Let_def)
  next
    case (Some p)
    show ?thesis
      unfolding exe_out_def Let_def Some option.case exe_outcome_def [abs_def]
      by (rule spares_then [OF spares_lift_msg]) (rule spares_weaken [OF run], blast)
  qed
qed

fun args_of :: "cli_command \<Rightarrow> common_args" where
  "args_of (Rt a) = rt_delegate a"
| "args_of (Exe a) = ex_delegate a"

lemma rt_ends:
  assumes "\<not> ca_interactive (rt_delegate a)"
  shows "ends F (main_rt fuel h a) (\<lambda>r w'. \<exists>img out. h_read h (ca_input (rt_delegate a)) = Ok img
    \<and> rt_outcome fuel h a img out \<and> written F (rt_ppm a) (ppm_into_inner out) r w')"
  unfolding main_rt_def Let_def read_input_def
  apply (rule ends_then [OF spares_lift_msg])
  apply (rule ends_then [OF spares_lift_msg])
  apply (rule ends_then [OF spares_dbg_symb])
  apply (rule ends_then [OF spares_pure])
  apply (rule ends_then [OF spares_log])
  apply (rule ends_then [OF spares_simulate [OF assms]])
  apply (rule ends_then [OF spares_log])
  apply (rule ends_then [OF spares_stat])
  apply (rule ends_then [OF spares_lift])
  apply (rule ends_then [OF spares_log])
  apply (rule ends_weaken [OF ends_write])
  unfolding rt_outcome_def by blast

lemma exe_ends:
  assumes "\<not> ca_interactive (ex_delegate a)"
  shows "ends F (main_exe fuel h a) (\<lambda>r w'. \<exists>img. h_read h (ca_input (ex_delegate a)) = Ok img
    \<and> (case ex_stdout a of
          Some p \<Rightarrow> \<exists>out. exe_outcome h a binary_output_trait binary_output_new img out \<and> written F p (binary_into_inner out) r w'
        | None \<Rightarrow> files w' = F \<and> exe_outcome h a empty_output () img ()))"
proof (cases "ex_stdout a")
  case (Some p)
  show ?thesis
    unfolding main_exe_def Let_def read_input_def Some option.case
    apply (rule ends_then [OF spares_lift_msg])
    apply (rule ends_then [OF spares_dbg_symb])
    apply (rule ends_then [OF spares_exe_out [OF assms]])
    apply (rule ends_weaken [OF ends_write])
    by blast
next
  case None
  show ?thesis
    unfolding main_exe_def Let_def read_input_def None option.case
    apply (rule ends_then [OF spares_lift_msg])
    apply (rule ends_then [OF spares_dbg_symb])
    apply (rule ends_then [OF spares_exe_out [OF assms]])
    apply (rule ends_weaken [OF ends_spares [OF spares_ret]])
    by auto
qed

text \<open>
  C33. Without the debugger, whenever the program succeeds or has changed any file, it had read the
  image, loaded it next to the devices the arguments choose, and run it to its end marker (for
  the ray tracer: the scene was read and parsed, and the picture has a valid header). No file but
  the one named for the output is changed, and after success that file holds what the simulated
  program wrote.
\<close>

theorem run_writes_output:
  assumes "main_cli fuel h c w = Some (r, w')" "\<not> ca_interactive (args_of c)" "r = Ok () \<or> files w' \<noteq> files w"
  shows "\<exists>img. h_read h (ca_input (args_of c)) = Ok img
    \<and> (case c of
          Rt a \<Rightarrow> \<exists>out. rt_outcome fuel h a img out \<and> written (files w) (rt_ppm a) (ppm_into_inner out) r w'
        | Exe a \<Rightarrow>
            (case ex_stdout a of
               Some p \<Rightarrow> \<exists>out. exe_outcome h a binary_output_trait binary_output_new img out
                 \<and> written (files w) p (binary_into_inner out) r w'
             | None \<Rightarrow> files w' = files w \<and> exe_outcome h a empty_output () img ()))"
proof (cases c)
  case (Rt a)
  then show ?thesis using assms rt_ends [of a "files w" fuel h] unfolding ends_def by fastforce
next
  case (Exe a)
  then show ?thesis using assms exe_ends [of a "files w" fuel h] unfolding ends_def by fastforce
qed

text \<open>The demonstration program, run from the command line without devices.\<close>

definition demo_host :: "(string, unit) host" where
  "demo_host = \<lparr>h_build = release_1st, h_fpu = demo_fpu, h_read = (\<lambda>_. Ok demo_image), h_create = (\<lambda>_. Ok ()),
     h_write = (\<lambda>_ _. Ok ()), h_json = (\<lambda>_. Err ''EOF while parsing a value''), h_nom = simple_nom,
     h_nom_bytes = simple_nom_bytes, h_console = demo_console, h_stdin = [], h_log = (\<lambda>_. False), h_begin = 0, h_end = 0\<rparr>"

definition demo_args :: exe_args where
  "demo_args = \<lparr>ex_delegate = \<lparr>ca_input = ''demo'', ca_interactive = False, ca_verbose = False, ca_debug_symbol = None\<rparr>,
     ex_stdin = None, ex_stdout = None\<rparr>"

definition demo_world :: world where
  "demo_world = \<lparr>files = (\<lambda>_. None), logged = []\<rparr>"

lemma demo_main: "\<exists>w'. main_cli 3 demo_host (Exe demo_args) demo_world = Some (Ok (), w')"
proof -
  obtain s where s: "demo_sim s" using sim_boot by blast
  have new: "sim_new release_1st 0 demo_image () () = (Ok s :: (anyhow_error, _) outcome)"
    by (rule demo_new [OF s])
  obtain s' where "batch_execute 3 release_1st demo_fpu empty_input empty_output 0 s = Some (Ok (), s')" by (rule demo_run [OF s])
  moreover have "provide_dbg_symb debug_symbol_default s = s" by (simp add: provide_dbg_symb_def debug_symbol_default_def ds_is_empty_def)
  ultimately have "simulate 3 demo_host empty_input empty_output False demo_image () () debug_symbol_default demo_world
      = Some (Ok s', demo_world)"
    using new by (simp add: simulate_def then_do_def once_def act_lift_def demo_host_def execute_sim_def)
  then show ?thesis
    by (simp add: main_exe_def exe_out_def read_input_def read_dbg_symb_def output_stat_def lift_msg_def get_terminal_width_def demo_args_def then_do_def
        once_def act_lift_def act_ret_def) (simp add: demo_host_def demo_console_def then_do_def once_def act_lift_def act_ret_def)
qed

theorem run_writes_output_witness:
  "\<exists>w'. main_cli 3 demo_host (Exe demo_args) demo_world = Some (Ok (), w')
     \<and> files w' = files demo_world \<and> exe_outcome demo_host demo_args empty_output () demo_image ()"
proof -
  obtain w' where run: "main_cli 3 demo_host (Exe demo_args) demo_world = Some (Ok (), w')" using demo_main by blast
  have "\<not> ca_interactive (args_of (Exe demo_args))" "ex_stdout demo_args = None" "h_read demo_host p = Ok demo_image" for p
    by (simp_all add: demo_args_def demo_host_def)
  with run_writes_output [OF run] run show ?thesis by auto
qed

end
