(* ===== verification/Fpu_C.thy ===== *)
theory Fpu_C
  imports Fpu_Wrapper Float64
begin

text \<open>
  \<^verbatim>\<open>fpu/impl\<close>: the floating-point unit in C, which the build links to the simulator. The union of
  a \<^verbatim>\<open>float\<close> and a \<^verbatim>\<open>uint32_t\<close> is the bit pattern of \<open>f32\<close>; \<^verbatim>\<open>int32_t\<close> is its pattern in 32
  bits, with the wrap-around of the machine where C leaves overflow open.
\<close>

section \<open>fpulib.c\<close>

text \<open>Bits \<open>left\<close> down to \<open>right\<close>, counted from one.\<close>

definition slice :: "u32 \<Rightarrow> nat \<Rightarrow> nat \<Rightarrow> u32" where
  "slice x left right = drop_bit (31 - left + right) (push_bit (32 - left) x)"

definition mkfloat :: "u32 \<Rightarrow> u32 \<Rightarrow> u32 \<Rightarrow> u32" where
  "mkfloat s e m = push_bit 31 s + push_bit 23 e + m"

section \<open>fmul.c\<close>

definition fmul_mantissa :: "u32 \<Rightarrow> u32 \<Rightarrow> u32" where
  "fmul_mantissa x1 x2 =
     (let h1 = slice x1 23 12 OR 0x1000; h2 = slice x2 23 12 OR 0x1000;
          l1 = slice x1 11 1; l2 = slice x2 11 1;
          hh = h1 * h2; hl = h1 * l2; lh = l1 * h2
      in hh + drop_bit 11 hl + drop_bit 11 lh + 2)"

definition fmul :: "f32 \<Rightarrow> f32 \<Rightarrow> f32" where
  "fmul x1 x2 =
     (let s1 = drop_bit 31 (to_bits x1); s2 = drop_bit 31 (to_bits x2);
          e1 = slice (to_bits x1) 31 24; e2 = slice (to_bits x2) 31 24;
          es = slice (e1 + e2 + 129) 9 1;
          mm = fmul_mantissa (to_bits x1) (to_bits x2);
          sy = s1 XOR s2;
          ey = (if drop_bit 8 es = 0 then 0
                else if drop_bit 25 mm \<noteq> 0 then slice (es + 1) 8 1 else slice es 8 1);
          my = (if e1 = 0 \<or> e2 = 0 \<or> ey = 0 then 0
                else if drop_bit 25 mm \<noteq> 0 then slice mm 25 3 else slice mm 24 2)
      in Bits (mkfloat sy ey my))"

section \<open>fcvtsw.c\<close>

text \<open>The loop over the bits, from \<open>i\<close> down.\<close>

fun shift_amount :: "u32 \<Rightarrow> nat \<Rightarrow> u32" where
  "shift_amount xabs 0 = (if xabs AND 1 \<noteq> 0 then 32 else 0)"
| "shift_amount xabs (Suc i) =
     (if xabs AND push_bit (Suc i) 1 \<noteq> 0 then 32 - of_nat (Suc i) else shift_amount xabs i)"

definition fcvtsw :: "u32 \<Rightarrow> f32" where
  "fcvtsw x =
     (let s = drop_bit 31 x;
          xabs = (if 0 \<le> sint x then x else - x);
          sa = shift_amount xabs 31;
          xs = (if sa = 32 then 0 else push_bit (unat sa) xabs);
          ey = (if sa = 0 then 0
                else if drop_bit 9 xs = 0x7FFFFF \<and> slice xs 9 9 \<noteq> 0 then 127 - sa + 33
                else 127 - sa + 32);
          my = slice (drop_bit 9 xs + slice xs 9 9) 23 1
      in Bits (mkfloat s ey my))"

section \<open>fcvtws.c\<close>

definition fcvtws :: "f32 \<Rightarrow> u32" where
  "fcvtws x =
     (let s = drop_bit 31 (to_bits x);
          e = slice (to_bits x) 31 24; sa = 157 - e; sai = sa - 1;
          m = slice (to_bits x) 23 1; me = push_bit 30 1 + push_bit 7 m;
          mes = (if sa > 31 then 0 else drop_bit (unat sa) me);
          mesi = (if sai > 31 then 0 else drop_bit (unat sai) me);
          mesr = (if mesi AND 1 \<noteq> 0 then mes + 1 else mes);
          mesrc = (NOT mesr OR 0x80000000) + 1
      in if s = 0 then mesr else mesrc)"

section \<open>ffloor.c\<close>

text \<open>
  \<^verbatim>\<open>x_float - 1.0\<close> is computed in double precision, where it is exact, and rounded once.
\<close>

definition ffloor :: "f32 \<Rightarrow> f32" where
  "ffloor x =
     (if slice (to_bits x) 31 24 > 157 then x
      else let x_int = fcvtws x; x_float = fcvtsw x_int
           in if f32_ge x x_float then x_float else f32_sub x_float f32_one)"

section \<open>fdiv.c\<close>

text \<open>
  Slope and intercept of the linear approximation of the reciprocal in the interval that the
  upper ten bits of the mantissa select.
\<close>

definition fdiv_grad :: "u32 \<Rightarrow> f32" where
  "fdiv_grad h =
     (let d = f64_of_nat; h' = unat h
      in f64_to_f32 (f64_mul (d 1024)
           (f64_sub (f64_div (d 1024) (f64_add (d 1024) (d h'))) (f64_div (d 1024) (f64_add (d 1025) (d h'))))))"

definition fdiv_intercept :: "u32 \<Rightarrow> f32" where
  "fdiv_intercept h =
     (let d = f64_of_nat; h' = unat h
      in f64_to_f32 (f64_add
           (f64_mul (d 1024) (f64_sub (d 1) (f64_div (f64_add (d 1024) (d h')) (f64_add (d 1025) (d h')))))
           (f64_add
             (f64_sub (f64_div (d 768) (f64_add (d 1024) (d h'))) (f64_div (d 256) (f64_add (d 1025) (d h'))))
             (f64_div (d 1024) (f64_add (d 2049) (d (unat (2 * h))))))))"

definition fdiv :: "f32 \<Rightarrow> f32 \<Rightarrow> f32" where
  "fdiv x1 x2 =
     (let s1 = drop_bit 31 (to_bits x1); s2 = drop_bit 31 (to_bits x2);
          e1 = slice (to_bits x1) 31 24; e2 = slice (to_bits x2) 31 24;
          m1 = slice (to_bits x1) 23 1; m2 = slice (to_bits x2) 23 1; h = slice m2 23 14;
          m1n = Bits (mkfloat 0 127 m1); m2n = Bits (mkfloat 0 127 m2);
          ax = fmul (fdiv_grad h) m2n; m2inv = f32_sub (fdiv_intercept h) ax;
          mdiv = to_bits (fmul m1n m2inv);
          ovf = slice mdiv 31 31; udf = slice (NOT mdiv) 24 24;
          sy = s1 XOR s2; ey = slice (e1 - e2 + 127 - udf + ovf) 8 1; my = slice mdiv 23 1
      in Bits (mkfloat sy ey my))"

section \<open>fsqrt.c\<close>

definition fsqrt_coeffs :: "u32 \<Rightarrow> f32 \<times> f32" where
  "fsqrt_coeffs h =
     (let d = f64_of_nat;
          root = (\<lambda>p q. f64_sqrt (f64_div (d p) (d q)));
          (scale, upper, lower, mid, twice) =
            (if h < 512
             then (d 512, root (unat (513 + h)) 512, root (unat (512 + h)) 512, root (unat (1025 + 2 * h)) 1024, d (unat (1025 + 2 * h)))
             else (d 256, root (unat (1 + h)) 256, root (unat h) 256, root (unat (1 + 2 * h)) 512, d (unat (1 + 2 * h))));
          d_grad = f64_mul scale (f64_sub upper lower);
          d_intercept = f64_sub (f64_div (f64_add (f64_add (f64_mul (d 2) mid) upper) lower) (d 4))
            (f64_mul (f64_div twice (d 2)) (f64_sub upper lower))
      in (f64_to_f32 d_grad, f64_to_f32 d_intercept))"

definition fsqrt :: "f32 \<Rightarrow> f32" where
  "fsqrt x =
     (let s = drop_bit 31 (to_bits x); e = slice (to_bits x) 31 24;
          m = slice (to_bits x) 23 1; h = slice (to_bits x) 24 15 XOR 0x200;
          mn = Bits (if e AND 1 \<noteq> 0 then mkfloat 0 127 m else mkfloat 0 128 m);
          (grad, intercept) = fsqrt_coeffs h;
          ax = fmul grad mn; msqrt = to_bits (f32_add intercept ax);
          ey = (if e = 255 \<or> e = 0 then 0 else (e - 127) div 2 + 127);
          my = slice msqrt 23 1
      in Bits (mkfloat s ey my))"

text \<open>What the generated bindings link to.\<close>

definition fpu_library :: binding where
  "fpu_library = \<lparr>c_fmul = fmul, c_fdiv = fdiv, c_fsqrt = fsqrt, c_fcvtsw = fcvtsw, c_fcvtws = fcvtws, c_ffloor = ffloor\<rparr>"

section \<open>Fields\<close>

lemma slice_eq:
  assumes "1 \<le> r" "r \<le> l" "l \<le> 31"
  shows "slice x l r = take_bit (l + 1 - r) (drop_bit (r - 1) x)"
  using assms by (intro bit_word_eqI) (auto simp: slice_def bit_simps algebra_simps)

lemma unat_bits:
  fixes w :: u32
  shows "unat (drop_bit n w) = unat w div 2 ^ n" "unat (take_bit n w) = unat w mod 2 ^ n"
    "unat w * 2 ^ n < 2 ^ 32 \<Longrightarrow> unat (push_bit n w) = unat w * 2 ^ n"
proof -
  have w: "unat w mod 2 ^ 32 = unat w" using unsigned_less [where 'b = 32 and 'a = nat, of w] by simp
  show "unat (drop_bit n w) = unat w div 2 ^ n"
    unfolding unsigned_drop_bit_eq by (simp only: drop_bit_eq_div take_bit_eq_mod len_bit0 len_num1) (simp add: w [simplified])
  show "unat (take_bit n w) = unat w mod 2 ^ n"
    unfolding unsigned_take_bit_eq by (simp only: take_bit_eq_mod)
  show "unat w * 2 ^ n < 2 ^ 32 \<Longrightarrow> unat (push_bit n w) = unat w * 2 ^ n"
    unfolding unsigned_push_bit_eq by (simp add: push_bit_eq_mult take_bit_eq_mod)
qed

lemma unat_slice:
  assumes "1 \<le> r" "r \<le> l" "l \<le> 31"
  shows "unat (slice x l r) = unat x div 2 ^ (r - 1) mod 2 ^ (l + 1 - r)"
  by (simp only: slice_eq [OF assms] unat_bits)

lemma drop_31: "drop_bit 31 (w :: u32) = of_bool (bit w 31)"
  by (rule bit_word_eqI) (auto simp: bit_simps less_Suc_eq numeral_eq_Suc dest: bit_imp_le_length)

lemma f32_fields_nat:
  "f32_exponent x = unat (to_bits x) div 2 ^ 23 mod 2 ^ 8"
  "f32_mantissa x = unat (to_bits x) mod 2 ^ 23"
  by (simp_all only: f32_exponent_def f32_mantissa_def unat_bits)

lemma f32_fields_less: "f32_exponent x < 2 ^ 8" "f32_mantissa x < 2 ^ 23"
  by (simp_all add: f32_fields_nat)

lemma slice_fields:
  "unat (slice (to_bits x) 31 24) = f32_exponent x" "unat (slice (to_bits x) 23 1) = f32_mantissa x"
  "drop_bit 31 (to_bits x) = of_bool (f32_sign x)"
  by (simp_all add: unat_slice f32_fields_nat drop_31 f32_sign_def)

lemma unat_mkfloat:
  assumes "unat e < 2 ^ 8" "unat m < 2 ^ 23"
  shows "unat (mkfloat (of_bool s) e m) = of_bool s * 2 ^ 31 + unat e * 2 ^ 23 + unat m"
proof -
  have "unat (push_bit 31 (of_bool s :: u32)) = of_bool s * 2 ^ 31"
    by (simp add: push_bit_eq_mult)
  moreover have "unat (push_bit 23 e) = unat e * 2 ^ 23"
    using assms by (intro unat_bits) simp
  ultimately show ?thesis
    using assms by (cases s) (simp_all add: mkfloat_def unat_word_ariths)
qed

lemma mkfloat_fields:
  assumes "unat e < 2 ^ 8" "unat m < 2 ^ 23" and x_def: "x = Bits (mkfloat (of_bool s) e m)"
  shows "f32_sign x = s" "f32_exponent x = unat e" "f32_mantissa x = unat m"
proof -
  let ?w = "mkfloat (of_bool s) e m"
  have u: "unat ?w = (of_bool s * 2 ^ 8 + unat e) * 2 ^ 23 + unat m"
    using unat_mkfloat [OF assms(1,2), of s] by simp
  have d: "unat ?w div 2 ^ 23 = of_bool s * 2 ^ 8 + unat e"
    using assms(2) unfolding u by (metis add.commute add.right_neutral div_less div_mult_self3 less_numeral_extra(3) zero_less_power zero_less_numeral)
  show "f32_exponent x = unat e"
    using assms(1) unfolding x_def f32_fields_nat f32.sel d by (cases s) simp_all
  show "f32_mantissa x = unat m"
    using assms(2) unfolding x_def f32_fields_nat f32.sel u by (simp only: mod_mult_self3 mod_less)
  have "unat (drop_bit 31 ?w) = unat ?w div 2 ^ 23 div 2 ^ 8"
    unfolding unat_bits by (simp add: div_mult2_eq [symmetric])
  also have "\<dots> = of_bool s" using assms(1) unfolding d by (cases s) simp_all
  finally show "f32_sign x = s"
    unfolding x_def f32_sign_def f32.sel drop_31 by (cases s; cases "bit ?w 31") simp_all
qed

end
