(* ===== verification/Fpu_Accuracy.thy ===== *)
theory Fpu_Accuracy
  imports Fpu_C
begin

text \<open>
  What the floating-point unit in C computes: the product within one unit in the last place, the
  conversions to and from integers correctly rounded, and the floor exactly.
\<close>

section \<open>Multiplication\<close>

lemma unat_implicit_bit: "unat (slice w 23 12 OR 0x1000) = unat w div 2 ^ 11 mod 2 ^ 12 + 2 ^ 12"
proof -
  let ?a = "take_bit 12 (drop_bit 11 w)"
  have "\<not> bit ?a n \<or> \<not> bit (push_bit 12 1 :: u32) n" for n
    unfolding bit_push_bit_iff bit_take_bit_iff bit_1_iff by auto
  then have "?a OR push_bit 12 1 = ?a + push_bit 12 1" by (intro disjunctive_add [symmetric]) auto
  then have "slice w 23 12 OR 0x1000 = slice w 23 12 + 0x1000" by (simp add: slice_eq)
  moreover have "unat (slice w 23 12) < 2 ^ 12" by (simp add: unat_slice)
  ultimately show ?thesis by (simp add: unat_slice unat_word_ariths)
qed

text \<open>The mantissas with their implicit bit, and the product the unit approximates.\<close>

definition significand :: "f32 \<Rightarrow> nat" where
  "significand x = f32_mantissa x + 2 ^ 23"

lemma significand_range: "2 ^ 23 \<le> significand x" "significand x < 2 ^ 24"
  using f32_fields_less(2) [of x] by (simp_all add: significand_def)

lemma f32_mag_normal: "1 \<le> f32_exponent x \<Longrightarrow> f32_mag x = significand x * 2 ^ (f32_exponent x - 1)"
  by (simp add: f32_mag_def significand_def)

lemma unat_mult_small:
  assumes "unat (a :: u32) < 2 ^ 13" "unat (b :: u32) < 2 ^ 13"
  shows "unat (a * b) = unat a * unat b \<and> unat a * unat b < 2 ^ 26"
  using mult_strict_mono [OF assms] by (simp add: unat_word_ariths)

lemma unat_fmul_mantissa:
  fixes x y :: f32
  defines "h1 \<equiv> significand x div 2 ^ 11" and "h2 \<equiv> significand y div 2 ^ 11"
    and "l1 \<equiv> significand x mod 2 ^ 11" and "l2 \<equiv> significand y mod 2 ^ 11"
  shows "unat (fmul_mantissa (to_bits x) (to_bits y)) = h1 * h2 + h1 * l2 div 2 ^ 11 + l1 * h2 div 2 ^ 11 + 2"
proof -
  let ?H = "\<lambda>w. slice w 23 12 OR 0x1000" and ?L = "\<lambda>w. slice w 11 1"
  have parts: "unat (?H (to_bits z)) = significand z div 2 ^ 11" "unat (?L (to_bits z)) = significand z mod 2 ^ 11"
    "significand z div 2 ^ 11 < 2 ^ 13" "significand z mod 2 ^ 11 < 2 ^ 11" for z
  proof -
    have "f32_mantissa z div 2 ^ 11 = unat (to_bits z) div 2 ^ 11 mod 2 ^ 12"
      using mod_mult2_eq [of "unat (to_bits z)" "2 ^ 11" "2 ^ 12"] by (simp add: f32_fields_nat)
    moreover have "significand z div 2 ^ 11 = f32_mantissa z div 2 ^ 11 + 2 ^ 12"
      by (simp add: significand_def)
    ultimately show "unat (?H (to_bits z)) = significand z div 2 ^ 11" by (simp only: unat_implicit_bit)
    show "unat (?L (to_bits z)) = significand z mod 2 ^ 11"
      using mod_mult2_eq [of "unat (to_bits z)" "2 ^ 11" "2 ^ 12"]
      by (simp add: unat_slice significand_def f32_fields_nat mod_add_eq [of _ 2048 8388608, symmetric])
  qed (use significand_range(2) [of z] in simp_all)
  have small: "unat (?H (to_bits z)) < 2 ^ 13" "unat (?L (to_bits z)) < 2 ^ 13" for z
    using parts [of z] by simp_all
  have "unat (?H (to_bits x) * ?H (to_bits y)) = h1 * h2 \<and> h1 * h2 < 2 ^ 26"
    "unat (?H (to_bits x) * ?L (to_bits y)) = h1 * l2 \<and> h1 * l2 < 2 ^ 26"
    "unat (?L (to_bits x) * ?H (to_bits y)) = l1 * h2 \<and> l1 * h2 < 2 ^ 26"
    using unat_mult_small [OF small(1) small(1), of x y] unat_mult_small [OF small(1) small(2), of x y]
      unat_mult_small [OF small(2) small(1), of x y]
    unfolding h1_def h2_def l1_def l2_def parts(1,2) by simp_all
  note prod = this
  have "h1 * l2 div 2 ^ 11 < 2 ^ 15" "l1 * h2 div 2 ^ 11 < 2 ^ 15"
    using prod(2,3) by (auto intro!: less_mult_imp_div_less)
  then show ?thesis using prod unfolding fmul_mantissa_def Let_def by (simp add: unat_word_ariths unat_bits)
qed

lemma product_approx:
  fixes a b :: nat
  defines "h1 \<equiv> a div 2 ^ 11" and "h2 \<equiv> b div 2 ^ 11" and "l1 \<equiv> a mod 2 ^ 11" and "l2 \<equiv> b mod 2 ^ 11"
  defines "mm \<equiv> h1 * h2 + h1 * l2 div 2 ^ 11 + l1 * h2 div 2 ^ 11 + 2"
  shows "mm * 2 ^ 22 \<le> a * b + 2 ^ 23" "a * b < (mm + 1) * 2 ^ 22"
proof -
  have a: "a = h1 * 2 ^ 11 + l1" and b: "b = h2 * 2 ^ 11 + l2"
    by (simp_all add: h1_def h2_def l1_def l2_def)
  have ab: "a * b = h1 * h2 * 2 ^ 22 + h1 * l2 * 2 ^ 11 + l1 * h2 * 2 ^ 11 + l1 * l2"
    unfolding a b by (simp add: algebra_simps)
  have ll: "l1 * l2 \<le> 2 ^ 11 * 2 ^ 11 - 1"
    using mult_strict_mono [of l1 "2 ^ 11" l2 "2 ^ 11"] by (simp add: l1_def l2_def)
  have "h1 * l2 = h1 * l2 div 2 ^ 11 * 2 ^ 11 + h1 * l2 mod 2 ^ 11" "h1 * l2 mod 2 ^ 11 < 2 ^ 11"
    "l1 * h2 = l1 * h2 div 2 ^ 11 * 2 ^ 11 + l1 * h2 mod 2 ^ 11" "l1 * h2 mod 2 ^ 11 < 2 ^ 11"
    by simp_all
  then show "mm * 2 ^ 22 \<le> a * b + 2 ^ 23" "a * b < (mm + 1) * 2 ^ 22"
    using ll unfolding ab mm_def by simp_all
qed

lemma fmul_commute: "fmul x y = fmul y x"
  by (simp add: fmul_def fmul_mantissa_def Let_def ac_simps disj_commute)

text \<open>The exponent the unit computes, with the carry \<open>c\<close> of the mantissa.\<close>

lemma fmul_exponent_sum:
  assumes "127 \<le> f32_exponent x + f32_exponent y" "f32_exponent x + f32_exponent y < 382"
  shows "unat (slice (slice (to_bits x) 31 24 + slice (to_bits y) 31 24 + 129) 9 1) = f32_exponent x + f32_exponent y + 129"
  using assms f32_fields_less(1) [of x] f32_fields_less(1) [of y]
  by (simp add: unat_slice unat_word_ariths slice_fields)

lemma fmul_fields:
  fixes x y :: f32
  defines "mm \<equiv> unat (fmul_mantissa (to_bits x) (to_bits y))"
  defines "c \<equiv> if 2 ^ 25 \<le> mm then 1 else 0 :: nat"
  assumes r: "127 \<le> f32_exponent x + f32_exponent y" "f32_exponent x + f32_exponent y < 382"
      "128 \<le> f32_exponent x + f32_exponent y + c"
  shows "f32_sign (fmul x y) = (f32_sign x \<noteq> f32_sign y)"
    "f32_exponent (fmul x y) = f32_exponent x + f32_exponent y + c - 127"
    "f32_mantissa (fmul x y) = (if f32_exponent x = 0 \<or> f32_exponent y = 0 then 0 else mm div 2 ^ (c + 1) mod 2 ^ 23)"
proof -
  define es where "es = slice (slice (to_bits x) 31 24 + slice (to_bits y) 31 24 + 129) 9 1"
  let ?mm = "fmul_mantissa (to_bits x) (to_bits y)"
  define ey where "ey = (if drop_bit 25 ?mm \<noteq> 0 then slice (es + 1) 8 1 else slice es 8 1)"
  define my where "my = (if f32_exponent x = 0 \<or> f32_exponent y = 0 then 0 else if drop_bit 25 ?mm \<noteq> 0 then slice ?mm 25 3 else slice ?mm 24 2)"
  have es: "unat es = f32_exponent x + f32_exponent y + 129"
    unfolding es_def by (rule fmul_exponent_sum [OF r(1,2)])
  have c: "drop_bit 25 ?mm \<noteq> 0 \<longleftrightarrow> c = 1"
    by (simp add: c_def mm_def unat_bits div_greater_zero_iff flip: unat_0_iff)
  have mod_256: "n mod 256 = n - 256" if "256 \<le> n" "n < 512" for n :: nat
    using that by (simp add: le_mod_geq)
  have ey: "unat ey = f32_exponent x + f32_exponent y + c - 127"
    using r unfolding ey_def c by (auto simp: c_def unat_slice unat_word_ariths es mod_256 split: if_splits)
  have my: "unat my = (if f32_exponent x = 0 \<or> f32_exponent y = 0 then 0 else mm div 2 ^ (c + 1) mod 2 ^ 23)"
    unfolding my_def c by (auto simp: c_def unat_slice mm_def split: if_splits)
  have nz: "slice (to_bits z) 31 24 = 0 \<longleftrightarrow> f32_exponent z = 0" "ey \<noteq> 0" "drop_bit 8 es \<noteq> 0" for z
    using r by (simp_all add: slice_fields ey unat_bits es flip: unat_0_iff)
  have "of_bool p XOR of_bool q = (of_bool (p \<noteq> q) :: u32)" for p q by simp
  then have "fmul x y = Bits (mkfloat (of_bool (f32_sign x \<noteq> f32_sign y)) ey my)"
    using nz unfolding fmul_def Let_def slice_fields(3) ey_def my_def es_def by simp
  moreover have "unat ey < 2 ^ 8" "unat my < 2 ^ 23" using r unfolding ey my by (auto simp: c_def)
  ultimately show
    "f32_sign (fmul x y) = (f32_sign x \<noteq> f32_sign y)"
    "f32_exponent (fmul x y) = f32_exponent x + f32_exponent y + c - 127"
    "f32_mantissa (fmul x y) = (if f32_exponent x = 0 \<or> f32_exponent y = 0 then 0 else mm div 2 ^ (c + 1) mod 2 ^ 23)"
    using mkfloat_fields [of ey my] unfolding ey my by blast+
qed

lemma fmul_truncation:
  fixes mm P :: nat
  assumes mm: "mm * 2 ^ 22 \<le> P + 2 ^ 23" "P < (mm + 1) * 2 ^ 22" "2 ^ 46 \<le> P" "P \<le> (2 ^ 24 - 1) * (2 ^ 24 - 1)"
    and c: "c = (if 2 ^ 25 \<le> mm then 1 else 0)"
    and R: "R = mm div 2 ^ (c + 1) mod 2 ^ 23 + 2 ^ 23"
  shows "2 ^ 23 * \<bar>int R * 2 ^ (23 + c) - int P\<bar> \<le> int P"
proof -
  have "2 ^ 24 \<le> mm" "mm < 2 ^ 26" using mm by simp_all
  then have "R = mm div 2 ^ (c + 1)"
    unfolding R c by (auto simp: le_mod_geq div_less_dividend less_mult_imp_div_less)
  moreover have "mm div K * K \<le> mm \<and> mm < mm div K * K + K" if "0 < K" for K
    using mod_less_divisor [OF that, of mm] div_mult_mod_eq [of mm K] by linarith
  ultimately have "R * 2 ^ (c + 1) \<le> mm" "mm < R * 2 ^ (c + 1) + 2 ^ (c + 1)" by simp_all
  then show ?thesis
    using mm unfolding c by (cases "2 ^ 47 \<le> P") (simp_all add: abs_if split: if_splits; linarith)+
qed

lemma f32_int_times:
  "f32_int x * f32_int y = (if f32_sign x \<noteq> f32_sign y then - 1 else 1) * int (f32_mag x * f32_mag y)"
  by (simp add: f32_int_def)

lemma fmul_relative_error:
  assumes e: "1 \<le> f32_exponent x" "1 \<le> f32_exponent y"
    and r: "128 \<le> f32_exponent x + f32_exponent y" "f32_exponent x + f32_exponent y < 382"
  shows "2 ^ 23 * \<bar>f32_int (fmul x y) * 2 ^ 149 - f32_int x * f32_int y\<bar> \<le> \<bar>f32_int x * f32_int y\<bar>"
proof -
  define mm where "mm = unat (fmul_mantissa (to_bits x) (to_bits y))"
  define c where "c = (if 2 ^ 25 \<le> mm then 1 else 0 :: nat)"
  define R where "R = significand (fmul x y)"
  define P where "P = significand x * significand y"
  let ?e = "f32_exponent x + f32_exponent y" and ?s = "if f32_sign x \<noteq> f32_sign y then - 1 else 1 :: int"
  have fields: "f32_sign (fmul x y) = (f32_sign x \<noteq> f32_sign y)" "f32_exponent (fmul x y) = ?e + c - 127"
    "f32_mantissa (fmul x y) = mm div 2 ^ (c + 1) mod 2 ^ 23"
    using fmul_fields [of x y] e r unfolding c_def mm_def by simp_all
  have "2 ^ 46 \<le> P" "P \<le> (2 ^ 24 - 1) * (2 ^ 24 - 1)"
    using mult_le_mono [OF significand_range(1) [of x] significand_range(1) [of y]]
      mult_le_mono [of "significand x" "2 ^ 24 - 1" "significand y" "2 ^ 24 - 1"]
      significand_range(2) [of x] significand_range(2) [of y] by (simp_all add: P_def)
  then have err: "2 ^ 23 * \<bar>int R * 2 ^ (23 + c) - int P\<bar> \<le> int P"
    using fmul_truncation [OF product_approx [of "significand x" "significand y", folded unat_fmul_mantissa mm_def P_def] _ _ c_def]
    by (simp add: R_def significand_def fields(3))
  have "f32_mag (fmul x y) = R * 2 ^ (?e + c - 128)"
    using r by (simp add: f32_mag_normal fields(2) R_def)
  moreover have "?e + c - 128 + 149 = 23 + c + (?e - 2)" using r by simp
  ultimately have m1: "f32_mag (fmul x y) * 2 ^ 149 = R * 2 ^ (23 + c) * 2 ^ (?e - 2)"
    by (metis power_add mult.assoc)
  have m2: "f32_mag x * f32_mag y = P * 2 ^ (?e - 2)"
  proof -
    have "f32_exponent x - 1 + (f32_exponent y - 1) = ?e - 2" using e by simp
    then have "2 ^ (?e - 2) = 2 ^ (f32_exponent x - 1) * (2 :: nat) ^ (f32_exponent y - 1)" by (metis power_add)
    then show ?thesis by (simp only: f32_mag_normal [OF e(1)] f32_mag_normal [OF e(2)] P_def mult_ac)
  qed
  have "int (f32_mag (fmul x y)) * 2 ^ 149 = int R * 2 ^ (23 + c) * 2 ^ (?e - 2)"
    "int (f32_mag x * f32_mag y) = int P * 2 ^ (?e - 2)"
    using arg_cong [OF m1, of int] arg_cong [OF m2, of int] by (simp_all only: of_nat_mult of_nat_power of_nat_numeral)
  then have "f32_int (fmul x y) * 2 ^ 149 - f32_int x * f32_int y = ?s * (int R * 2 ^ (23 + c) - int P) * 2 ^ (?e - 2)"
    "\<bar>f32_int x * f32_int y\<bar> = int P * 2 ^ (?e - 2)"
    unfolding f32_int_times f32_int_def [of "fmul x y"] fields(1) by (simp_all add: algebra_simps)
  then show ?thesis using mult_right_mono [OF err, of "2 ^ (?e - 2)"] by (simp add: abs_mult)
qed

lemma fmul_zero_operand:
  assumes "f32_exponent x = 0" "128 \<le> f32_exponent y"
  shows "f32_mantissa (fmul x y) = 0" "f32_exponent y - 127 \<le> f32_exponent (fmul x y)"
  using fmul_fields [of x y] assms f32_fields_less(1) [of y] by simp_all

section \<open>Conversion to integers\<close>

text \<open>Rounding to the nearest integer, ties away from zero, of a magnitude.\<close>

definition round_mag :: "nat \<Rightarrow> nat" where
  "round_mag n = (2 * n + 2 ^ 149) div 2 ^ 150"

definition fcvtws_mag :: "f32 \<Rightarrow> u32" where
  "fcvtws_mag x =
     (let e = slice (to_bits x) 31 24; sa = 157 - e; sai = sa - 1;
          m = slice (to_bits x) 23 1; me = push_bit 30 1 + push_bit 7 m;
          mes = (if sa > 31 then 0 else drop_bit (unat sa) me);
          mesi = (if sai > 31 then 0 else drop_bit (unat sai) me)
      in if mesi AND 1 \<noteq> 0 then mes + 1 else mes)"

lemma fcvtws_alt:
  "fcvtws x = (if f32_sign x then (NOT (fcvtws_mag x) OR 0x80000000) + 1 else fcvtws_mag x)"
  by (simp add: fcvtws_def fcvtws_mag_def Let_def slice_fields)

lemma unat_me: "unat (push_bit 30 1 + push_bit 7 (slice (to_bits x) 23 1)) = significand x * 2 ^ 7"
proof -
  have "unat (push_bit 7 (slice (to_bits x) 23 1)) = f32_mantissa x * 2 ^ 7"
    using f32_fields_less(2) [of x] by (subst unat_bits) (simp_all only: slice_fields, simp)
  then show ?thesis
    using f32_fields_less(2) [of x] by (simp add: unat_word_ariths significand_def)
qed

lemma half_up: "(k + 1) div 2 = k div 2 + k mod 2" for k :: nat
  by presburger

lemma unat_shift:
  assumes "unat me < 2 ^ 31"
  shows "unat (if k > 31 then 0 else drop_bit (unat k) me) = unat (me :: u32) div 2 ^ unat (k :: u32)"
proof (cases "k > 31")
  case True
  then have "31 \<le> unat k" by (simp add: word_less_nat_alt)
  then have "(2 :: nat) ^ 31 \<le> 2 ^ unat k" by (rule power_increasing) simp
  then show ?thesis using True assms by (simp add: div_less)
qed (simp add: unat_bits)

lemma unat_odd: "(w :: u32) AND 1 \<noteq> 0 \<longleftrightarrow> unat w mod 2 = 1"
proof -
  have "unat (w AND 1) = unat w mod 2" unfolding unsigned_and_eq unsigned_1 by (rule and_one_eq)
  then show ?thesis by (metis unat_0_iff not_mod_2_eq_1_eq_0)
qed

lemma fcvtws_mag_unat:
  assumes "f32_exponent x \<le> 156"
  shows "unat (fcvtws_mag x) = (significand x * 2 ^ 7 div 2 ^ (156 - f32_exponent x) + 1) div 2"
proof -
  define me where "me = push_bit 30 1 + push_bit 7 (slice (to_bits x) 23 1)"
  define sa where "sa = 157 - slice (to_bits x) 31 24"
  define n where "n = 156 - f32_exponent x"
  have me: "unat me = significand x * 2 ^ 7" "unat me < 2 ^ 31"
    using significand_range(2) [of x] unfolding me_def unat_me by simp_all
  have "slice (to_bits x) 31 24 \<le> 157" using assms by (simp add: word_le_nat_alt slice_fields)
  then have sa: "unat sa = n + 1" using assms by (simp add: unat_sub slice_fields n_def sa_def)
  moreover have "1 \<le> sa" using sa by (simp add: word_le_nat_alt)
  ultimately have sai: "unat (sa - 1) = n" by (simp add: unat_sub)
  define mes where "mes = (if sa > 31 then 0 else drop_bit (unat sa) me)"
  define mesi where "mesi = (if sa - 1 > 31 then 0 else drop_bit (unat (sa - 1)) me)"
  have u: "unat mes = unat me div 2 ^ n div 2" "unat mesi = unat me div 2 ^ n"
    using unat_shift [OF me(2), of sa, folded mes_def] unat_shift [OF me(2), of "sa - 1", folded mesi_def] unfolding sa sai
    by (simp_all add: div_mult2_eq [symmetric] mult.commute)
  have "unat mes < 2 ^ 31" using me(2) unfolding u by (metis div_le_dividend le_less_trans)
  then have "unat (if mesi AND 1 \<noteq> 0 then mes + 1 else mes) = unat mesi div 2 + unat mesi mod 2"
    using u by (auto simp: unat_odd unat_word_ariths)
  moreover have "fcvtws_mag x = (if mesi AND 1 \<noteq> 0 then mes + 1 else mes)"
    unfolding fcvtws_mag_def Let_def mes_def mesi_def sa_def me_def by (rule refl)
  ultimately show ?thesis unfolding half_up by (simp only: u me(1) n_def)
qed

lemma round_mag_half_up: "round_mag n = (n div 2 ^ 148 + 1) div 2"
proof -
  have "(2 * n + 2 ^ 149) div 2 ^ 150 = (n + 2 ^ 148) div 2 ^ 148 div 2"
    by (simp add: div_mult2_eq [symmetric])
  then show ?thesis by (simp add: round_mag_def)
qed

lemma fcvtws_mag_rounds:
  assumes "f32_exponent x \<le> 157"
  shows "unat (fcvtws_mag x) = round_mag (f32_mag x)" "unat (fcvtws_mag x) < 2 ^ 31"
proof -
  have *: "unat (fcvtws_mag x) = round_mag (f32_mag x) \<and> unat (fcvtws_mag x) < 2 ^ 31"
  proof (cases "f32_exponent x = 157")
    case True
    have e: "slice (to_bits x) 31 24 = 157"
      using True by (simp add: word_unat_eq_iff slice_fields)
    have "unat (fcvtws_mag x) = significand x * 2 ^ 7"
      unfolding fcvtws_mag_def Let_def e using unat_me [of x] by simp
    moreover have "f32_mag x = significand x * 2 ^ 7 * 2 ^ 149"
      using True by (simp add: f32_mag_def significand_def)
    then have "round_mag (f32_mag x) = significand x * 2 ^ 7" by (simp add: round_mag_def)
    ultimately show ?thesis using significand_range(2) [of x] by simp
  next
    case False
    then have e: "f32_exponent x \<le> 156" using assms by simp
    have div: "significand x * 2 ^ 7 div 2 ^ (156 - f32_exponent x) = f32_mag x div 2 ^ 148"
    proof (cases "f32_exponent x = 0")
      case True
      then show ?thesis
        using f32_fields_less(2) [of x] significand_range(2) [of x] by (simp add: f32_mag_def)
    next
      case False
      let ?k = "2 ^ (f32_exponent x - 1) :: nat"
      have "156 - f32_exponent x + (f32_exponent x - 1) = 155" using e False by simp
      moreover have "(2 :: nat) ^ 148 * 2 ^ 7 = 2 ^ 155" by simp
      ultimately have "2 ^ (156 - f32_exponent x) * ?k = 2 ^ 148 * 2 ^ 7" by (metis power_add)
      moreover have "significand x * 2 ^ 7 * ?k = f32_mag x * 2 ^ 7" using False by (simp add: f32_mag_normal)
      ultimately show ?thesis
        using div_mult_mult2 [of ?k "significand x * 2 ^ 7" "2 ^ (156 - f32_exponent x)"] div_mult_mult2 [of "2 ^ 7" "f32_mag x" "2 ^ 148"] by simp
    qed
    have "significand x * 2 ^ 7 div 2 ^ (156 - f32_exponent x) \<le> significand x * 2 ^ 7" by (rule div_le_dividend)
    then show ?thesis
      using significand_range(2) [of x] unfolding fcvtws_mag_unat [OF e] round_mag_half_up div by simp
  qed
  then show "unat (fcvtws_mag x) = round_mag (f32_mag x)" "unat (fcvtws_mag x) < 2 ^ 31" by simp_all
qed

lemma sint_of_nat_small:
  fixes w :: u32
  assumes "unat w < 2 ^ 31" shows "sint w = int (unat w)" "sint (- w) = - int (unat w)"
proof -
  define k where "k = int (unat w)"
  have k: "w = word_of_int k" "- w = word_of_int (- k)" by (simp_all add: k_def)
  have r: "0 \<le> k" "k < 2 ^ 31"
    using of_nat_less_iff [where 'a = int, of "unat w" "2 ^ 31"] assms unfolding k_def by simp_all
  show "sint w = int (unat w)"
    unfolding k_def [symmetric] using r by (subst k(1)) (simp add: sint_sbintrunc' signed_take_bit_int_eq_self_iff)
  show "sint (- w) = - int (unat w)"
    unfolding k_def [symmetric] k(2) sint_sbintrunc' using r by (simp add: signed_take_bit_int_eq_self_iff)
qed

lemma fcvtws_value:
  assumes "f32_exponent x \<le> 157"
  shows "sint (fcvtws x) = (if f32_sign x then - int (round_mag (f32_mag x)) else int (round_mag (f32_mag x)))"
proof -
  let ?w = "fcvtws_mag x"
  note w = fcvtws_mag_rounds [OF assms]
  have "\<not> bit ?w 31"
  proof
    assume "bit ?w 31"
    then have "unat (drop_bit 31 ?w) = 1" by (simp add: drop_31)
    then show False using w(2) by (simp add: unat_bits)
  qed
  then have "bit (NOT ?w OR push_bit 31 1) n = bit (NOT ?w) n" if "n < 32" for n
    using that unfolding bit_or_iff bit_not_iff bit_push_bit_iff bit_1_iff by (cases "n = 31") auto
  then have "NOT ?w OR push_bit 31 1 = NOT ?w" by (intro bit_word_eqI) simp
  then have "(NOT ?w OR 0x80000000) + 1 = - ?w" by (simp add: minus_eq_not_plus_1)
  then show ?thesis unfolding fcvtws_alt by (simp add: sint_of_nat_small [OF w(2)] w(1))
qed

lemma fcvtws_overflow:
  assumes "157 < f32_exponent x"
  shows "fcvtws x = 0"
proof -
  let ?e = "slice (to_bits x) 31 24"
  have e: "uint ?e = int (f32_exponent x)" unfolding slice_fields(1) [of x, symmetric] by simp
  have neg: "k mod 2 ^ 32 = k + 2 ^ 32" if "- (2 ^ 32) \<le> k" "k < 0" for k :: int
    using mod_add_self2 [of k "2 ^ 32"] mod_pos_pos_trivial [of "k + 2 ^ 32" "2 ^ 32"] that by simp
  have "uint (157 - ?e) = 2 ^ 32 + 157 - int (f32_exponent x)" "uint (156 - ?e) = 2 ^ 32 + 156 - int (f32_exponent x)"
    using assms f32_fields_less(1) [of x] by (simp_all add: uint_word_ariths e neg [simplified])
  then have "31 < 157 - ?e" "31 < 157 - ?e - 1"
    using f32_fields_less(1) [of x] by (simp_all add: word_less_def)
  then have "fcvtws_mag x = 0" by (simp add: fcvtws_mag_def)
  then show ?thesis by (simp add: fcvtws_alt)
qed

section \<open>Conversion from integers\<close>

lemma bit_unat: "bit (w :: u32) n \<longleftrightarrow> odd (unat w div 2 ^ n)"
proof -
  have "bit (unat w) n \<longleftrightarrow> bit w n" by (auto simp: bit_unsigned_iff dest: bit_imp_le_length)
  then show ?thesis by (simp add: bit_iff_odd)
qed

lemma shift_amount_top:
  assumes "w \<noteq> 0" "unat w < 2 ^ (i + 1)"
  obtains k where "k \<le> i" "2 ^ k \<le> unat w" "unat w < 2 ^ (k + 1)" "shift_amount w i = 32 - of_nat k"
  using assms
proof (induction i arbitrary: thesis)
  case 0
  then have "unat w = 1" by (simp add: unat_eq_zero less_2_cases_iff)
  then have "w AND 1 \<noteq> 0" by (simp add: unat_odd)
  then show ?case using 0 \<open>unat w = 1\<close> by (intro 0(1) [of 0]) auto
next
  case (Suc i)
  have b: "w AND push_bit (Suc i) 1 \<noteq> 0 \<longleftrightarrow> bit w (Suc i)"
    by (simp only: push_bit_of_1 and_exp_eq_0_iff_not_bit not_not)
  show ?case
  proof (cases "2 ^ Suc i \<le> unat w")
    case True
    then have "unat w div 2 ^ Suc i = 1"
      using Suc.prems(3) by (intro div_nat_eqI) simp_all
    then have "bit w (Suc i)" unfolding bit_unat by simp
    then show ?thesis using True Suc.prems(3) by (intro Suc.prems(1) [of "Suc i"]) (simp_all only: shift_amount.simps b, simp_all)
  next
    case False
    then have "\<not> bit w (Suc i)" unfolding bit_unat by simp
    then have "shift_amount w (Suc i) = shift_amount w i" by (simp only: shift_amount.simps b if_False)
    moreover have "unat w < 2 ^ (i + 1)" using False by simp
    ultimately show ?thesis using Suc.IH [OF _ Suc.prems(2)] Suc.prems(1) by (metis le_SucI)
  qed
qed

lemma sint_sign_abs:
  fixes x :: u32
  shows "sint x < 0 \<longleftrightarrow> bit x 31" "unat (if 0 \<le> sint x then x else - x) = nat \<bar>sint x\<bar>"
proof -
  have r: "0 \<le> uint x" "uint x < 2 ^ 32" using unsigned_less [where 'a = int, of x] by simp_all
  have s: "sint x = uint x - 2 ^ 32 * of_bool (bit x 31)"
    unfolding sint_uint signed_take_bit_eq_take_bit_minus using r by (simp add: bit_uint_iff take_bit_eq_mod)
  show neg: "sint x < 0 \<longleftrightarrow> bit x 31" using r unfolding s by (cases "bit x 31") simp_all
  show "unat (if 0 \<le> sint x then x else - x) = nat \<bar>sint x\<bar>"
  proof (cases "bit x 31")
    case True
    then have "0 < uint x" by (metis bit_0_eq bot_apply bot_bool_def r(1) order_le_less uint_0_iff)
    then have "uint (- x) = 2 ^ 32 - uint x"
      using mod_add_self2 [of "- uint x" "2 ^ 32"] mod_pos_pos_trivial [of "2 ^ 32 - uint x" "2 ^ 32"] r
      by (simp add: uint_word_ariths)
    moreover have "\<not> 0 \<le> sint x" using neg True by simp
    ultimately show ?thesis unfolding unat_eq_nat_uint s by (simp add: True)
  next
    case False
    then show ?thesis using neg unfolding unat_eq_nat_uint s by simp
  qed
qed

text \<open>The bits below the leading one, moved to the top of the word.\<close>

definition tail_bits :: "nat \<Rightarrow> nat \<Rightarrow> nat" where
  "tail_bits n k = (n - 2 ^ k) * 2 ^ (32 - k)"

lemma tail_bits_less:
  assumes "2 ^ k \<le> n" "n < 2 ^ (k + 1)" "k \<le> 31" shows "tail_bits n k < 2 ^ 32"
proof -
  have "(n - 2 ^ k) * 2 ^ (32 - k) < 2 ^ k * 2 ^ (32 - k)" using assms by (intro mult_strict_right_mono) auto
  also have "\<dots> = 2 ^ 32" using assms(3) by (simp flip: power_add)
  finally show ?thesis by (simp add: tail_bits_def)
qed

lemma shifted_out:
  assumes "2 ^ k \<le> unat w" "unat w < 2 ^ (k + 1)" "1 \<le> k" "k \<le> 31"
  shows "unat (push_bit (32 - k) (w :: u32)) = tail_bits (unat w) k"
proof -
  have "unat (push_bit (32 - k) w) = unat w * 2 ^ (32 - k) mod 2 ^ 32"
    unfolding unsigned_push_bit_eq by (simp add: push_bit_eq_mult take_bit_eq_mod)
  also have "unat w * 2 ^ (32 - k) = tail_bits (unat w) k + 2 ^ 32"
  proof -
    have "2 ^ k * 2 ^ (32 - k) = (2 :: nat) ^ 32" using assms(4) by (simp flip: power_add)
    then show ?thesis
      using mult_le_mono1 [OF assms(1), of "2 ^ (32 - k)"] by (simp add: tail_bits_def diff_mult_distrib)
  qed
  finally show ?thesis using tail_bits_less [OF assms(1,2,4)] by simp
qed

lemma fcvtsw_fields:
  fixes x :: u32
  defines "n \<equiv> nat \<bar>sint x\<bar>"
  assumes k: "2 ^ k \<le> n" "n < 2 ^ (k + 1)" "k \<le> 31"
  shows "f32_sign (fcvtsw x) = (sint x < 0)"
    "f32_mag (fcvtsw x) = (2 ^ 23 + (tail_bits n k div 2 ^ 8 + 1) div 2) * 2 ^ (126 + k)"
proof -
  define w where "w = (if 0 \<le> sint x then x else - x)"
  define sa where "sa = shift_amount w 31"
  define xs where "xs = (if sa = 32 then 0 else push_bit (unat sa) w)"
  define up where "up \<longleftrightarrow> drop_bit 9 xs = 0x7FFFFF \<and> slice xs 9 9 \<noteq> 0"
  define ey where "ey = (if sa = 0 then 0 else if up then 127 - sa + 33 else 127 - sa + 32)"
  define my where "my = slice (drop_bit 9 xs + slice xs 9 9) 23 1"
  have w: "unat w = n" unfolding w_def n_def by (rule sint_sign_abs)
  have "w \<noteq> 0" using k(1) w by (metis not_le unat_0 zero_less_numeral zero_less_power)
  moreover have "unat w < 2 ^ (31 + 1)" using unsigned_less [where 'a = nat, of w] by simp
  ultimately obtain k' where k': "2 ^ k' \<le> n" "n < 2 ^ (k' + 1)" "sa = 32 - of_nat k'"
    unfolding sa_def w [symmetric] by (rule shift_amount_top)
  have "(2 :: nat) ^ k < 2 ^ (k' + 1)" "(2 :: nat) ^ k' < 2 ^ (k + 1)" using k k' by linarith+
  then have "k' = k" by (simp add: power_less_imp_less_exp less_Suc_eq_le del: power_Suc)
  then have sa: "sa = 32 - of_nat k" using k'(3) by simp
  have uk: "unat (of_nat k :: u32) = k" using k(3) by (simp add: unat_of_nat)
  then have usa: "unat sa = 32 - k" using k(3) unfolding sa by (subst unat_sub) (simp_all add: word_le_nat_alt)
  have xs: "unat xs = tail_bits n k"
  proof (cases "k = 0")
    case True
    then show ?thesis using k by (simp add: xs_def sa tail_bits_def)
  next
    case False
    then have "sa \<noteq> 32" using usa k(3) by (auto simp: word_unat_eq_iff)
    then show ?thesis using shifted_out [of k w] False k by (simp add: xs_def usa w)
  qed
  define top where "top = tail_bits n k div 2 ^ 9"
  define rb where "rb = tail_bits n k div 2 ^ 8 mod 2"
  have "unat (drop_bit 9 xs) = top" "unat (slice xs 9 9) = rb" "top < 2 ^ 23" "rb < 2"
    using tail_bits_less [OF k] by (simp_all add: unat_bits unat_slice xs top_def rb_def less_mult_imp_div_less)
  note parts = this
  have sum: "top + rb = (tail_bits n k div 2 ^ 8 + 1) div 2"
    unfolding half_up top_def rb_def by (simp add: div_mult2_eq [symmetric])
  have up: "up \<longleftrightarrow> top + rb = 2 ^ 23" unfolding up_def using parts by (auto simp: word_unat_eq_iff)
  have my: "unat my = (top + rb) mod 2 ^ 23" using parts by (simp add: my_def unat_slice unat_word_ariths)
  have "sa \<noteq> 0" using usa k(3) by (auto simp: word_unat_eq_iff)
  then have "ey = (if up then 128 + of_nat k else 127 + of_nat k)" by (simp add: ey_def sa)
  then have ey: "unat ey = (if up then 128 + k else 127 + k)" using k(3) by (simp add: unat_word_ariths uk)
  have y: "fcvtsw x = Bits (mkfloat (of_bool (sint x < 0)) ey my)"
    unfolding fcvtsw_def Let_def drop_31 sint_sign_abs(1) ey_def my_def up_def xs_def sa_def w_def by (rule refl)
  have "unat ey < 2 ^ 8" "unat my < 2 ^ 23" using k(3) unfolding ey my by simp_all
  note f = mkfloat_fields [OF this y]
  show "f32_sign (fcvtsw x) = (sint x < 0)" by (rule f)
  show "f32_mag (fcvtsw x) = (2 ^ 23 + (tail_bits n k div 2 ^ 8 + 1) div 2) * 2 ^ (126 + k)"
  proof (cases up)
    case True
    then have "f32_mag (fcvtsw x) = 2 ^ 23 * 2 ^ (127 + k)" using up by (simp add: f32_mag_def f ey my)
    moreover have "(2 :: nat) ^ (127 + k) = 2 * 2 ^ (126 + k)" using power_Suc [of "2 :: nat" "126 + k"] by simp
    ultimately show ?thesis using True up unfolding sum [symmetric] by simp
  next
    case False
    then have "top + rb < 2 ^ 23" using up parts by simp
    then have "unat my = top + rb" unfolding my by simp
    then show ?thesis using False unfolding sum [symmetric] by (simp add: f32_mag_def f(2,3) ey add.commute)
  qed
qed

lemma fcvtsw_zero: "fcvtsw 0 = f32_zero"
proof -
  have "shift_amount 0 i = 0" for i by (induction i) simp_all
  then show ?thesis by (simp add: fcvtsw_def slice_def mkfloat_def f32_zero_def)
qed

lemma top_bit_exists:
  assumes "0 < (n :: nat)" obtains k where "2 ^ k \<le> n" "n < 2 ^ (k + 1)"
  using ex_power_ivl1 [of 2 n] assms that by auto

lemma abs_sint_le: "nat \<bar>sint (x :: u32)\<bar> \<le> 2 ^ 31"
  using sint_range_size [of x] by (auto simp: word_size abs_if)

lemma top_bit_bound: "2 ^ k \<le> nat \<bar>sint (x :: u32)\<bar> \<Longrightarrow> k \<le> 31"
  using abs_sint_le [of x] by (meson le_trans one_less_numeral_iff power_le_imp_le_exp semiring_norm(76))

lemma power_split:
  fixes a :: "'a :: monoid_mult"
  shows "i + j = m \<Longrightarrow> a ^ i * a ^ j = a ^ m" "i + j = l + m \<Longrightarrow> a ^ i * a ^ j = a ^ l * a ^ m"
  by (metis power_add)+

lemma split_at_top_bit:
  assumes "2 ^ k \<le> n" "k \<le> 31"
  shows "n * 2 ^ 149 = (2 ^ 32 + tail_bits n k) * 2 ^ (117 + k)"
proof -
  have "(2 :: nat) ^ (32 - k) * 2 ^ (117 + k) = 2 ^ 149" using assms(2) by (intro power_split) simp
  then have "tail_bits n k * 2 ^ (117 + k) = (n - 2 ^ k) * 2 ^ 149" by (simp only: tail_bits_def mult.assoc)
  moreover have "(2 :: nat) ^ 32 * 2 ^ (117 + k) = 2 ^ k * 2 ^ 149" by (rule power_split) simp
  moreover have "n * 2 ^ 149 = 2 ^ k * 2 ^ 149 + (n - 2 ^ k) * 2 ^ 149"
    using assms(1) by (metis add_mult_distrib le_add_diff_inverse)
  ultimately show ?thesis by (simp only: add_mult_distrib)
qed

lemma round_9: "2 * \<bar>int ((F div 2 ^ 8 + 1) div 2 * 2 ^ 9) - int F\<bar> \<le> 2 ^ 9"
proof -
  define a b r where "a = F div 2 ^ 8 div 2" and "b = F div 2 ^ 8 mod 2" and "r = F mod 2 ^ 8"
  have "F = F div 2 ^ 8 * 2 ^ 8 + r" "F div 2 ^ 8 = a * 2 + b"
    unfolding a_def b_def r_def by (simp_all only: div_mult_mod_eq)
  then have F: "int F = int a * 512 + int b * 256 + int r" by simp
  have "r < 256" "b < 2" unfolding b_def r_def by simp_all
  then show ?thesis unfolding F half_up a_def [symmetric] b_def [symmetric] by (auto simp: abs_if)
qed

lemma fcvtsw_error:
  fixes x :: u32
  defines "n \<equiv> nat \<bar>sint x\<bar>"
  assumes k: "2 ^ k \<le> n" "n < 2 ^ (k + 1)"
  shows "2 * \<bar>int (f32_mag (fcvtsw x)) - int (n * 2 ^ 149)\<bar> \<le> 2 ^ (126 + k)"
    "k \<le> 23 \<Longrightarrow> f32_mag (fcvtsw x) = n * 2 ^ 149"
    "2 ^ (126 + k) dvd f32_mag (fcvtsw x)"
proof -
  let ?F = "tail_bits n k"
  let ?A = "(?F div 2 ^ 8 + 1) div 2"
  have k31: "k \<le> 31" using top_bit_bound k(1) unfolding n_def by blast
  have mag: "f32_mag (fcvtsw x) = (2 ^ 23 + ?A) * 2 ^ (126 + k)"
    using fcvtsw_fields(2) k k31 unfolding n_def by blast
  then show "2 ^ (126 + k) dvd f32_mag (fcvtsw x)" by simp
  have "(2 :: nat) ^ (126 + k) = 2 ^ 9 * 2 ^ (117 + k)" by (rule power_split(1) [symmetric]) simp
  then have mag': "f32_mag (fcvtsw x) = (2 ^ 32 + ?A * 2 ^ 9) * 2 ^ (117 + k)"
    unfolding mag by (simp add: algebra_simps)
  note n = split_at_top_bit [OF k(1) k31]
  show "f32_mag (fcvtsw x) = n * 2 ^ 149" if "k \<le> 23"
  proof -
    have "(2 :: nat) ^ (23 - k) * 2 ^ 9 = 2 ^ (32 - k)" using that by (intro power_split) simp
    then have "?F = (n - 2 ^ k) * 2 ^ (23 - k) * 2 ^ 9" by (simp only: tail_bits_def mult.assoc)
    then have "?A * 2 ^ 9 = ?F" by simp
    then show ?thesis unfolding mag' n by simp
  qed
  have "int (f32_mag (fcvtsw x)) - int (n * 2 ^ 149) = (int (?A * 2 ^ 9) - int ?F) * 2 ^ (117 + k)"
    unfolding mag' n by (simp add: algebra_simps)
  then have "2 * \<bar>int (f32_mag (fcvtsw x)) - int (n * 2 ^ 149)\<bar> = 2 * \<bar>int (?A * 2 ^ 9) - int ?F\<bar> * 2 ^ (117 + k)"
    by (simp add: abs_mult)
  also have "\<dots> \<le> 2 ^ 9 * 2 ^ (117 + k)" by (rule mult_right_mono [OF round_9]) simp
  also have "\<dots> = 2 ^ (126 + k)" by (rule power_split) simp
  finally show "2 * \<bar>int (f32_mag (fcvtsw x)) - int (n * 2 ^ 149)\<bar> \<le> 2 ^ (126 + k)" .
qed

lemma mag_multiple:
  assumes "2 ^ (j + 23) \<le> f32_mag y" shows "2 ^ j dvd f32_mag y"
proof (cases "f32_exponent y = 0")
  case True
  then have "f32_mag y < 2 ^ 23" using f32_fields_less(2) [of y] by (simp add: f32_mag_def)
  moreover have "(2 :: nat) ^ 23 \<le> 2 ^ (j + 23)" by (rule power_increasing) simp_all
  ultimately show ?thesis using assms by linarith
next
  case False
  let ?e = "f32_exponent y - 1"
  have mag: "f32_mag y = significand y * 2 ^ ?e" using False by (simp add: f32_mag_normal)
  have "significand y * 2 ^ ?e < 2 ^ 24 * 2 ^ ?e"
    using significand_range(2) [of y] by (intro mult_strict_right_mono) simp_all
  with assms have "2 ^ (j + 23) < (2 :: nat) ^ 24 * 2 ^ ?e" unfolding mag by (rule le_less_trans)
  also have "\<dots> = 2 ^ (24 + ?e)" by (rule power_split) simp
  finally have "j \<le> ?e" by (simp add: power_less_imp_less_exp del: power_add)
  then show ?thesis unfolding mag by (simp add: le_imp_power_dvd dvd_mult)
qed

text \<open>A multiple of \<open>U\<close> within half of \<open>U\<close> is the nearest one.\<close>

lemma nearest_multiple:
  fixes a b U V :: int
  assumes "2 * \<bar>a * U - V\<bar> \<le> U" "0 < U" shows "\<bar>a * U - V\<bar> \<le> \<bar>b * U - V\<bar>"
proof (cases "a = b")
  case False
  then have "1 \<le> \<bar>a - b\<bar>" by simp
  then have "U \<le> \<bar>a * U - b * U\<bar>"
    using mult_right_mono [of 1 "\<bar>a - b\<bar>" U] assms(2) by (simp add: abs_mult flip: left_diff_distrib)
  also have "\<dots> \<le> \<bar>a * U - V\<bar> + \<bar>b * U - V\<bar>" using abs_triangle_ineq4 [of "a * U - V" "b * U - V"] by simp
  finally have "U \<le> \<bar>a * U - V\<bar> + \<bar>b * U - V\<bar>" .
  moreover have "p \<le> q" if "U \<le> p + q" "2 * p \<le> U" for p q :: int using that by linarith
  ultimately show ?thesis using assms(1) by blast
qed simp

lemma fcvtsw_mag_nearest:
  fixes x :: u32 and y :: f32
  assumes "sint x \<noteq> 0"
  shows "\<bar>int (f32_mag (fcvtsw x)) - \<bar>sint x\<bar> * 2 ^ 149\<bar> \<le> \<bar>int (f32_mag y) - \<bar>sint x\<bar> * 2 ^ 149\<bar>"
proof -
  define n where "n = nat \<bar>sint x\<bar>"
  obtain k where k: "2 ^ k \<le> n" "n < 2 ^ (k + 1)" using top_bit_exists [of n] assms unfolding n_def by auto
  define U where "U = (2 :: int) ^ (126 + k)"
  define V where "V = int (n * 2 ^ 149)"
  have V: "V = \<bar>sint x\<bar> * 2 ^ 149" by (simp add: V_def n_def)
  note err = fcvtsw_error [OF k [unfolded n_def]]
  obtain a where a: "int (f32_mag (fcvtsw x)) = int a * U"
    using err(3) unfolding U_def by (metis dvd_def mult.commute of_nat_mult of_nat_numeral of_nat_power)
  have "2 * \<bar>int a * U - V\<bar> \<le> U" using err(1) unfolding a V_def n_def [symmetric] U_def [symmetric] .
  then have near: "\<bar>int a * U - V\<bar> \<le> \<bar>b * U - V\<bar>" for b by (rule nearest_multiple) (simp add: U_def)
  have U: "2 ^ 23 * U = int (2 ^ (149 + k))" unfolding U_def of_nat_power of_nat_numeral by (rule power_split) simp
  have "2 ^ (149 + k) \<le> n * 2 ^ 149"
    using mult_le_mono1 [OF k(1), of "2 ^ 149"] unfolding power_split(1) [OF add.commute [of k 149], of 2] .
  then have low: "2 ^ 23 * U \<le> V" unfolding U V_def by (simp only: of_nat_le_iff)
  show ?thesis unfolding V [symmetric] a
  proof (cases "2 ^ (126 + k + 23) \<le> f32_mag y")
    case True
    then obtain b where "int (f32_mag y) = int b * U"
      using mag_multiple unfolding U_def by (metis dvd_def mult.commute of_nat_mult of_nat_numeral of_nat_power)
    then show "\<bar>int a * U - V\<bar> \<le> \<bar>int (f32_mag y) - V\<bar>" using near by simp
  next
    case False
    then have "f32_mag y < 2 ^ (149 + k)" by (simp add: add.commute)
    then have "int (f32_mag y) < 2 ^ 23 * U" unfolding U by (simp only: of_nat_less_iff)
    then show "\<bar>int a * U - V\<bar> \<le> \<bar>int (f32_mag y) - V\<bar>" using near [of "2 ^ 23"] low by linarith
  qed
qed

lemma fcvtsw_sign: "sint x \<noteq> 0 \<Longrightarrow> f32_sign (fcvtsw x) = (sint x < 0)"
  using top_bit_exists [of "nat \<bar>sint x\<bar>"] fcvtsw_fields(1) top_bit_bound by (metis abs_eq_0 abs_ge_zero nat_0_iff neq0_conv order_antisym)

lemma fcvtsw_zero_mag: "sint x = 0 \<Longrightarrow> f32_mag (fcvtsw x) = 0"
  by (simp add: signed_eq_0_iff fcvtsw_zero f32_mag_def f32_zero_def f32_exponent_def f32_mantissa_def)

lemma fcvtsw_int:
  "f32_int (fcvtsw x) = (if sint x < 0 then - int (f32_mag (fcvtsw x)) else int (f32_mag (fcvtsw x)))"
  by (cases "sint x = 0") (simp_all add: f32_int_def fcvtsw_sign fcvtsw_zero_mag)

lemma abs_f32_int: "\<bar>f32_int y\<bar> = int (f32_mag y)"
  by (simp add: f32_int_def)

lemma fcvtsw_nearest_float:
  "\<bar>f32_int (fcvtsw x) - sint x * 2 ^ 149\<bar> \<le> \<bar>f32_int y - sint x * 2 ^ 149\<bar>"
proof (cases "sint x = 0")
  case True
  then show ?thesis by (simp add: f32_int_def fcvtsw_zero_mag)
next
  case False
  have "\<bar>f32_int (fcvtsw x) - sint x * 2 ^ 149\<bar> = \<bar>int (f32_mag (fcvtsw x)) - \<bar>sint x\<bar> * 2 ^ 149\<bar>"
    unfolding fcvtsw_int by (simp add: abs_if)
  also have "\<dots> \<le> \<bar>int (f32_mag y) - \<bar>sint x\<bar> * 2 ^ 149\<bar>" using False by (rule fcvtsw_mag_nearest)
  also have "\<dots> \<le> \<bar>f32_int y - sint x * 2 ^ 149\<bar>"
    using abs_triangle_ineq3 [of "f32_int y" "sint x * 2 ^ 149"] by (simp add: abs_f32_int abs_mult)
  finally show ?thesis .
qed

text \<open>An integer that a float represents is converted exactly.\<close>

lemma fcvtsw_representable: "f32_int y = sint x * 2 ^ 149 \<Longrightarrow> f32_int (fcvtsw x) = sint x * 2 ^ 149"
  using fcvtsw_nearest_float [of x y] by simp

lemma fcvtsw_exact:
  assumes "\<bar>sint x\<bar> < 2 ^ 24" shows "f32_int (fcvtsw x) = sint x * 2 ^ 149"
proof (cases "sint x = 0")
  case True
  then show ?thesis by (simp add: f32_int_def fcvtsw_zero_mag)
next
  case False
  then obtain k where k: "2 ^ k \<le> nat \<bar>sint x\<bar>" "nat \<bar>sint x\<bar> < 2 ^ (k + 1)"
    using top_bit_exists [of "nat \<bar>sint x\<bar>"] by auto
  have "nat \<bar>sint x\<bar> < 2 ^ 24" using assms by simp
  then have "(2 :: nat) ^ k < 2 ^ 24" using k(1) by linarith
  then have "k < 24" by (rule power_less_imp_less_exp [rotated]) simp
  then have "k \<le> 23" by simp
  then have "f32_mag (fcvtsw x) = nat \<bar>sint x\<bar> * 2 ^ 149" using fcvtsw_error(2) [OF k] by simp
  then show ?thesis unfolding fcvtsw_int by simp
qed

section \<open>Floor\<close>

lemma exponent_bound:
  assumes "f32_mag y < 2 ^ (j + 23)" shows "f32_exponent y \<le> j"
proof (cases "f32_exponent y = 0")
  case False
  then have "2 ^ 23 * 2 ^ (f32_exponent y - 1) \<le> f32_mag y"
    using significand_range(1) [of y] by (simp add: f32_mag_normal)
  moreover have "(2 :: nat) ^ 23 * 2 ^ (f32_exponent y - 1) = 2 ^ (f32_exponent y + 22)"
    using False by (intro power_split) simp
  ultimately have "(2 :: nat) ^ (f32_exponent y + 22) < 2 ^ (j + 23)" using assms by linarith
  then have "f32_exponent y + 22 < j + 23" by (rule power_less_imp_less_exp [rotated]) simp
  then show ?thesis by simp
qed simp

lemma round_mag_int: "round_mag (n * 2 ^ 149) = n"
  by (simp add: round_mag_def)

lemma round_mag_near: "2 * \<bar>int (round_mag m) * 2 ^ 149 - int m\<bar> \<le> 2 ^ 149"
proof -
  define q where "q = round_mag m"
  have "2 * m + 2 ^ 149 = q * 2 ^ 150 + (2 * m + 2 ^ 149) mod 2 ^ 150" "(2 * m + 2 ^ 149) mod 2 ^ 150 < 2 ^ 150"
    unfolding q_def round_mag_def by (simp_all only: div_mult_mod_eq mod_less_divisor zero_less_power zero_less_numeral)
  then have "q * 2 ^ 150 \<le> 2 * m + 2 ^ 149" "2 * m + 2 ^ 149 < q * 2 ^ 150 + 2 ^ 150" by linarith+
  then show ?thesis unfolding q_def [symmetric] by (simp add: abs_if)
qed

lemma bit_length_top: "2 ^ k \<le> n \<Longrightarrow> n < 2 ^ (k + 1) \<Longrightarrow> bit_length n = k + 1"
proof (induction k arbitrary: n)
  case 0
  then have "n = 1" by simp
  then show ?case by (simp add: bit_length.simps)
next
  case (Suc k)
  then have "2 ^ k \<le> n div 2" "n div 2 < 2 ^ (k + 1)" "n \<noteq> 0" by auto
  then show ?case using Suc.IH [of "n div 2"] by (simp add: bit_length.simps [of n])
qed

lemma f32_make_fields:
  assumes "m < 2 ^ 31"
  shows "f32_sign (f32_make s m) = s" "f32_exponent (f32_make s m) = m div 2 ^ 23" "f32_mantissa (f32_make s m) = m mod 2 ^ 23"
proof -
  define e f where "e = (of_nat (m div 2 ^ 23) :: u32)" and "f = (of_nat (m mod 2 ^ 23) :: u32)"
  have "m div 2 ^ 23 < 2 ^ 8" using assms by (simp add: less_mult_imp_div_less)
  then have u: "unat e = m div 2 ^ 23" "unat f = m mod 2 ^ 23" "unat e < 2 ^ 8" "unat f < 2 ^ 23"
    unfolding e_def f_def by (simp_all add: unat_of_nat)
  have "unat (mkfloat (of_bool s) e f) = m + (if s then 2 ^ 31 else 0)"
    unfolding unat_mkfloat [OF u(3,4)] u(1,2) by simp
  then have "f32_make s m = Bits (word_of_nat (unat (mkfloat (of_bool s) e f)))" by (simp only: f32_make_def)
  then have "f32_make s m = Bits (mkfloat (of_bool s) e f)" by simp
  from mkfloat_fields [OF u(3,4) this] show
    "f32_sign (f32_make s m) = s" "f32_exponent (f32_make s m) = m div 2 ^ 23" "f32_mantissa (f32_make s m) = m mod 2 ^ 23"
    unfolding u by blast+
qed

lemma round_bits_int:
  assumes "0 < p" "p < 2 ^ 24"
  shows "round_bits 0 (p * 2 ^ 149) < 2 ^ 31" "f32_mag (f32_make s (round_bits 0 (p * 2 ^ 149))) = p * 2 ^ 149"
proof -
  obtain k where k: "2 ^ k \<le> p" "p < 2 ^ (k + 1)" using top_bit_exists [OF assms(1)] by blast
  have "(2 :: nat) ^ k < 2 ^ 24" using k(1) assms(2) by linarith
  then have k24: "k < 24" by (rule power_less_imp_less_exp [rotated]) simp
  define q where "q = p * 2 ^ (23 - k)"
  have "2 ^ k * 2 ^ (23 - k) \<le> q" "q < 2 ^ (k + 1) * 2 ^ (23 - k)"
    unfolding q_def using k by (auto intro: mult_le_mono1 mult_strict_right_mono)
  moreover have "(2 :: nat) ^ k * 2 ^ (23 - k) = 2 ^ 23" "(2 :: nat) ^ (k + 1) * 2 ^ (23 - k) = 2 ^ 24"
    using k24 by (intro power_split; simp)+
  ultimately have q: "2 ^ 23 \<le> q" "q < 2 ^ 24" by simp_all
  have "(2 :: nat) ^ (23 - k) * 2 ^ (126 + k) = 2 ^ 149" using k24 by (intro power_split) simp
  then have n: "p * 2 ^ 149 = q * 2 ^ (126 + k)" unfolding q_def by (simp only: mult.assoc)
  have "2 ^ (149 + k) \<le> p * 2 ^ 149" "p * 2 ^ 149 < 2 ^ (149 + k + 1)"
    using mult_le_mono1 [OF k(1), of "2 ^ 149"] mult_strict_right_mono [OF k(2), of "2 ^ 149"]
      power_split(1) [of k 149 "149 + k" "2 :: nat"] power_split(1) [of "k + 1" 149 "149 + k + 1" "2 :: nat"] by simp_all
  then have "bit_length (p * 2 ^ 149) = 150 + k" using bit_length_top [of "149 + k"] by simp
  moreover have "round_half_even (q * 2 ^ (126 + k)) (126 + k) = q" by (simp add: round_half_even_def)
  ultimately have r: "round_bits 0 (p * 2 ^ 149) = (126 + k) * 2 ^ 23 + q"
    using q k24 unfolding n by (simp add: round_bits_def max_def min_def)
  then show less: "round_bits 0 (p * 2 ^ 149) < 2 ^ 31" using q k24 by simp
  have "(126 + k) * 2 ^ 23 + q = (127 + k) * 2 ^ 23 + (q - 2 ^ 23)" using q by simp
  note r' = r [unfolded this]
  have "q - 2 ^ 23 < 2 ^ 23" using q by simp
  then have "round_bits 0 (p * 2 ^ 149) div 2 ^ 23 = 127 + k" "round_bits 0 (p * 2 ^ 149) mod 2 ^ 23 = q - 2 ^ 23"
    unfolding r' by (simp_all only: mod_mult_self3 mod_less div_mult_self3 [OF power_not_zero [OF zero_neq_numeral [symmetric]]] div_less add_0_right)
  note f = f32_make_fields [OF less, unfolded this]
  have "f32_mag (f32_make s (round_bits 0 (p * 2 ^ 149))) = q * 2 ^ (126 + k)"
    unfolding f32_mag_def f using q(1) by simp
  then show "f32_mag (f32_make s (round_bits 0 (p * 2 ^ 149))) = p * 2 ^ 149" by (simp only: n)
qed

lemma f32_sub_one_exact:
  assumes "f32_int a = j * 2 ^ 149" "\<bar>j\<bar> < 2 ^ 24 - 1" "f32_exponent a < 255"
  shows "f32_int (f32_sub a f32_one) = (j - 1) * 2 ^ 149"
proof -
  have one: "f32_int (f32_neg f32_one) = - (2 ^ 149)" "\<not> f32_is_nan (f32_neg f32_one)" "\<not> f32_is_inf (f32_neg f32_one)"
  proof -
    have "f32_exponent f32_one = 127" "f32_mantissa f32_one = 0" "\<not> f32_sign f32_one"
      by (simp_all add: f32_fields_nat f32_sign_def f32_one_def bit_unat)
    then show "f32_int (f32_neg f32_one) = - (2 ^ 149)" "\<not> f32_is_nan (f32_neg f32_one)" "\<not> f32_is_inf (f32_neg f32_one)"
      by (simp_all add: f32_int_def f32_mag_def f32_is_nan_def f32_is_inf_def)
  qed
  have a: "\<not> f32_is_nan a" "\<not> f32_is_inf a" using assms(3) by (simp_all add: f32_is_nan_def f32_is_inf_def)
  define t where "t = j - 1"
  have s: "f32_int a + f32_int (f32_neg f32_one) = t * 2 ^ 149" unfolding one assms(1) t_def by (simp add: algebra_simps)
  have "f32_sub a f32_one = (if t = 0 then f32_make (f32_sign a \<and> f32_sign (f32_neg f32_one)) 0
      else f32_make (t < 0) (round_bits 0 (nat \<bar>t\<bar> * 2 ^ 149)))"
    unfolding f32_sub_def f32_add_def s Let_def using a one(2,3) by (simp add: mult_less_0_iff abs_mult nat_mult_distrib)
  moreover have "nat \<bar>t\<bar> < 2 ^ 24" using assms(2) unfolding t_def by simp
  ultimately show ?thesis
    unfolding t_def [symmetric] using f32_make_fields(1) [OF round_bits_int(1)] round_bits_int(2) f32_make_fields [of 0]
    by (cases "t = 0") (simp_all add: f32_int_def f32_mag_def)
qed

lemma not_nan: "f32_exponent x < 255 \<Longrightarrow> \<not> f32_is_nan x"
  by (simp add: f32_is_nan_def)

text \<open>Floor from the nearest integer.\<close>

lemma floor_from_nearest:
  fixes v i K :: int
  assumes "2 * \<bar>i * K - v\<bar> \<le> K" "0 < K"
  shows "v div K = (if i * K \<le> v then i else i - 1)"
proof -
  define d where "d = v - i * K"
  have v: "v = d + i * K" by (simp add: d_def)
  have d: "2 * \<bar>d\<bar> \<le> K" using assms(1) by (simp add: d_def abs_minus_commute)
  then have "d div K = (if 0 \<le> d then 0 else - 1)"
    using assms(2) div_pos_pos_trivial [of d K] div_pos_neg_trivial [of d K] div_pos_pos_trivial [of "d + K" K] div_add_self2 [of K d] by auto
  then show ?thesis unfolding v using assms(2) by simp
qed

lemma fcvtws_near:
  assumes "f32_exponent x \<le> 157"
  shows "2 * \<bar>sint (fcvtws x) * 2 ^ 149 - f32_int x\<bar> \<le> 2 ^ 149"
  using round_mag_near [of "f32_mag x"] unfolding fcvtws_value [OF assms] by (simp add: f32_int_def abs_if split: if_splits)

lemma fcvtws_of_integer:
  assumes "2 ^ 149 dvd f32_mag x" "f32_exponent x \<le> 157" shows "f32_int x = sint (fcvtws x) * 2 ^ 149"
proof -
  obtain q where q: "f32_mag x = q * 2 ^ 149" using assms(1) by (metis dvd_def mult.commute)
  then show ?thesis unfolding fcvtws_value [OF assms(2)] q round_mag_int by (simp add: f32_int_def q)
qed

lemma fcvtsw_fcvtws_exact:
  assumes e: "f32_exponent x \<le> 157"
  shows "f32_int (fcvtsw (fcvtws x)) = sint (fcvtws x) * 2 ^ 149"
    "f32_exponent (fcvtsw (fcvtws x)) < 255"
    "\<not> 2 ^ 149 dvd f32_mag x \<Longrightarrow> \<bar>sint (fcvtws x)\<bar> < 2 ^ 24 - 1"
proof -
  let ?i = "fcvtws x"
  have abs: "\<bar>sint ?i\<bar> = int (round_mag (f32_mag x))" unfolding fcvtws_value [OF e] by simp
  show small: "\<bar>sint ?i\<bar> < 2 ^ 24 - 1" if nd: "\<not> 2 ^ 149 dvd f32_mag x"
  proof -
    have "\<not> 2 ^ (149 + 23) \<le> f32_mag x" using nd mag_multiple [of 149] by blast
    then have "f32_mag x div 2 ^ 148 < 2 ^ 24" by (intro less_mult_imp_div_less) simp
    then show ?thesis unfolding abs round_mag_half_up by simp
  qed
  show int: "f32_int (fcvtsw ?i) = sint ?i * 2 ^ 149"
  proof (cases "2 ^ 149 dvd f32_mag x")
    case True
    then show ?thesis using fcvtws_of_integer [OF _ e] by (intro fcvtsw_representable)
  next
    case False
    then show ?thesis using small by (intro fcvtsw_exact) simp
  qed
  have "int (f32_mag (fcvtsw ?i)) = \<bar>sint ?i\<bar> * 2 ^ 149" unfolding abs_f32_int [symmetric] int by (simp add: abs_mult)
  also have "\<dots> \<le> 2 ^ 31 * 2 ^ 149" using abs_sint_le [of ?i] by (intro mult_right_mono) simp_all
  finally have "f32_mag (fcvtsw ?i) < 2 ^ (158 + 23)" by simp
  then show "f32_exponent (fcvtsw ?i) < 255" using exponent_bound [of "fcvtsw ?i" 158] by simp
qed

lemma ffloor_value: "f32_int (ffloor x) = f32_int x div 2 ^ 149 * 2 ^ 149"
proof (cases "f32_exponent x \<le> 157")
  case False
  then have "ffloor x = x" by (simp add: ffloor_def word_less_nat_alt slice_fields)
  moreover have "2 ^ 149 dvd (2 :: int) ^ (f32_exponent x - 1)" using False by (intro le_imp_power_dvd) simp
  then have "2 ^ 149 dvd f32_int x" using False by (simp add: f32_int_def f32_mag_def dvd_mult)
  ultimately show ?thesis by simp
next
  case True
  let ?i = "fcvtws x" and ?y = "fcvtsw (fcvtws x)"
  note y = fcvtsw_fcvtws_exact [OF True]
  have ge: "f32_ge x ?y \<longleftrightarrow> sint ?i * 2 ^ 149 \<le> f32_int x"
    using True y(2) by (simp add: f32_ge_def not_nan y(1))
  have f: "ffloor x = (if f32_ge x ?y then ?y else f32_sub ?y f32_one)"
    using True by (simp add: ffloor_def word_less_nat_alt slice_fields)
  have d: "f32_int x div 2 ^ 149 = (if sint ?i * 2 ^ 149 \<le> f32_int x then sint ?i else sint ?i - 1)"
    by (rule floor_from_nearest [OF fcvtws_near [OF True]]) simp
  show ?thesis
  proof (cases "sint ?i * 2 ^ 149 \<le> f32_int x")
    case le: True
    then show ?thesis unfolding f ge d by (simp add: y(1))
  next
    case lt: False
    then have "\<not> 2 ^ 149 dvd f32_mag x" using fcvtws_of_integer [OF _ True] by auto
    then have "f32_int (f32_sub ?y f32_one) = (sint ?i - 1) * 2 ^ 149" using y by (intro f32_sub_one_exact)
    then show ?thesis unfolding f ge d using lt by simp
  qed
qed

lemma fcvt_roundtrip:
  assumes "\<bar>sint x\<bar> < 2 ^ 24" shows "fcvtws (fcvtsw x) = x"
proof -
  let ?y = "fcvtsw x"
  have int: "f32_int ?y = sint x * 2 ^ 149" by (rule fcvtsw_exact [OF assms])
  then have "int (f32_mag ?y) = \<bar>sint x\<bar> * 2 ^ 149" unfolding abs_f32_int [symmetric] by (simp add: abs_mult)
  then have "int (f32_mag ?y) = int (nat \<bar>sint x\<bar> * 2 ^ 149)" by simp
  then have mag: "f32_mag ?y = nat \<bar>sint x\<bar> * 2 ^ 149" by (simp only: of_nat_eq_iff)
  then have "f32_mag ?y < 2 ^ (150 + 23)" using assms by simp
  then have e: "f32_exponent ?y \<le> 157" using exponent_bound [of ?y 150] by simp
  have "sint (fcvtws ?y) = sint x"
    unfolding fcvtws_value [OF e] mag round_mag_int using fcvtsw_sign [of x] by (cases "sint x = 0") simp_all
  then show ?thesis by (simp add: signed_word_eqI)
qed

section \<open>What the unit promises\<close>

text \<open>
  C36. Multiplication: for normal operands whose product is well inside the range, the sign is right
  and the result is within \<open>2\<close> to the power \<open>-23\<close> of the exact product, relatively (the test
  suite of the unit asks for \<open>-22\<close>); the operation is commutative. A zero operand does not give
  zero when the other one is at least two: the result is then a power of two.
\<close>

theorem fmul_accuracy:
  "fmul x y = fmul y x
    \<and> (1 \<le> f32_exponent x \<and> 1 \<le> f32_exponent y \<and> f32_exponent x + f32_exponent y \<in> {128..<382} \<longrightarrow>
        f32_sign (fmul x y) = (f32_sign x \<noteq> f32_sign y)
        \<and> 2 ^ 23 * \<bar>f32_int (fmul x y) * 2 ^ 149 - f32_int x * f32_int y\<bar> \<le> \<bar>f32_int x * f32_int y\<bar>)
    \<and> (f32_exponent x = 0 \<and> 128 \<le> f32_exponent y \<longrightarrow> f32_mag (fmul x y) \<noteq> 0 \<and> f32_mantissa (fmul x y) = 0)"
proof (intro conjI impI; (elim conjE)?)
  show "fmul x y = fmul y x" by (rule fmul_commute)
next
  assume e: "1 \<le> f32_exponent x" "1 \<le> f32_exponent y" "f32_exponent x + f32_exponent y \<in> {128..<382}"
  then show "f32_sign (fmul x y) = (f32_sign x \<noteq> f32_sign y)" using fmul_fields(1) [of x y] by simp
  show "2 ^ 23 * \<bar>f32_int (fmul x y) * 2 ^ 149 - f32_int x * f32_int y\<bar> \<le> \<bar>f32_int x * f32_int y\<bar>"
    using e by (intro fmul_relative_error) simp_all
next
  assume "f32_exponent x = 0" "128 \<le> f32_exponent y"
  note z = fmul_zero_operand [OF this]
  show "f32_mantissa (fmul x y) = 0" by (rule z)
  have "f32_exponent (fmul x y) \<noteq> 0" using z(2) \<open>128 \<le> f32_exponent y\<close> by linarith
  then show "f32_mag (fmul x y) \<noteq> 0" by (simp add: f32_mag_def)
qed

theorem fmul_accuracy_witness:
  "2 ^ 23 * \<bar>f32_int (fmul f32_half f32_one) * 2 ^ 149 - f32_int f32_half * f32_int f32_one\<bar>
      \<le> \<bar>f32_int f32_half * f32_int f32_one\<bar>
    \<and> f32_mag (fmul f32_zero (Bits 0x40000000)) \<noteq> 0"
proof -
  have e: "f32_exponent f32_half = 126" "f32_exponent f32_one = 127" "f32_exponent f32_zero = 0" "f32_exponent (Bits 0x40000000) = 128"
    by (simp_all add: f32_fields_nat f32_half_def f32_one_def f32_zero_def)
  show ?thesis
    using conjunct2 [OF fmul_accuracy [of f32_half f32_one]] conjunct2 [OF fmul_accuracy [of f32_zero "Bits 0x40000000"]]
    unfolding e by simp
qed

text \<open>
  C35. Conversions: the float made from an integer is at least as near to it as any other float, an
  integer of at most 24 bits survives the round trip, and a float below \<open>2\<close> to the power \<open>31\<close>
  is converted to the nearest integer, one at or above it to zero.
\<close>

theorem conversions_round:
  "\<bar>f32_int (fcvtsw i) - sint i * 2 ^ 149\<bar> \<le> \<bar>f32_int x - sint i * 2 ^ 149\<bar>
    \<and> (\<bar>sint i\<bar> < 2 ^ 24 \<longrightarrow> f32_int (fcvtsw i) = sint i * 2 ^ 149 \<and> fcvtws (fcvtsw i) = i)
    \<and> (f32_exponent x \<le> 157 \<longrightarrow> 2 * \<bar>sint (fcvtws x) * 2 ^ 149 - f32_int x\<bar> \<le> 2 ^ 149)
    \<and> (157 < f32_exponent x \<longrightarrow> fcvtws x = 0)"
  by (intro conjI impI fcvtsw_nearest_float fcvtsw_exact fcvt_roundtrip fcvtws_near fcvtws_overflow)

theorem conversions_round_witness:
  "fcvtws (fcvtsw 7) = 7 \<and> fcvtws (Bits 0x4F000000) = 0
    \<and> 2 * \<bar>sint (fcvtws f32_half) * 2 ^ 149 - f32_int f32_half\<bar> \<le> 2 ^ 149"
proof -
  have e: "f32_exponent f32_half = 126" "f32_exponent (Bits 0x4F000000) = 158"
    by (simp_all add: f32_fields_nat f32_half_def)
  have "\<bar>sint (7 :: u32)\<bar> < 2 ^ 24" by simp
  then show ?thesis
    using conversions_round [of 7 f32_half] conversions_round [of 7 "Bits 0x4F000000"] unfolding e by simp
qed

text \<open>
  C34. The floor of every finite float is exact: the largest integer that is not above it. Infinities
  and NaNs, whose bit pattern the formula reads like that of a finite number, come back unchanged.
\<close>

theorem ffloor_exact:
  "f32_int (ffloor x) = f32_int x div 2 ^ 149 * 2 ^ 149 \<and> (f32_exponent x = 255 \<longrightarrow> ffloor x = x)"
  by (simp add: ffloor_value) (simp add: ffloor_def word_less_nat_alt slice_fields)

theorem ffloor_exact_witness: "ffloor (Bits 0x7F800000) = Bits 0x7F800000"
  using ffloor_exact [of "Bits 0x7F800000"] by (simp add: f32_fields_nat)

end
