(* ===== verification/Spec2Isabelle.thy ===== *)
theory Spec2Isabelle
  imports Cli_Run Fpu_Accuracy Cpu_Timing Build_Agreement Encode_Instr Straight_Line Command_Text Stat_View Disasm
begin

text \<open>
  A verification library for the simulator of a 32-bit RISC processor with two instruction sets.

  \<^bold>\<open>The program.\<close> \<^verbatim>\<open>cli/src/main.rs\<close> reads an image (two length words, data, code), creates a
  \<^verbatim>\<open>Simulator\<close> (\<^verbatim>\<open>core_sim/src/sim.rs\<close>) around a \<^verbatim>\<open>Cpu\<close> (\<^verbatim>\<open>core_sim/src/cpu.rs\<close>) with an input
  and an output device, runs it to the end marker, either in one go or under the debugger of
  \<^verbatim>\<open>cli/src/interactive.rs\<close>, and writes what the program sent to the output device to a file. A
  cycle of the processor fetches a word from the memory, decodes it, reads the register file,
  executes (with the floating-point unit in C behind \<^verbatim>\<open>fpu_wrapper.rs\<close>), accesses memory through
  a cache model, writes back, and charges clocks to a five-slot pipeline with a branch predictor.

  \<^bold>\<open>Conventions.\<close> A Rust computation returns a value of \<open>outcome\<close>: \<open>Ok\<close>, \<open>Err\<close> for an error passed
  on with \<^verbatim>\<open>?\<close>, or \<open>Panic\<close>. State is passed explicitly by \<open>action\<close>s over records named after the
  structs; an action keeps the state it had reached when it fails. \<^verbatim>\<open>u8\<close>, \<^verbatim>\<open>u16\<close> and \<^verbatim>\<open>u32\<close> are
  words, \<^verbatim>\<open>i32\<close> is its bit pattern read with \<^const>\<open>sint\<close>, \<^verbatim>\<open>usize\<close> is a natural number, bounded
  where the code makes it wrap, \<^verbatim>\<open>f32\<close> is its bit pattern with exact rounding. The cargo feature
  \<^verbatim>\<open>isa_2nd\<close> and the overflow checks of a debug build are the record \<open>build\<close>; the other features
  have their defaults (\<^verbatim>\<open>typed_memory\<close>, \<^verbatim>\<open>stat\<close>, \<^verbatim>\<open>fpu_sim\<close>, \<^verbatim>\<open>time_predict\<close> on).

  \<^bold>\<open>Theories.\<close>

  \<^item> Ground: \<open>Sim_Prelude\<close> (outcomes, actions, Hoare triples), \<open>Rust_Std\<close> (vectors with panicking
    indices, checked arithmetic, byte order, printing of numbers; locale \<open>indexed_store\<close>), \<open>Loops\<close>
    (actions that may not return), \<open>Frames\<close> (locale \<open>frame_relation\<close>: what an action keeps whatever it
    does), \<open>Float32\<close>, \<open>Float64\<close>, \<open>Float_Text\<close> (IEEE arithmetic, parsing and printing), \<open>Peg\<close> (the
    combinators the \<^verbatim>\<open>peg\<close> macro stands for).
  \<^item> Data: \<open>Bin\<close> (\<^verbatim>\<open>bin.rs\<close>), \<open>Ty\<close> (\<^verbatim>\<open>ty.rs\<close>), \<open>Errors\<close>, \<open>Register\<close> (\<^verbatim>\<open>register.rs\<close>), \<open>Instr\<close>
    (\<^verbatim>\<open>instr.rs\<close>), \<open>Common\<close> (\<^verbatim>\<open>common.rs\<close>, \<^verbatim>\<open>breakpoint.rs\<close>), \<open>Display\<close> (what is printed of them),
    \<open>Debug_Symbol\<close> (\<^verbatim>\<open>debug_symbol.rs\<close>).
  \<^item> Decoders: \<open>Decode_Instr\<close>, \<open>Decode_Instr_2nd\<close>, one definition per arm. \<open>Encode_Instr\<close> has a reference
    assembler, written from the field layout, and proves that decoding inverts it.
  \<^item> Machine: \<open>Reg_File\<close> (locale \<open>register_bank\<close>), \<open>Memory\<close> (locale \<open>memory_port\<close>), \<open>Cache\<close>,
    \<open>Branch_Predictor\<close> (locale \<open>saturating\<close>), \<open>Io\<close> (locale \<open>recorder\<close>), \<open>Fpu_Wrapper\<close>, \<open>Cpu\<close>. The record
    \<open>cpu\<close> has the fields of the struct; \<open>cycle_one_full\<close> composes \<open>instr_fetch\<close>, \<open>instr_decode\<close>,
    \<open>reg_fetch\<close>, \<open>execute\<close>, \<open>memory_access\<close>, \<open>write_back\<close> and \<open>account_cycles\<close> in the order of the code.
  \<^item> The machine as a whole: \<open>Isa\<close> is the instruction set as a programmer sees it, one clause per
    instruction and no micro-architecture; \<open>Cpu_Refines\<close> and \<open>Cpu_Progress\<close> show that every cycle is one
    step of it, where errors come from and with which value, when a cycle can panic, and which
    instructions always retire. \<open>Cpu_Invariant\<close> and \<open>Cpu_Boot\<close> have the invariant, from the loaded
    image on (locale \<open>total_devices\<close>), \<open>Code_Frame\<close> that code never changes, \<open>Cpu_Timing\<close> the cost of an instruction, \<open>Build_Agreement\<close> that debug and
    release builds agree up to panics.
  \<^item> Simulator: \<open>Sim\<close> (run modes, break points, watched values, the batch loop of \<^verbatim>\<open>main.rs\<close>), \<open>Disasm\<close>
    (listings), \<open>Stat_View\<close> (\<^verbatim>\<open>stat.rs\<close> and the statistics views). \<open>Sim_Run\<close> says what a stop
    shows and changes and what caused it, \<open>Straight_Line\<close> that straight-line programs reach their end,
    \<open>Sim_Refines\<close> what the batch driver reports, and that a batch run that succeeds has computed what
    the instruction set says.
  \<^item> Devices of the ray tracer: \<open>Sld\<close> (\<^verbatim>\<open>sld.rs\<close>: the parser ends, its layout, and reading it back),
    \<open>Ppm\<close> (\<^verbatim>\<open>ppm.rs\<close>: the header check).
  \<^item> Floating-point unit: \<open>Fpu_C\<close> models \<^verbatim>\<open>fpu/impl\<close> and gives the record \<open>fpu_library\<close>, an instance of
    the parameter \<open>binding\<close> of all theorems on the machine; \<open>Fpu_Accuracy\<close> bounds the error of the
    product, shows the conversions correctly rounded and the floor exact.
  \<^item> Debugger: \<open>Command\<close> (the grammar, rule by rule), \<open>Interactive\<close> (every command, everything printed,
    both loops), \<open>Command_Text\<close> (typing and parsing a command), \<open>Debugger\<close> (commands between runs leave
    the machine alone; the end of the input).
  \<^item> Command line: \<open>Cli\<close> (\<^verbatim>\<open>main.rs\<close>, with files and log as the record \<open>world\<close>), \<open>Cli_Run\<close> (what a run
    without the debugger leaves behind).

  \<^bold>\<open>Parameters.\<close> Code outside the repository is an argument: the number and character parsers of
  \<^verbatim>\<open>nom\<close> (records \<open>nom\<close> and \<open>nom_bytes\<close>, with their documented laws as \<open>nom_lawful\<close> and
  \<open>nom_bytes_lawful\<close>, each with an instance that satisfies them), \<^verbatim>\<open>serde_json\<close> (\<open>h_json\<close>), the file
  system and the log (other fields of \<open>host\<close>), the terminal width, the expectation list of a \<^verbatim>\<open>peg\<close>
  error and the value of \<^verbatim>\<open>WatchRegFile::all()\<close> (record \<open>console\<close>), and the two readings of the clock.

  \<^bold>\<open>Fuel.\<close> Loops that may run for ever (the run loop, the batch loop, the two loops of the debugger) take
  fuel and return \<open>None\<close> when it ends; \<open>Sim_Refines\<close> shows that more fuel never changes a result.
  Where the code ends, that is proved: the scene parser with fuel proportional to its input, bounded
  stepping for every fuel, straight-line programs with one unit per instruction, the width loop of the
  tables with the width as fuel.

  \<^bold>\<open>Not modelled.\<close> \<^verbatim>\<open>clap\<close>'s parsing of the arguments; \<^verbatim>\<open>core_sim/build.rs\<close>, which only runs the C
  compiler and \<^verbatim>\<open>bindgen\<close>; the builds with a default feature switched off; \<^verbatim>\<open>Display\<close> of \<^verbatim>\<open>SldData\<close>
  and derived \<^verbatim>\<open>Debug\<close> output except where the program prints it; the log lines of \<^verbatim>\<open>Cpu::new\<close> and
  \<^verbatim>\<open>provide_dbg_symb\<close>; the unit tests. The
  payload of a computed NaN, which Rust leaves open, is the quiet one. In C, overflow of a signed
  integer, which the standard leaves open, wraps.
\<close>

end
